(* ===== verification/Prelude.thy ===== *)
theory Prelude
  imports Complex_Main "HOL-Library.Word" "HOL-Library.Sublist"
begin

text \<open>
  Shared vocabulary of the development: the machine integers of the Rust sources, the part of
  the Rust standard library the sources call on strings, options and slices, results of
  fallible code, and streams.

  A Rust \<open>String\<close> is a \<open>string\<close> whose characters are the bytes of its UTF-8
  encoding, so \<open>len()\<close> is \<open>length\<close>, slices count bytes and literals are
  written as they are in the source.  An \<open>u32\<close> or \<open>u64\<close> is a word of that
  width; a \<open>usize\<close> is a natural number, with the 64-bit bound written out where the
  source saturates, checks or casts.

  An asynchronous stream is the list of the items it yields before it ends.  A stage of a
  pipeline is a machine: a step that turns one input item into the items yielded for it, and a
  flush that yields what is left at the end of the input.
\<close>

named_theorems rust_simps \<open>computation rules of the modelled standard library\<close>
named_theorems stage_simps \<open>unfolding rules of the stream stages\<close>

section \<open>Integers\<close>

type_synonym u8 = "8 word"
type_synonym u32 = "32 word"
type_synonym u64 = "64 word"
type_synonym token_id = u32

definition usize_max :: nat where
  "usize_max = 2 ^ 64 - 1"

definition usize_saturating_add :: "nat \<Rightarrow> nat \<Rightarrow> nat" where
  "usize_saturating_add a b = min (a + b) usize_max"

definition usize_checked_add :: "nat \<Rightarrow> nat \<Rightarrow> nat option" where
  "usize_checked_add a b = (if a + b \<le> usize_max then Some (a + b) else None)"

definition u32_saturating_sub :: "u32 \<Rightarrow> u32 \<Rightarrow> u32" where
  "u32_saturating_sub a b = (if a < b then 0 else a - b)"

definition u32_saturating_add :: "u32 \<Rightarrow> u32 \<Rightarrow> u32" where
  "u32_saturating_add a b = (if unat a + unat b < 2 ^ 32 then a + b else - 1)"

text \<open>The cast \<open>n as u32\<close> keeps the low 32 bits.\<close>

definition as_u32 :: "nat \<Rightarrow> u32" where
  "as_u32 n = of_nat n"

text \<open>The conversion \<open>u32::try_from(n).unwrap_or(u32::MAX)\<close> of a \<open>usize\<close>.\<close>

definition u32_clamp :: "nat \<Rightarrow> u32" where
  "u32_clamp n = (if n < 2 ^ 32 then of_nat n else - 1)"

lemma unat_as_u32: "unat (as_u32 n) = n mod 2 ^ 32"
  by (simp add: as_u32_def unat_of_nat)

lemma unat_u32_saturating_sub: "unat (u32_saturating_sub a b) = unat a - unat b"
  by (simp add: u32_saturating_sub_def unat_sub word_less_nat_alt word_le_nat_alt)

lemma unat_minus_one_u32: "unat (- 1 :: u32) = 2 ^ 32 - 1"
  by (simp add: unat_eq_nat_uint uint_word_ariths)

lemma unat_u32_saturating_add:
  "unat (u32_saturating_add a b) = min (unat a + unat b) (2 ^ 32 - 1)"
proof (cases "unat a + unat b < 2 ^ 32")
  case True
  then have "unat (a + b) = unat a + unat b"
    by (subst unat_add_lem [THEN iffD1]) simp_all
  with True show ?thesis by (simp add: u32_saturating_add_def)
next
  case False
  then show ?thesis by (simp add: u32_saturating_add_def unat_minus_one_u32)
qed

lemma unat_u32_clamp: "unat (u32_clamp n) = min n (2 ^ 32 - 1)"
  by (auto simp: u32_clamp_def unat_of_nat unat_minus_one_u32)

lemma usize_saturating_add_bounds:
  "usize_saturating_add a b \<le> usize_max"
  "usize_saturating_add a b \<le> a + b"
  by (simp_all add: usize_saturating_add_def)

section \<open>Options\<close>

text \<open>\<open>Option::or\<close>, \<open>Option::filter\<close> and \<open>bool::then_some\<close>.\<close>

definition opt_or :: "'a option \<Rightarrow> 'a option \<Rightarrow> 'a option" where
  "opt_or x y = (case x of Some v \<Rightarrow> Some v | None \<Rightarrow> y)"

definition opt_filter :: "('a \<Rightarrow> bool) \<Rightarrow> 'a option \<Rightarrow> 'a option" where
  "opt_filter p x = (case x of Some v \<Rightarrow> if p v then Some v else None | None \<Rightarrow> None)"

definition is_some_and :: "('a \<Rightarrow> bool) \<Rightarrow> 'a option \<Rightarrow> bool" where
  "is_some_and p x = (case x of Some v \<Rightarrow> p v | None \<Rightarrow> False)"

definition is_none_or :: "('a \<Rightarrow> bool) \<Rightarrow> 'a option \<Rightarrow> bool" where
  "is_none_or p x = (case x of Some v \<Rightarrow> p v | None \<Rightarrow> True)"

definition unwrap_or :: "'a \<Rightarrow> 'a option \<Rightarrow> 'a" where
  "unwrap_or d x = (case x of Some v \<Rightarrow> v | None \<Rightarrow> d)"

definition then_some :: "bool \<Rightarrow> 'a \<Rightarrow> 'a option" where
  "then_some b v = (if b then Some v else None)"

definition is_some :: "'a option \<Rightarrow> bool" where
  "is_some x = (case x of Some _ \<Rightarrow> True | None \<Rightarrow> False)"

lemma opt_simps [simp, rust_simps]:
  "opt_or (Some v) y = Some v" "opt_or None y = y"
  "opt_filter p (Some v) = (if p v then Some v else None)" "opt_filter p None = None"
  "is_some_and p (Some v) = p v" "is_some_and p None = False"
  "is_none_or p (Some v) = p v" "is_none_or p None = True"
  "unwrap_or d (Some v) = v" "unwrap_or d None = d"
  "then_some True v = Some v" "then_some False v = None"
  "is_some (Some v)" "\<not> is_some None"
  by (simp_all add: opt_or_def opt_filter_def is_some_and_def is_none_or_def unwrap_or_def
      then_some_def is_some_def)

lemma is_some_iff: "is_some x \<longleftrightarrow> x \<noteq> None"
  by (cases x) simp_all

lemma is_some_and_iff: "is_some_and p x \<longleftrightarrow> (\<exists>v. x = Some v \<and> p v)"
  by (cases x) simp_all

lemma opt_filter_Some_iff: "opt_filter p x = Some v \<longleftrightarrow> x = Some v \<and> p v"
  by (cases x) auto

lemma then_some_eq [simp]:
  "then_some b v = Some w \<longleftrightarrow> b \<and> w = v"
  "then_some b v = None \<longleftrightarrow> \<not> b"
  by (auto simp: then_some_def)

text \<open>A string field that is present only when it holds text.\<close>

definition nonempty :: "string \<Rightarrow> string option" where
  "nonempty s = then_some (s \<noteq> []) s"

lemma nonempty_simps [simp, rust_simps]:
  "nonempty [] = None" "nonempty (c # s) = Some (c # s)"
  by (simp_all add: nonempty_def)

lemma unwrap_nonempty [simp]: "unwrap_or [] (nonempty s) = s"
  by (cases s) simp_all

section \<open>Strings\<close>

text \<open>
  \<open>str::trim\<close> removes characters with the Unicode property White\_Space.  On the UTF-8
  bytes these are the encodings of U+0009 to U+000D, U+0020, U+0085, U+00A0, U+1680, U+2000 to
  U+200A, U+2028, U+2029, U+202F, U+205F and U+3000.  \<open>ws_len s\<close> is the number of bytes of
  the white-space character \<open>s\<close> begins with, and 0 if there is none.
\<close>

definition ascii_ws :: "char \<Rightarrow> bool" where
  "ascii_ws c = (c \<in> {CHR 0x09, CHR 0x0A, CHR 0x0B, CHR 0x0C, CHR 0x0D, CHR 0x20})"

definition ws2 :: "char \<Rightarrow> char \<Rightarrow> bool" where
  "ws2 a b = (a = CHR 0xC2 \<and> b \<in> {CHR 0x85, CHR 0xA0})"

definition ws3 :: "char \<Rightarrow> char \<Rightarrow> char \<Rightarrow> bool" where
  "ws3 a b c =
     (a = CHR 0xE1 \<and> b = CHR 0x9A \<and> c = CHR 0x80 \<or>
      a = CHR 0xE2 \<and> b = CHR 0x80 \<and>
        c \<in> {CHR 0x80, CHR 0x81, CHR 0x82, CHR 0x83, CHR 0x84, CHR 0x85, CHR 0x86, CHR 0x87,
             CHR 0x88, CHR 0x89, CHR 0x8A, CHR 0xA8, CHR 0xA9, CHR 0xAF} \<or>
      a = CHR 0xE2 \<and> b = CHR 0x81 \<and> c = CHR 0x9F \<or>
      a = CHR 0xE3 \<and> b = CHR 0x80 \<and> c = CHR 0x80)"

definition ws_len :: "string \<Rightarrow> nat" where
  "ws_len s =
     (if s \<noteq> [] \<and> ascii_ws (s ! 0) then 1
      else if 2 \<le> length s \<and> ws2 (s ! 0) (s ! 1) then 2
      else if 3 \<le> length s \<and> ws3 (s ! 0) (s ! 1) (s ! 2) then 3
      else 0)"

text \<open>The same for the white-space character a string ends with, on the reversed bytes.\<close>

definition ws_len_rev :: "string \<Rightarrow> nat" where
  "ws_len_rev s =
     (if s \<noteq> [] \<and> ascii_ws (s ! 0) then 1
      else if 2 \<le> length s \<and> ws2 (s ! 1) (s ! 0) then 2
      else if 3 \<le> length s \<and> ws3 (s ! 2) (s ! 1) (s ! 0) then 3
      else 0)"

function strip_with :: "(string \<Rightarrow> nat) \<Rightarrow> string \<Rightarrow> string" where
  "strip_with w s = (if s = [] \<or> w s = 0 then s else strip_with w (drop (w s) s))"
  by pat_completeness auto
termination
  by (relation "measure (\<lambda>(w, s). length s)") auto

declare strip_with.simps [simp del]

definition trim_start :: "string \<Rightarrow> string" where
  "trim_start s = strip_with ws_len s"

definition trim_end :: "string \<Rightarrow> string" where
  "trim_end s = rev (strip_with ws_len_rev (rev s))"

definition trim :: "string \<Rightarrow> string" where
  "trim s = trim_end (trim_start s)"

text \<open>A string is blank when \<open>s.trim().is_empty()\<close>.\<close>

definition blank :: "string \<Rightarrow> bool" where
  "blank s = (trim s = [])"

lemma strip_with_suffix: "suffix (strip_with w s) s"
proof (induction w s rule: strip_with.induct)
  case (1 w s)
  show ?case
  proof (cases "s = [] \<or> w s = 0")
    case True
    then show ?thesis by (subst strip_with.simps) simp
  next
    case False
    then have "suffix (strip_with w (drop (w s) s)) (drop (w s) s)"
      by (rule "1.IH")
    also have "suffix (drop (w s) s) s"
      by (rule suffix_drop)
    finally show ?thesis
      using False by (simp add: strip_with.simps [of w s])
  qed
qed

lemma strip_with_fixed: "s = [] \<or> w s = 0 \<Longrightarrow> strip_with w s = s"
  by (subst strip_with.simps) simp

lemma trim_start_suffix: "suffix (trim_start s) s"
  by (simp add: trim_start_def strip_with_suffix)

lemma trim_end_prefix: "prefix (trim_end s) s"
  using strip_with_suffix [of ws_len_rev "rev s"]
  by (simp add: trim_end_def suffix_to_prefix)

lemma trim_simps [simp]: "trim_start [] = []" "trim_end [] = []" "trim [] = []"
  by (simp_all add: trim_start_def trim_end_def trim_def strip_with_fixed)

lemma blank_Nil [simp]: "blank []"
  by (simp add: blank_def)

lemma ws_len_bounds: "0 < ws_len s \<Longrightarrow> ws_len s \<le> length s"
  by (cases s) (auto simp: ws_len_def split: if_splits)

end
