(* ===== verification/Warmup.thy ===== *)
theory Warmup
  imports Transitions
begin

text \<open>
  The life of speculative warmups (\<open>fix/dynamo/speculative_prefill.rs\<close>, and the version it
  replaces, \<open>current-code/sources/main/speculative_prefill.rs\<close>, which shares this code).

  Every wrapped stream spawns one task.  It waits for the client turn, then runs
  \<open>prefill_task\<close> under a deadline: the task takes one of the admission permits, hands the
  preprocessing to a blocking closure that owns the permit, waits for its result, publishes the
  downstream context and dispatches a request for one token, then drains the response.
  Cancellation and the deadline stop the task; a closure that has started keeps running and
  keeps its permit.

  All tasks and closures run concurrently.  A step of the relation below is one atomic action
  between two await points or between two reads of shared state, so cancellation, time-outs and
  other tasks may come in between.  What the two versions of the file do differently is in the
  record \<open>kit\<close>: the message the client turn sends, if any, and the closure.
\<close>

definition max_blocking_prefills :: nat where
  "max_blocking_prefills = 4"

text \<open>\<open>Result<Option<Vec<u32>>>\<close>, the result of the closure.\<close>

type_synonym prepared = "string + token_id list option"

text \<open>
  The warmup request \<open>PreprocessedRequest::builder()\<close> makes, with the fields it sets to
  something other than a default.
\<close>

record prefill_request =
  pf_model :: string
  pf_token_ids :: "token_id list"
  pf_max_tokens :: "u32 option"

definition warm_request :: "string \<Rightarrow> token_id list \<Rightarrow> prefill_request" where
  "warm_request model toks = \<lparr>pf_model = model, pf_token_ids = toks, pf_max_tokens = Some 1\<rparr>"

text \<open>
  \<open>'i\<close> is what a task captures, \<open>'m\<close> the message its channel carries, \<open>'j\<close> the
  position of a closure.  \<open>kit_run\<close> advances a closure, given whether its token is cancelled
  now.
\<close>

record ('i, 'm, 'j) kit =
  kit_turn :: "'i \<Rightarrow> 'm option"
  kit_start :: "'i \<Rightarrow> 'm \<Rightarrow> 'j"
  kit_run :: "bool \<Rightarrow> 'j \<Rightarrow> 'j + prepared"
  kit_model :: "'i \<Rightarrow> string"

section \<open>Tasks\<close>

text \<open>Where \<open>prefill_task\<close> is suspended or about to continue.\<close>

datatype 'm warm_pc =
    W_Start 'm
  | W_Await 'm
  | W_Joined 'm prepared
  | W_Built 'm "token_id list"
  | W_Generate
  | W_Drain

datatype 'm phase = T_Wait | T_Warm "'m warm_pc" | T_Wind "'m warm_pc" | T_Done

datatype context_kind = Request_Context | Stream_Context

record ('i, 'm) task =
  t_group :: nat
  t_input :: 'i
  t_phase :: "'m phase"
  t_cancel :: bool
  t_slot :: "context_kind option"
  t_stopped :: "context_kind list"

record 'j job =
  j_owner :: nat
  j_pc :: 'j

text \<open>
  The world: the tokens of the owners (\<open>PrefillTasks\<close>), the free permits of the shared
  semaphore, the tasks, the closures that have started and not returned, and the requests
  dispatched so far, with the task each one came from.
\<close>

record ('i, 'm, 'j) world =
  w_cancel :: "nat \<Rightarrow> bool"
  w_permits :: nat
  w_tasks :: "('i, 'm) task list"
  w_jobs :: "'j job list"
  w_sent :: "(nat \<times> prefill_request) list"

definition world_init :: "('i, 'm, 'j) world \<Rightarrow> bool" where
  "world_init w =
     (w_permits w = max_blocking_prefills \<and> w_tasks w = [] \<and> w_jobs w = [] \<and> w_sent w = [])"

definition new_task :: "nat \<Rightarrow> 'i \<Rightarrow> ('i, 'm) task" where
  "new_task g x =
     \<lparr>t_group = g, t_input = x, t_phase = T_Wait, t_cancel = False, t_slot = None, t_stopped = []\<rparr>"

definition set_task :: "nat \<Rightarrow> ('i, 'm) task \<Rightarrow> ('i, 'm, 'j) world \<Rightarrow> ('i, 'm, 'j) world" where
  "set_task i t w = w\<lparr>w_tasks := (w_tasks w)[i := t]\<rparr>"

text \<open>\<open>warmup_cancel.is_cancelled()\<close>: the child token of the owner's token.\<close>

definition cancelled :: "('i, 'm, 'j) world \<Rightarrow> ('i, 'm) task \<Rightarrow> bool" where
  "cancelled w t = (w_cancel w (t_group t) \<or> t_cancel t)"

text \<open>
  Winding down: cancel the warmup; if nothing was dispatched, drop it; otherwise stop the
  context that is in the slot and keep polling.
\<close>

definition stop_downstream :: "('i, 'm) task \<Rightarrow> ('i, 'm) task" where
  "stop_downstream t =
     (case t_slot t of
        Some c \<Rightarrow> t\<lparr>t_slot := None, t_stopped := t_stopped t @ [c]\<rparr>
      | None \<Rightarrow> t)"

definition wind_down :: "'m warm_pc \<Rightarrow> ('i, 'm) task \<Rightarrow> ('i, 'm) task" where
  "wind_down pc t =
     (if t_slot t = None then t\<lparr>t_cancel := True, t_phase := T_Done\<rparr>
      else stop_downstream (t\<lparr>t_cancel := True, t_phase := T_Wind pc\<rparr>))"

text \<open>
  Polling \<open>prefill_task\<close> after its dispatch: \<open>generate\<close> returns an error or a stream,
  whose context replaces the one in the slot; draining ends.  \<open>None\<close> is completion.
\<close>

inductive drain_step :: "'m warm_pc \<times> context_kind option \<Rightarrow> 'm warm_pc option \<times> context_kind option \<Rightarrow> bool" where
  generate_error: "drain_step (W_Generate, c) (None, c)"
| generate_stream: "drain_step (W_Generate, c) (Some W_Drain, Some Stream_Context)"
| drained: "drain_step (W_Drain, c) (None, c)"

definition warm_phase :: "('m warm_pc \<Rightarrow> 'm phase) \<Rightarrow> 'm warm_pc option \<Rightarrow> 'm phase" where
  "warm_phase f pc = (case pc of None \<Rightarrow> T_Done | Some p \<Rightarrow> f p)"

text \<open>The steps of a task, other than admission, dispatch and the results of closures.\<close>

inductive task_step ::
  "('i, 'm, 'j) kit \<Rightarrow> ('i, 'm, 'j) world \<Rightarrow> ('i, 'm) task \<Rightarrow> ('i, 'm) task \<Rightarrow> bool"
  for K :: "('i, 'm, 'j) kit" and w :: "('i, 'm, 'j) world" where
  wait_cancelled: "t_phase t = T_Wait \<Longrightarrow> w_cancel w (t_group t) \<Longrightarrow>
    task_step K w t (t\<lparr>t_phase := T_Done\<rparr>)"
| wait_closed: "t_phase t = T_Wait \<Longrightarrow> task_step K w t (t\<lparr>t_phase := T_Done\<rparr>)"
| wait_received: "t_phase t = T_Wait \<Longrightarrow> \<not> w_cancel w (t_group t) \<Longrightarrow> kit_turn K (t_input t) = Some m \<Longrightarrow>
    task_step K w t (t\<lparr>t_phase := T_Warm (W_Start m)\<rparr>)"
| warm_cancelled: "t_phase t = T_Warm pc \<Longrightarrow> w_cancel w (t_group t) \<Longrightarrow> task_step K w t (wind_down pc t)"
| warm_timeout: "t_phase t = T_Warm pc \<Longrightarrow> task_step K w t (wind_down pc t)"
| start_cancelled: "t_phase t = T_Warm (W_Start m) \<Longrightarrow> cancelled w t \<Longrightarrow>
    task_step K w t (t\<lparr>t_phase := T_Done\<rparr>)"
| start_full: "t_phase t = T_Warm (W_Start m) \<Longrightarrow> \<not> cancelled w t \<Longrightarrow> w_permits w = 0 \<Longrightarrow>
    task_step K w t (t\<lparr>t_phase := T_Done\<rparr>)"
| joined_error: "t_phase t = T_Warm (W_Joined m (Inl e)) \<Longrightarrow> task_step K w t (t\<lparr>t_phase := T_Done\<rparr>)"
| joined_none: "t_phase t = T_Warm (W_Joined m (Inr None)) \<Longrightarrow> task_step K w t (t\<lparr>t_phase := T_Done\<rparr>)"
| joined_tokens: "t_phase t = T_Warm (W_Joined m (Inr (Some toks))) \<Longrightarrow>
    task_step K w t (t\<lparr>t_phase := T_Warm (W_Built m toks)\<rparr>)"
| joined_build_error: "t_phase t = T_Warm (W_Joined m (Inr (Some toks))) \<Longrightarrow>
    task_step K w t (t\<lparr>t_phase := T_Done\<rparr>)"
| built_cancelled: "t_phase t = T_Warm (W_Built m toks) \<Longrightarrow> cancelled w t \<Longrightarrow>
    task_step K w t (t\<lparr>t_phase := T_Done\<rparr>)"
| warm_drain: "t_phase t = T_Warm pc \<Longrightarrow> drain_step (pc, t_slot t) (pc', c) \<Longrightarrow>
    task_step K w t (t\<lparr>t_phase := warm_phase T_Warm pc', t_slot := c\<rparr>)"
| wind_drain: "t_phase t = T_Wind pc \<Longrightarrow> drain_step (pc, t_slot t) (pc', c) \<Longrightarrow>
    task_step K w t (t\<lparr>t_phase := warm_phase T_Wind pc', t_slot := c\<rparr>)"
| wind_expired: "t_phase t = T_Wind pc \<Longrightarrow> task_step K w t (t\<lparr>t_phase := T_Done\<rparr>)"

text \<open>The result of a closure reaches its task if the task still awaits it.\<close>

definition deliver :: "prepared \<Rightarrow> ('i, 'm) task \<Rightarrow> ('i, 'm) task" where
  "deliver r t = (case t_phase t of T_Warm (W_Await m) \<Rightarrow> t\<lparr>t_phase := T_Warm (W_Joined m r)\<rparr> | _ \<Rightarrow> t)"

definition finish_job :: "nat \<Rightarrow> prepared \<Rightarrow> ('i, 'm, 'j) world \<Rightarrow> ('i, 'm, 'j) world" where
  "finish_job n r w =
     (let i = j_owner (w_jobs w ! n) in
      set_task i (deliver r (w_tasks w ! i))
        (w\<lparr>w_jobs := take n (w_jobs w) @ drop (Suc n) (w_jobs w), w_permits := w_permits w + 1\<rparr>))"

inductive world_step :: "('i, 'm, 'j) kit \<Rightarrow> ('i, 'm, 'j) world \<Rightarrow> ('i, 'm, 'j) world \<Rightarrow> bool"
  for K :: "('i, 'm, 'j) kit" where
  spawn: "world_step K w (w\<lparr>w_tasks := w_tasks w @ [new_task g x]\<rparr>)"
| drop_owner: "world_step K w (w\<lparr>w_cancel := (w_cancel w)(g := True)\<rparr>)"
| task: "i < length (w_tasks w) \<Longrightarrow> task_step K w (w_tasks w ! i) t \<Longrightarrow> world_step K w (set_task i t w)"
| admit: "i < length (w_tasks w) \<Longrightarrow> w_tasks w ! i = t \<Longrightarrow> t_phase t = T_Warm (W_Start m) \<Longrightarrow>
    \<not> cancelled w t \<Longrightarrow> 0 < w_permits w \<Longrightarrow>
    world_step K w (set_task i (t\<lparr>t_phase := T_Warm (W_Await m)\<rparr>)
      (w\<lparr>w_permits := w_permits w - 1,
         w_jobs := w_jobs w @ [\<lparr>j_owner = i, j_pc = kit_start K (t_input t) m\<rparr>]\<rparr>))"
| job_runs: "n < length (w_jobs w) \<Longrightarrow> w_jobs w ! n = j \<Longrightarrow>
    kit_run K (cancelled w (w_tasks w ! j_owner j)) (j_pc j) = Inl pc \<Longrightarrow>
    world_step K w (w\<lparr>w_jobs := (w_jobs w)[n := j\<lparr>j_pc := pc\<rparr>]\<rparr>)"
| job_returns: "n < length (w_jobs w) \<Longrightarrow> w_jobs w ! n = j \<Longrightarrow>
    kit_run K (cancelled w (w_tasks w ! j_owner j)) (j_pc j) = Inr r \<Longrightarrow>
    world_step K w (finish_job n r w)"
| job_panics: "n < length (w_jobs w) \<Longrightarrow> world_step K w (finish_job n (Inl ''join error'') w)"
| dispatch: "i < length (w_tasks w) \<Longrightarrow> w_tasks w ! i = t \<Longrightarrow> t_phase t = T_Warm (W_Built m toks) \<Longrightarrow>
    \<not> cancelled w t \<Longrightarrow>
    world_step K w (set_task i (t\<lparr>t_phase := T_Warm W_Generate, t_slot := Some Request_Context\<rparr>)
      (w\<lparr>w_sent := w_sent w @ [(i, warm_request (kit_model K (t_input t)) toks)]\<rparr>))"

inductive_cases drain_stepE: "drain_step (pc, c) (pc', c')"

section \<open>The invariant\<close>

text \<open>
  What is known of a task in each phase, given how many requests it has sent: before the
  dispatch nothing is published and nothing is sent; tokens that wait for the dispatch satisfy
  \<open>Q\<close>; a task that winds down has sent one request, its token is cancelled and a context
  has been stopped.
\<close>

fun pc_ok ::
  "('i, 'm, 'j) kit \<Rightarrow> ('i \<Rightarrow> 'm \<Rightarrow> token_id list \<Rightarrow> bool) \<Rightarrow> nat \<Rightarrow> 'i \<Rightarrow> context_kind option \<Rightarrow> 'm warm_pc \<Rightarrow> bool" where
  "pc_ok K Q n x c (W_Start m) = (kit_turn K x = Some m \<and> c = None \<and> n = 0)"
| "pc_ok K Q n x c (W_Await m) = (kit_turn K x = Some m \<and> c = None \<and> n = 0)"
| "pc_ok K Q n x c (W_Joined m r) =
     (kit_turn K x = Some m \<and> c = None \<and> n = 0 \<and> (\<forall>toks. r = Inr (Some toks) \<longrightarrow> Q x m toks))"
| "pc_ok K Q n x c (W_Built m toks) = (kit_turn K x = Some m \<and> c = None \<and> n = 0 \<and> Q x m toks)"
| "pc_ok K Q n x c W_Generate = (c \<noteq> None \<and> n = 1)"
| "pc_ok K Q n x c W_Drain = (c \<noteq> None \<and> n = 1)"

definition task_ok ::
  "('i, 'm, 'j) kit \<Rightarrow> ('i \<Rightarrow> 'm \<Rightarrow> token_id list \<Rightarrow> bool) \<Rightarrow> nat \<Rightarrow> ('i, 'm) task \<Rightarrow> bool" where
  "task_ok K Q n t =
     (case t_phase t of
        T_Wait \<Rightarrow> t_slot t = None \<and> n = 0 \<and> \<not> t_cancel t
      | T_Warm pc \<Rightarrow> pc_ok K Q n (t_input t) (t_slot t) pc \<and> \<not> t_cancel t
      | T_Wind pc \<Rightarrow> pc \<in> {W_Generate, W_Drain} \<and> t_stopped t \<noteq> [] \<and> t_cancel t \<and> n = 1
      | T_Done \<Rightarrow> n \<le> 1)"

definition sent_by :: "('i, 'm, 'j) world \<Rightarrow> nat \<Rightarrow> nat" where
  "sent_by w i = length (filter (\<lambda>p. fst p = i) (w_sent w))"

definition job_ok ::
  "('i, 'm, 'j) kit \<Rightarrow> ('i \<Rightarrow> 'm \<Rightarrow> 'j \<Rightarrow> bool) \<Rightarrow> ('i, 'm) task list \<Rightarrow> 'j job \<Rightarrow> bool" where
  "job_ok K J ts j =
     (j_owner j < length ts \<and>
      (\<exists>m. kit_turn K (t_input (ts ! j_owner j)) = Some m \<and> J (t_input (ts ! j_owner j)) m (j_pc j)))"

definition sent_ok ::
  "('i, 'm, 'j) kit \<Rightarrow> ('i \<Rightarrow> 'm \<Rightarrow> token_id list \<Rightarrow> bool) \<Rightarrow> ('i, 'm) task list \<Rightarrow> nat \<times> prefill_request \<Rightarrow> bool" where
  "sent_ok K Q ts p =
     (fst p < length ts \<and>
      (\<exists>m toks. kit_turn K (t_input (ts ! fst p)) = Some m \<and> Q (t_input (ts ! fst p)) m toks \<and>
         snd p = warm_request (kit_model K (t_input (ts ! fst p))) toks))"

definition world_inv ::
  "('i, 'm, 'j) kit \<Rightarrow> ('i \<Rightarrow> 'm \<Rightarrow> token_id list \<Rightarrow> bool) \<Rightarrow> ('i \<Rightarrow> 'm \<Rightarrow> 'j \<Rightarrow> bool) \<Rightarrow> ('i, 'm, 'j) world \<Rightarrow> bool" where
  "world_inv K Q J w =
     (w_permits w + length (w_jobs w) = max_blocking_prefills
      \<and> (\<forall>i < length (w_tasks w). task_ok K Q (sent_by w i) (w_tasks w ! i))
      \<and> (\<forall>j \<in> set (w_jobs w). job_ok K J (w_tasks w) j)
      \<and> (\<forall>p \<in> set (w_sent w). sent_ok K Q (w_tasks w) p))"

lemma task_step_ok:
  assumes "task_step K w t t'" "task_ok K Q n t"
  shows "task_ok K Q n t' \<and> t_input t' = t_input t \<and> t_group t' = t_group t"
  using assms
proof cases
  case (warm_drain pc pc' c)
  with assms(2) show ?thesis
    by (auto simp: task_ok_def warm_phase_def elim!: drain_stepE)
next
  case (wind_drain pc pc' c)
  with assms(2) show ?thesis
    by (auto simp: task_ok_def warm_phase_def elim!: drain_stepE)
next
  case (warm_cancelled pc)
  with assms(2) show ?thesis
    by (cases pc) (auto simp: task_ok_def wind_down_def stop_downstream_def)
next
  case (warm_timeout pc)
  with assms(2) show ?thesis
    by (cases pc) (auto simp: task_ok_def wind_down_def stop_downstream_def)
qed (auto simp: task_ok_def)

lemma job_ok_cong:
  assumes "job_ok K J ts j" "length ts \<le> length ts'"
    and "\<And>i. i < length ts \<Longrightarrow> t_input (ts' ! i) = t_input (ts ! i)"
  shows "job_ok K J ts' j"
  using assms by (auto simp: job_ok_def)

lemma sent_ok_cong:
  assumes "sent_ok K Q ts p" "length ts \<le> length ts'"
    and "\<And>i. i < length ts \<Longrightarrow> t_input (ts' ! i) = t_input (ts ! i)"
  shows "sent_ok K Q ts' p"
  using assms by (auto simp: sent_ok_def)

lemma world_inv_tasks:
  assumes "world_inv K Q J w" "length (w_tasks w) \<le> length ts"
    and "\<And>i. i < length (w_tasks w) \<Longrightarrow> t_input (ts ! i) = t_input (w_tasks w ! i)"
    and "\<And>i. i < length ts \<Longrightarrow> task_ok K Q (sent_by w i) (ts ! i)"
  shows "world_inv K Q J (w\<lparr>w_tasks := ts\<rparr>)"
proof -
  have "job_ok K J ts j" if "j \<in> set (w_jobs w)" for j
    using assms(1) that by (intro job_ok_cong [OF _ assms(2,3)]) (auto simp: world_inv_def)
  moreover have "sent_ok K Q ts p" if "p \<in> set (w_sent w)" for p
    using assms(1) that by (intro sent_ok_cong [OF _ assms(2,3)]) (auto simp: world_inv_def)
  ultimately show ?thesis
    using assms(1,4) by (simp add: world_inv_def sent_by_def)
qed

lemma world_inv_set_task:
  assumes "world_inv K Q J w" "i < length (w_tasks w)" "t_input t = t_input (w_tasks w ! i)"
    and "task_ok K Q (sent_by w i) t"
  shows "world_inv K Q J (set_task i t w)"
  unfolding set_task_def
  by (rule world_inv_tasks [OF assms(1)])
    (use assms in \<open>auto simp: nth_list_update world_inv_def\<close>)

lemma deliver_ok:
  assumes "task_ok K Q n t"
    and "\<And>m toks. kit_turn K (t_input t) = Some m \<Longrightarrow> r = Inr (Some toks) \<Longrightarrow> Q (t_input t) m toks"
  shows "task_ok K Q n (deliver r t) \<and> t_input (deliver r t) = t_input t"
  using assms by (auto simp: deliver_def task_ok_def split: phase.splits warm_pc.splits)

lemma world_inv_finish_job:
  assumes "world_inv K Q J w" "n < length (w_jobs w)"
    and "\<And>x m toks. J x m (j_pc (w_jobs w ! n)) \<Longrightarrow> r = Inr (Some toks) \<Longrightarrow> Q x m toks"
  shows "world_inv K Q J (finish_job n r w)"
proof -
  let ?w = "w\<lparr>w_jobs := take n (w_jobs w) @ drop (Suc n) (w_jobs w), w_permits := w_permits w + 1\<rparr>"
  let ?i = "j_owner (w_jobs w ! n)"
  have job: "job_ok K J (w_tasks w) (w_jobs w ! n)"
    using assms(1,2) by (simp add: world_inv_def)
  have i: "?i < length (w_tasks w)" using job by (simp add: job_ok_def)
  have "world_inv K Q J ?w"
    using assms(1,2) by (auto simp: world_inv_def sent_by_def dest: in_set_takeD in_set_dropD)
  moreover have "task_ok K Q (sent_by w ?i) (deliver r (w_tasks w ! ?i)) \<and>
      t_input (deliver r (w_tasks w ! ?i)) = t_input (w_tasks w ! ?i)"
    by (rule deliver_ok) (use assms i job in \<open>auto simp: world_inv_def job_ok_def\<close>)
  ultimately have "world_inv K Q J (set_task ?i (deliver r (w_tasks w ! ?i)) ?w)"
    using i by (intro world_inv_set_task) (simp_all add: sent_by_def)
  then show ?thesis by (simp add: finish_job_def Let_def)
qed

lemma world_inv_spawn:
  assumes "world_inv K Q J w"
  shows "world_inv K Q J (w\<lparr>w_tasks := w_tasks w @ [new_task g x]\<rparr>)"
proof -
  have "sent_by w (length (w_tasks w)) = 0"
    using assms by (auto simp: sent_by_def world_inv_def sent_ok_def filter_empty_conv)
  then show ?thesis
    by (intro world_inv_tasks [OF assms])
      (use assms in \<open>auto simp: world_inv_def nth_append less_Suc_eq task_ok_def new_task_def\<close>)
qed

lemma world_inv_admit:
  assumes "world_inv K Q J w" "i < length (w_tasks w)" "t_phase (w_tasks w ! i) = T_Warm (W_Start m)"
    and "0 < w_permits w"
    and "\<And>x m. J x m (kit_start K x m)"
  shows "world_inv K Q J (set_task i ((w_tasks w ! i)\<lparr>t_phase := T_Warm (W_Await m)\<rparr>)
      (w\<lparr>w_permits := w_permits w - 1,
         w_jobs := w_jobs w @ [\<lparr>j_owner = i, j_pc = kit_start K (t_input (w_tasks w ! i)) m\<rparr>]\<rparr>))"
    (is "world_inv K Q J (set_task i ?t ?w)")
proof (rule world_inv_set_task)
  have t: "task_ok K Q (sent_by w i) (w_tasks w ! i)"
    using assms(1,2) by (simp add: world_inv_def)
  then show "task_ok K Q (sent_by ?w i) ?t"
    using assms(3) by (simp add: task_ok_def sent_by_def)
  show "world_inv K Q J ?w"
    using assms t by (auto simp: world_inv_def sent_by_def job_ok_def task_ok_def)
qed (use assms in simp_all)

lemma world_inv_dispatch:
  assumes "world_inv K Q J w" "i < length (w_tasks w)" "t_phase (w_tasks w ! i) = T_Warm (W_Built m toks)"
  shows "world_inv K Q J
     (set_task i ((w_tasks w ! i)\<lparr>t_phase := T_Warm W_Generate, t_slot := Some Request_Context\<rparr>)
      (w\<lparr>w_sent := w_sent w @ [(i, warm_request (kit_model K (t_input (w_tasks w ! i))) toks)]\<rparr>))"
    (is "world_inv K Q J ?w")
proof -
  have t: "task_ok K Q (sent_by w i) (w_tasks w ! i)"
    using assms(1,2) by (simp add: world_inv_def)
  let ?t = "(w_tasks w ! i)\<lparr>t_phase := T_Warm W_Generate, t_slot := Some Request_Context\<rparr>"
  let ?v = "w\<lparr>w_tasks := (w_tasks w)[i := ?t]\<rparr>"
  have v: "w_tasks ?w = w_tasks ?v" by (simp add: set_task_def)
  have inp: "t_input (w_tasks ?v ! k) = t_input (w_tasks w ! k)" if "k < length (w_tasks w)" for k
    using that by (cases "k = i") simp_all
  have "task_ok K Q (sent_by ?w k) (w_tasks ?w ! k)" if "k < length (w_tasks ?w)" for k
    using that assms t by (cases "k = i") (auto simp: set_task_def sent_by_def task_ok_def world_inv_def)
  moreover have "job_ok K J (w_tasks ?w) j" if "j \<in> set (w_jobs ?w)" for j
    using that assms(1) inp job_ok_cong [where ts = "w_tasks w" and ts' = "w_tasks ?v" and j = j and K = K and J = J]
    by (simp add: world_inv_def set_task_def)
  moreover have "sent_ok K Q (w_tasks ?w) p" if "p \<in> set (w_sent ?w)" for p
  proof -
    have "sent_ok K Q (w_tasks w) p"
      using that assms t by (auto simp: set_task_def world_inv_def sent_ok_def task_ok_def)
    then show ?thesis
      using inp sent_ok_cong [where ts = "w_tasks w" and ts' = "w_tasks ?v" and p = p and K = K and Q = Q]
      by (simp add: set_task_def)
  qed
  moreover have "w_permits ?w = w_permits w" "w_jobs ?w = w_jobs w" by (simp_all add: set_task_def)
  ultimately show ?thesis
    using assms(1) by (simp only: world_inv_def) simp
qed

section \<open>The contract of a kit\<close>

text \<open>
  The client side of the life cycle: a closure that starts for a message satisfies \<open>J\<close>,
  keeps it while it runs, and returns tokens only if they satisfy \<open>Q\<close>.
\<close>

locale warm_kit =
  fixes K :: "('i, 'm, 'j) kit"
    and Q :: "'i \<Rightarrow> 'm \<Rightarrow> token_id list \<Rightarrow> bool"
    and J :: "'i \<Rightarrow> 'm \<Rightarrow> 'j \<Rightarrow> bool"
  assumes job_start: "J x m (kit_start K x m)"
    and job_step: "J x m pc \<Longrightarrow> kit_run K c pc = Inl pc' \<Longrightarrow> J x m pc'"
    and job_result: "J x m pc \<Longrightarrow> kit_run K c pc = Inr (Inr (Some toks)) \<Longrightarrow> Q x m toks"
begin

lemma world_inv_step:
  assumes "world_inv K Q J w" "world_step K w w'"
  shows "world_inv K Q J w'"
  using assms(2)
proof cases
  case (spawn g x)
  with assms(1) show ?thesis by (simp add: world_inv_spawn)
next
  case (drop_owner g)
  with assms(1) show ?thesis by (simp add: world_inv_def sent_by_def)
next
  case (task i t)
  have "task_ok K Q (sent_by w i) (w_tasks w ! i)"
    using assms(1) task(2) by (simp add: world_inv_def)
  from task_step_ok [OF task(3) this] assms(1) task(1,2) show ?thesis
    by (simp add: world_inv_set_task)
next
  case (admit i t m)
  with assms(1) show ?thesis
    using world_inv_admit [OF assms(1), of i m] job_start by simp
next
  case (job_runs n j pc)
  then have "j_pc (j\<lparr>j_pc := pc\<rparr>) = pc" "job_ok K J (w_tasks w) j"
    using assms(1) by (auto simp: world_inv_def)
  then have "job_ok K J (w_tasks w) (j\<lparr>j_pc := pc\<rparr>)"
    using job_step job_runs(4) by (auto simp: job_ok_def)
  with assms(1) job_runs show ?thesis
    by (auto simp: world_inv_def sent_by_def dest!: set_update_subset_insert [THEN subsetD])
next
  case (job_returns n j r)
  then show ?thesis
    using world_inv_finish_job [OF assms(1), of n r] job_result by blast
next
  case (job_panics n)
  then show ?thesis
    using world_inv_finish_job [OF assms(1), of n "Inl ''join error''"] by blast
next
  case (dispatch i t m toks)
  then show ?thesis
    using world_inv_dispatch [OF assms(1), of i m toks] by simp
qed

lemma world_inv_init: "world_init w \<Longrightarrow> world_inv K Q J w"
  by (simp add: world_init_def world_inv_def)

end

sublocale warm_kit \<subseteq> life: invariant_of world_init "world_step K" "world_inv K Q J"
  by unfold_locales (auto intro: world_inv_init world_inv_step)

context warm_kit
begin

lemma sent_is_prepared:
  assumes "reachable world_init (world_step K) w" "(i, r) \<in> set (w_sent w)"
  shows "i < length (w_tasks w)"
    and "\<exists>m toks. kit_turn K (t_input (w_tasks w ! i)) = Some m \<and> Q (t_input (w_tasks w ! i)) m toks
          \<and> r = warm_request (kit_model K (t_input (w_tasks w ! i))) toks"
proof -
  have "sent_ok K Q (w_tasks w) (i, r)"
    using life.inv_reachable [OF assms(1)] assms(2) unfolding world_inv_def by blast
  then show "i < length (w_tasks w)"
    and "\<exists>m toks. kit_turn K (t_input (w_tasks w ! i)) = Some m \<and> Q (t_input (w_tasks w ! i)) m toks
          \<and> r = warm_request (kit_model K (t_input (w_tasks w ! i))) toks"
    by (simp_all add: sent_ok_def)
qed

lemma sent_once:
  assumes "reachable world_init (world_step K) w"
  shows "sent_by w i \<le> 1"
proof (cases "i < length (w_tasks w)")
  case True
  with life.inv_reachable [OF assms] have "task_ok K Q (sent_by w i) (w_tasks w ! i)"
    by (simp add: world_inv_def)
  then show ?thesis
    by (auto simp: task_ok_def split: phase.splits elim: pc_ok.elims)
next
  case False
  with life.inv_reachable [OF assms] have "sent_by w i = 0"
    by (auto simp: world_inv_def sent_ok_def sent_by_def filter_empty_conv)
  then show ?thesis by simp
qed

lemma permits_bound:
  assumes "reachable world_init (world_step K) w"
  shows "w_permits w + length (w_jobs w) = max_blocking_prefills"
  using life.inv_reachable [OF assms] by (simp add: world_inv_def)

end

section \<open>After an owner is dropped\<close>

text \<open>
  \<open>quiet g sent w\<close>: the token of owner \<open>g\<close> is cancelled, and none of the requests
  dispatched after \<open>sent\<close> comes from one of its tasks.
\<close>

definition quiet :: "nat \<Rightarrow> (nat \<times> prefill_request) list \<Rightarrow> ('i, 'm, 'j) world \<Rightarrow> bool" where
  "quiet g sent w =
     (w_cancel w g \<and>
      (\<exists>late. w_sent w = sent @ late \<and>
         (\<forall>p \<in> set late. fst p < length (w_tasks w) \<and> t_group (w_tasks w ! fst p) \<noteq> g)))"

lemma quiet_tasks:
  assumes "quiet g sent w" "w_cancel w' = w_cancel w" "w_sent w' = w_sent w"
    and "length (w_tasks w) \<le> length (w_tasks w')"
    and "\<And>i. i < length (w_tasks w) \<Longrightarrow> t_group (w_tasks w' ! i) = t_group (w_tasks w ! i)"
  shows "quiet g sent w'"
proof -
  obtain late where late: "w_cancel w g" "w_sent w = sent @ late"
    "\<And>p. p \<in> set late \<Longrightarrow> fst p < length (w_tasks w) \<and> t_group (w_tasks w ! fst p) \<noteq> g"
    using assms(1) by (auto simp: quiet_def)
  have "fst p < length (w_tasks w') \<and> t_group (w_tasks w' ! fst p) \<noteq> g" if "p \<in> set late" for p
    using late(3) [OF that] assms(4,5) by simp
  with late(1,2) assms(2,3) show ?thesis by (simp add: quiet_def)
qed

lemma task_step_group: "task_step K w t t' \<Longrightarrow> t_group t' = t_group t"
  by (erule task_step.cases) (auto simp: wind_down_def stop_downstream_def split: option.splits)

lemma deliver_group: "t_group (deliver r t) = t_group t"
  by (simp add: deliver_def split: phase.split warm_pc.split)

lemma quiet_set_task:
  assumes "quiet g sent w" "t_group t = t_group (w_tasks w ! i)"
  shows "quiet g sent (set_task i t w)"
proof -
  have "t_group ((w_tasks w)[i := t] ! k) = t_group (w_tasks w ! k)" if "k < length (w_tasks w)" for k
    using that assms(2) by (cases "k = i") simp_all
  then show ?thesis
    by (intro quiet_tasks [OF assms(1)]) (simp_all add: set_task_def)
qed

lemma quiet_step:
  assumes "quiet g sent w" "world_step K w w'"
  shows "quiet g sent w'"
  using assms(2)
proof cases
  case (spawn h x)
  then show ?thesis using assms(1) by (intro quiet_tasks [OF assms(1)]) (simp_all add: nth_append)
next
  case (drop_owner h)
  then show ?thesis using assms(1) by (auto simp: quiet_def)
next
  case (task i t)
  then show ?thesis using assms(1) by (simp add: quiet_set_task task_step_group)
next
  case (admit i t m)
  then show ?thesis
    by (simp only:) (rule quiet_set_task, use assms(1) admit in \<open>auto simp: quiet_def\<close>)
next
  case (job_runs n j pc)
  then show ?thesis using assms(1) by (auto simp: quiet_def)
next
  case (job_returns n j r)
  then show ?thesis
    by (simp only: finish_job_def Let_def)
      (rule quiet_set_task, use assms(1) in \<open>auto simp: quiet_def deliver_group\<close>)
next
  case (job_panics n)
  then show ?thesis
    by (simp only: finish_job_def Let_def)
      (rule quiet_set_task, use assms(1) in \<open>auto simp: quiet_def deliver_group\<close>)
next
  case (dispatch i t m toks)
  then have "t_group t \<noteq> g"
    using assms(1) by (auto simp: quiet_def cancelled_def)
  then have "quiet g sent (w\<lparr>w_sent := w_sent w @ [(i, warm_request (kit_model K (t_input t)) toks)]\<rparr>)"
    using assms(1) dispatch by (auto simp: quiet_def)
  then show ?thesis
    using dispatch by (simp only:) (rule quiet_set_task, auto)
qed

interpretation dropped: invariant_of "\<lambda>w. quiet g sent w" "world_step K" "quiet g sent"
  for g :: nat and sent :: "(nat \<times> prefill_request) list" and K :: "('i, 'm, 'j) kit"
  by unfold_locales (auto intro: quiet_step)


section \<open>An undisturbed warmup\<close>

text \<open>Running a closure, given what its token reads at each of its steps.\<close>

primrec run_job :: "('i, 'm, 'j) kit \<Rightarrow> bool list \<Rightarrow> 'j \<Rightarrow> 'j + prepared" where
  "run_job K [] pc = Inl pc"
| "run_job K (c # cs) pc =
     (case kit_run K c pc of Inl pc' \<Rightarrow> run_job K cs pc' | Inr r \<Rightarrow> Inr r)"

definition lone_world ::
  "('i, 'm) task \<Rightarrow> 'j job list \<Rightarrow> (nat \<times> prefill_request) list \<Rightarrow> ('i, 'm, 'j) world" where
  "lone_world t js sent =
     \<lparr>w_cancel = (\<lambda>_. False), w_permits = max_blocking_prefills - length js, w_tasks = [t],
      w_jobs = js, w_sent = sent\<rparr>"

lemma lone_received:
  assumes "kit_turn K x = Some m"
  shows "reachable world_init (world_step K) (lone_world ((new_task g x)\<lparr>t_phase := T_Warm (W_Start m)\<rparr>) [] [])"
proof -
  let ?w = "\<lparr>w_cancel = (\<lambda>_. False), w_permits = max_blocking_prefills, w_tasks = [], w_jobs = [], w_sent = []\<rparr>"
  have "reachable world_init (world_step K) ?w"
    by (rule reach_init) (simp add: world_init_def)
  from reach_step [OF this spawn [of K ?w g x]]
  have "reachable world_init (world_step K) (lone_world (new_task g x) [] [])"
    by (simp add: lone_world_def)
  moreover have "task_step K (lone_world (new_task g x) [] []) (new_task g x)
      ((new_task g x)\<lparr>t_phase := T_Warm (W_Start m)\<rparr>)"
    by (rule wait_received) (simp_all add: new_task_def lone_world_def assms)
  then have "world_step K (lone_world (new_task g x) [] [])
      (set_task 0 ((new_task g x)\<lparr>t_phase := T_Warm (W_Start m)\<rparr>) (lone_world (new_task g x) [] []))"
    by (intro task) (simp_all add: lone_world_def)
  ultimately have "reachable world_init (world_step K)
      (set_task 0 ((new_task g x)\<lparr>t_phase := T_Warm (W_Start m)\<rparr>) (lone_world (new_task g x) [] []))"
    by (rule reach_step)
  then show ?thesis by (simp add: set_task_def lone_world_def)
qed

lemma lone_job_runs:
  assumes "reachable world_init (world_step K)
      (lone_world ((new_task g x)\<lparr>t_phase := T_Warm (W_Await m)\<rparr>) [\<lparr>j_owner = 0, j_pc = pc\<rparr>] [])"
    and "run_job K (replicate n False) pc = Inr r"
  shows "reachable world_init (world_step K) (lone_world ((new_task g x)\<lparr>t_phase := T_Warm (W_Joined m r)\<rparr>) [] [])"
  using assms
proof (induction n arbitrary: pc)
  case 0
  then show ?case by simp
next
  case (Suc n)
  let ?w = "lone_world ((new_task g x)\<lparr>t_phase := T_Warm (W_Await m)\<rparr>) [\<lparr>j_owner = 0, j_pc = pc\<rparr>] []"
  have c: "cancelled ?w (w_tasks ?w ! 0) = False"
    by (simp add: cancelled_def lone_world_def new_task_def)
  show ?case
  proof (cases "kit_run K False pc")
    case (Inl pc')
    have "world_step K ?w (?w\<lparr>w_jobs := (w_jobs ?w)[0 := \<lparr>j_owner = 0, j_pc = pc\<rparr>\<lparr>j_pc := pc'\<rparr>]\<rparr>)"
      by (rule job_runs) (use c Inl in \<open>simp_all add: lone_world_def\<close>)
    then have "reachable world_init (world_step K)
        (lone_world ((new_task g x)\<lparr>t_phase := T_Warm (W_Await m)\<rparr>) [\<lparr>j_owner = 0, j_pc = pc'\<rparr>] [])"
      using reach_step [OF Suc.prems(1)] by (simp add: lone_world_def)
    then show ?thesis using Suc.IH Suc.prems(2) Inl by simp
  next
    case (Inr r')
    have "world_step K ?w (finish_job 0 r' ?w)"
      by (rule job_returns [OF _ refl]) (use c Inr in \<open>simp_all add: lone_world_def\<close>)
    moreover have "finish_job 0 r' ?w = lone_world ((new_task g x)\<lparr>t_phase := T_Warm (W_Joined m r')\<rparr>) [] []"
      by (simp add: finish_job_def Let_def set_task_def deliver_def lone_world_def max_blocking_prefills_def)
    ultimately show ?thesis using reach_step [OF Suc.prems(1)] Suc.prems(2) Inr by simp
  qed
qed

lemma lone_dispatch:
  assumes "kit_turn K x = Some m" "run_job K (replicate n False) (kit_start K x m) = Inr (Inr (Some toks))"
  shows "\<exists>w. reachable world_init (world_step K) w \<and> w_sent w = [(0, warm_request (kit_model K x) toks)]
           \<and> map t_input (w_tasks w) = [x]"
proof -
  let ?t = "\<lambda>p. (new_task 0 x)\<lparr>t_phase := T_Warm p\<rparr>"
  let ?j = "\<lparr>j_owner = 0, j_pc = kit_start K x m\<rparr>"
  have "world_step K (lone_world (?t (W_Start m)) [] []) (lone_world (?t (W_Await m)) [?j] [])"
    using admit [where K = K and i = 0 and m = m and w = "lone_world (?t (W_Start m)) [] []" and t = "?t (W_Start m)"]
    by (simp add: lone_world_def set_task_def max_blocking_prefills_def cancelled_def new_task_def)
  with lone_received [OF assms(1)] have "reachable world_init (world_step K) (lone_world (?t (W_Await m)) [?j] [])"
    by (rule reach_step)
  from lone_job_runs [OF this assms(2)]
  have joined: "reachable world_init (world_step K) (lone_world (?t (W_Joined m (Inr (Some toks)))) [] [])" .
  have "world_step K (lone_world (?t (W_Joined m (Inr (Some toks)))) [] []) (lone_world (?t (W_Built m toks)) [] [])"
    using task [where K = K and i = 0 and w = "lone_world (?t (W_Joined m (Inr (Some toks)))) [] []"
        and t = "?t (W_Built m toks)"]
      joined_tokens [where K = K and t = "?t (W_Joined m (Inr (Some toks)))" and m = m and toks = toks
        and w = "lone_world (?t (W_Joined m (Inr (Some toks)))) [] []"]
    by (simp add: lone_world_def set_task_def)
  with joined have built: "reachable world_init (world_step K) (lone_world (?t (W_Built m toks)) [] [])"
    by (rule reach_step)
  have "world_step K (lone_world (?t (W_Built m toks)) [] [])
     (lone_world ((?t W_Generate)\<lparr>t_slot := Some Request_Context\<rparr>) [] [(0, warm_request (kit_model K x) toks)])"
    using dispatch [where K = K and i = 0 and m = m and toks = toks and w = "lone_world (?t (W_Built m toks)) [] []"
        and t = "?t (W_Built m toks)"]
    by (simp add: lone_world_def set_task_def cancelled_def new_task_def)
  from reach_step [OF built this] have "reachable world_init (world_step K)
     (lone_world ((?t W_Generate)\<lparr>t_slot := Some Request_Context\<rparr>) [] [(0, warm_request (kit_model K x) toks)])"
    (is "reachable _ _ ?end") .
  moreover have "w_sent ?end = [(0, warm_request (kit_model K x) toks)]" "map t_input (w_tasks ?end) = [x]"
    by (simp_all add: lone_world_def new_task_def)
  ultimately show ?thesis by (intro exI conjI)
qed

end
