(* ===== verification/Ordered_Map.thy ===== *)
theory Ordered_Map
  imports Prelude "HOL-Library.List_Lexorder" "HOL-Library.Char_ord"
begin

text \<open>
  The maps of the sources.  A \<open>BTreeMap\<close> is an association list in ascending key order;
  the same list stands for a \<open>HashMap\<close> wherever the source never depends on its
  iteration order (it looks keys up, or sorts the keys before it iterates).  The interface the
  other theories rely on is the locale \<open>keyed_store\<close>, and it is interpreted here on the
  list implementation.
\<close>

type_synonym ('k, 'v) omap = "('k \<times> 'v) list"

primrec om_insert :: "'k::linorder \<Rightarrow> 'v \<Rightarrow> ('k, 'v) omap \<Rightarrow> ('k, 'v) omap" where
  "om_insert k v [] = [(k, v)]"
| "om_insert k v (e # m) =
     (if k < fst e then (k, v) # e # m
      else if k = fst e then (k, v) # m
      else e # om_insert k v m)"

definition om_get :: "('k::linorder, 'v) omap \<Rightarrow> 'k \<Rightarrow> 'v option" where
  "om_get m k = map_of m k"

definition om_keys :: "('k::linorder, 'v) omap \<Rightarrow> 'k list" where
  "om_keys m = map fst m"

definition om_ordered :: "('k::linorder, 'v) omap \<Rightarrow> bool" where
  "om_ordered m = sorted_wrt (<) (map fst m)"

definition om_of_list :: "('k::linorder \<times> 'v) list \<Rightarrow> ('k, 'v) omap" where
  "om_of_list kvs = fold (\<lambda>(k, v) m. om_insert k v m) kvs []"

text \<open>
  The contract of a map with ordered iteration: a read after a write, and that the keys come
  out once each and in ascending order.
\<close>

locale keyed_store =
  fixes none :: "'m"
    and put :: "'k::linorder \<Rightarrow> 'v \<Rightarrow> 'm \<Rightarrow> 'm"
    and get :: "'m \<Rightarrow> 'k \<Rightarrow> 'v option"
    and keys :: "'m \<Rightarrow> 'k list"
    and ordered :: "'m \<Rightarrow> bool"
  assumes get_none: "get none k = None"
    and get_put: "get (put k v m) k' = (if k' = k then Some v else get m k')"
    and ordered_none: "ordered none"
    and ordered_put: "ordered m \<Longrightarrow> ordered (put k v m)"
    and keys_ascending: "ordered m \<Longrightarrow> sorted_wrt (<) (keys m)"
    and keys_present: "k \<in> set (keys m) \<longleftrightarrow> get m k \<noteq> None"
begin

text \<open>\<open>entry(k).or_insert(d)\<close> followed by an update of the value in place.\<close>

definition modify :: "'k \<Rightarrow> 'v \<Rightarrow> ('v \<Rightarrow> 'v) \<Rightarrow> 'm \<Rightarrow> 'm" where
  "modify k d f m = put k (f (case get m k of Some v \<Rightarrow> v | None \<Rightarrow> d)) m"

lemma get_modify:
  "get (modify k d f m) k' =
     (if k' = k then Some (f (case get m k of Some v \<Rightarrow> v | None \<Rightarrow> d)) else get m k')"
  by (simp add: modify_def get_put)

lemma keys_put: "set (keys (put k v m)) = insert k (set (keys m))"
  by (auto simp: keys_present get_put split: if_splits)

lemma keys_distinct: "ordered m \<Longrightarrow> distinct (keys m)"
  by (rule strict_sorted_iff [THEN iffD1, THEN conjunct2]) (rule keys_ascending)

lemma keys_unique:
  assumes "ordered m" "ordered m'" "\<And>k. (get m k = None) = (get m' k = None)"
  shows "keys m = keys m'"
proof (rule strict_sorted_equal)
  show "sorted_wrt (<) (keys m)"
    using assms(1) by (rule keys_ascending)
  show "sorted_wrt (<) (keys m')"
    using assms(2) by (rule keys_ascending)
  show "set (keys m) = set (keys m')"
    using assms(3) by (auto simp: keys_present)
qed

end

lemma om_get_Nil [simp]: "om_get [] k = None"
  by (simp add: om_get_def)

lemma om_get_Cons: "om_get (e # m) k = (if k = fst e then Some (snd e) else om_get m k)"
  by (cases e) (simp add: om_get_def)

lemma om_get_insert [simp]:
  "om_get (om_insert k v m) k' = (if k' = k then Some v else om_get m k')"
  unfolding om_get_def by (induction m) auto

lemma set_fst_om_insert: "fst ` set (om_insert k v m) = insert k (fst ` set m)"
  by (induction m) auto

lemma om_ordered_insert [simp]: "om_ordered m \<Longrightarrow> om_ordered (om_insert k v m)"
proof (induction m)
  case Nil
  then show ?case by (simp add: om_ordered_def)
next
  case (Cons e m)
  then show ?case
    using set_fst_om_insert [of k v m] by (auto simp: om_ordered_def)
qed

lemma om_ordered_Nil [simp]: "om_ordered []"
  by (simp add: om_ordered_def)

lemma om_keys_present: "k \<in> set (om_keys m) \<longleftrightarrow> om_get m k \<noteq> None"
  by (auto simp: om_keys_def om_get_def map_of_eq_None_iff)

interpretation om: keyed_store "[]" om_insert om_get om_keys om_ordered
  by unfold_locales (auto simp: om_keys_present, simp add: om_keys_def om_ordered_def)

text \<open>An ordered map lists each key with the value it holds for it.\<close>

lemma om_mem_iff: "om_ordered m \<Longrightarrow> (k, v) \<in> set m \<longleftrightarrow> om_get m k = Some v"
  by (auto simp: om_get_def om_ordered_def strict_sorted_iff map_of_eq_Some_iff)

lemma om_insert_eq_Nil [simp]: "om_insert k v m \<noteq> []"
  by (cases m) auto

text \<open>Writing to a key that is present changes no other entry and not the list of keys.\<close>

lemma map_fst_om_insert_present:
  "om_ordered m \<Longrightarrow> om_get m k = Some v0 \<Longrightarrow> map fst (om_insert k v m) = map fst m"
proof -
  assume "om_ordered m" and "om_get m k = Some v0"
  then have "om_keys (om_insert k v m) = om_keys m"
    by (intro om.keys_unique) auto
  then show ?thesis by (simp add: om_keys_def)
qed

end
