(* ===== verification/Json.thy ===== *)
theory Json
  imports Ordered_Map
begin

text \<open>
  The values of \<open>serde_json\<close>, as far as the sources use them.  An object holds its
  members in key order, so that equality of objects is equality of the maps they are, as
  \<open>Value\<close> compares them.  A JSON number is finite, hence a rational.
\<close>

datatype json =
    JNull
  | JBool bool
  | JNumber rat
  | JString string
  | JArray "json list"
  | JObject "(string \<times> json) list"

definition json_object :: "(string \<times> json) list \<Rightarrow> json" where
  "json_object kvs = JObject (om_of_list kvs)"

text \<open>\<open>Value::get\<close> with a string key: nothing unless the value is an object.\<close>

fun json_get :: "string \<Rightarrow> json \<Rightarrow> json option" where
  "json_get k (JObject kvs) = om_get kvs k"
| "json_get k _ = None"

text \<open>Reading \<open>v[key]\<close>: a missing member reads as null.\<close>

definition json_index :: "string \<Rightarrow> json \<Rightarrow> json" where
  "json_index k v = unwrap_or JNull (json_get k v)"

text \<open>
  Assigning to \<open>v[key]\<close>: an object takes the member, null becomes an object first, and
  every other value panics, which is \<open>None\<close>.
\<close>

fun json_index_set :: "string \<Rightarrow> json \<Rightarrow> json \<Rightarrow> json option" where
  "json_index_set k x (JObject kvs) = Some (JObject (om_insert k x kvs))"
| "json_index_set k x JNull = Some (JObject [(k, x)])"
| "json_index_set k x _ = None"

fun json_as_str :: "json \<Rightarrow> string option" where
  "json_as_str (JString s) = Some s"
| "json_as_str _ = None"

fun json_as_bool :: "json \<Rightarrow> bool option" where
  "json_as_bool (JBool b) = Some b"
| "json_as_bool _ = None"

fun json_as_array :: "json \<Rightarrow> json list option" where
  "json_as_array (JArray xs) = Some xs"
| "json_as_array _ = None"

fun json_is_object :: "json \<Rightarrow> bool" where
  "json_is_object (JObject _) = True"
| "json_is_object _ = False"

text \<open>The idiom \<open>v.get(key).filter(|v| !v.is_null())\<close>.\<close>

definition json_present :: "string \<Rightarrow> json \<Rightarrow> json option" where
  "json_present k v = opt_filter (\<lambda>x. x \<noteq> JNull) (json_get k v)"

fun_cases json_get_SomeE: "json_get k v = Some x"
fun_cases json_as_str_SomeE: "json_as_str v = Some s"
fun_cases json_index_set_SomeE: "json_index_set k x v = Some w"

lemma json_get_set:
  "json_index_set k x v = Some w \<Longrightarrow>
     json_get k' w = (if k' = k then Some x else json_get k' v)"
  by (cases v) (auto simp: om_get_Cons)

lemma json_index_set_object: "json_is_object v \<Longrightarrow> \<exists>w. json_index_set k x v = Some w"
  by (cases v) auto

lemma json_index_set_is_object: "json_index_set k x v = Some w \<Longrightarrow> json_is_object w"
  by (cases v) auto

lemma json_as_str_Some_iff: "json_as_str v = Some s \<longleftrightarrow> v = JString s"
  by (cases v) auto

lemma json_present_Some_iff:
  "json_present k v = Some x \<longleftrightarrow> json_get k v = Some x \<and> x \<noteq> JNull"
  by (simp add: json_present_def opt_filter_Some_iff)

end
