(* ===== verification/Stages.thy ===== *)
theory Stages
  imports Prelude
begin

text \<open>
  Stream stages.  A stage reads the items of one stream in order, yields some items for each of
  them (\<open>step\<close>), and yields what it still holds when its input ends (\<open>flush\<close>);
  \<open>run_stage\<close> is the stream it produces.  A stage written with \<open>StreamExt::map\<close>
  yields exactly one item per input item; \<open>scan\<close> is that special case.
\<close>

type_synonym ('s, 'a, 'b) stage_step = "'s \<Rightarrow> 'a \<Rightarrow> 'b list \<times> 's"

primrec emitted :: "('s, 'a, 'b) stage_step \<Rightarrow> 's \<Rightarrow> 'a list \<Rightarrow> 'b list" where
  "emitted step s [] = []"
| "emitted step s (x # xs) = fst (step s x) @ emitted step (snd (step s x)) xs"

primrec final :: "('s, 'a, 'b) stage_step \<Rightarrow> 's \<Rightarrow> 'a list \<Rightarrow> 's" where
  "final step s [] = s"
| "final step s (x # xs) = final step (snd (step s x)) xs"

definition run_stage ::
  "('s, 'a, 'b) stage_step \<Rightarrow> ('s \<Rightarrow> 'b list) \<Rightarrow> 's \<Rightarrow> 'a list \<Rightarrow> 'b list" where
  "run_stage step flush s xs = emitted step s xs @ flush (final step s xs)"

primrec scan :: "('s \<Rightarrow> 'a \<Rightarrow> 'b \<times> 's) \<Rightarrow> 's \<Rightarrow> 'a list \<Rightarrow> 'b list" where
  "scan f s [] = []"
| "scan f s (x # xs) = fst (f s x) # scan f (snd (f s x)) xs"

lemma emitted_append:
  "emitted step s (xs @ ys) = emitted step s xs @ emitted step (final step s xs) ys"
  by (induction xs arbitrary: s) simp_all

lemma final_append: "final step s (xs @ ys) = final step (final step s xs) ys"
  by (induction xs arbitrary: s) simp_all

lemma run_stage_Nil [simp]: "run_stage step flush s [] = flush s"
  by (simp add: run_stage_def)

lemma run_stage_Cons [simp]:
  "run_stage step flush s (x # xs) =
     fst (step s x) @ run_stage step flush (snd (step s x)) xs"
  by (simp add: run_stage_def)

text \<open>
  A stage is causal: what it has yielded for a prefix of its input is a prefix of what it
  yields for the whole input.
\<close>

lemma emitted_causal: "prefix (emitted step s xs) (run_stage step flush s (xs @ ys))"
  by (simp add: run_stage_def emitted_append)

lemma length_scan [simp]: "length (scan f s xs) = length xs"
  by (induction xs arbitrary: s) simp_all

lemma scan_stage: "scan f s xs = run_stage (\<lambda>s x. ([fst (f s x)], snd (f s x))) (\<lambda>_. []) s xs"
  by (induction xs arbitrary: s) simp_all

lemma scan_append: "scan f s (xs @ ys) = scan f s xs @ scan f (fold (\<lambda>x s. snd (f s x)) xs s) ys"
  by (induction xs arbitrary: s) simp_all

text \<open>An invariant of the state that every step keeps holds after every input.\<close>

lemma final_invariant:
  assumes "\<And>s x. I s \<Longrightarrow> I (snd (step s x))" and "I s"
  shows "I (final step s xs)"
  using assms(2) by (induction xs arbitrary: s) (simp_all add: assms(1))

lemma emitted_invariant:
  assumes "\<And>s x. I s \<Longrightarrow> I (snd (step s x)) \<and> (\<forall>y \<in> set (fst (step s x)). P y)" and "I s"
  shows "\<forall>y \<in> set (emitted step s xs). P y"
  using assms(2) by (induction xs arbitrary: s) (use assms(1) in auto)

section \<open>Buffering stages\<close>

text \<open>
  The contract of a stage that may hold material back but neither invents nor drops any: with
  \<open>ins x\<close> the material an input item carries, \<open>outs y\<close> the material of an output
  item and \<open>held s\<close> the material the state still owes, one step moves
  \<open>held s @ ins x\<close> to the output and the new state, in order, and the flush releases the
  rest.  Inputs the contract does not cover are excluded by \<open>ok\<close>.
\<close>

locale buffering_stage =
  fixes step :: "('s, 'a, 'b) stage_step"
    and flush :: "'s \<Rightarrow> 'b list"
    and ins :: "'a \<Rightarrow> 'o list"
    and outs :: "'b \<Rightarrow> 'o list"
    and held :: "'s \<Rightarrow> 'o list"
    and good :: "'s \<Rightarrow> bool"
    and ok :: "'a \<Rightarrow> bool"
  assumes step_conserves:
      "good s \<Longrightarrow> ok x \<Longrightarrow>
         concat (map outs (fst (step s x))) @ held (snd (step s x)) = held s @ ins x"
    and step_good: "good s \<Longrightarrow> ok x \<Longrightarrow> good (snd (step s x))"
    and flush_conserves: "good s \<Longrightarrow> concat (map outs (flush s)) = held s"
begin

lemma emitted_conserves:
  "good s \<Longrightarrow> list_all ok xs \<Longrightarrow>
     concat (map outs (emitted step s xs)) @ held (final step s xs) = held s @ concat (map ins xs)
     \<and> good (final step s xs)"
proof (induction xs arbitrary: s)
  case Nil
  then show ?case by simp
next
  case (Cons x xs)
  let ?s' = "snd (step s x)"
  from Cons.prems have "good ?s'" and "list_all ok xs"
    by (simp_all add: step_good)
  then have IH: "concat (map outs (emitted step ?s' xs)) @ held (final step ?s' xs) =
      held ?s' @ concat (map ins xs) \<and> good (final step ?s' xs)"
    by (rule Cons.IH)
  have "concat (map outs (fst (step s x))) @ held ?s' = held s @ ins x"
    using Cons.prems by (simp add: step_conserves)
  then show ?case
    using IH by (simp flip: append_assoc) (metis append_assoc)
qed

theorem conserves:
  "good s \<Longrightarrow> list_all ok xs \<Longrightarrow>
     concat (map outs (run_stage step flush s xs)) = held s @ concat (map ins xs)"
  using emitted_conserves [of s xs] by (simp add: run_stage_def flush_conserves)

end

section \<open>Monitors\<close>

text \<open>
  A monitor is a fold over the items of a stream with a verdict that cannot be taken back.
\<close>

locale absorbing_monitor =
  fixes observe :: "'a \<Rightarrow> 's \<Rightarrow> 's"
    and doomed :: "'s \<Rightarrow> bool"
  assumes doomed_step: "doomed s \<Longrightarrow> doomed (observe x s)"
begin

lemma doomed_fold: "doomed s \<Longrightarrow> doomed (fold observe xs s)"
  by (induction xs arbitrary: s) (simp_all add: doomed_step)

lemma doomed_anywhere:
  assumes "doomed (fold observe xs s)"
  shows "doomed (fold observe (xs @ ys) s)"
  using assms by (simp add: doomed_fold)

lemma not_doomed_prefix:
  "\<not> doomed (fold observe (xs @ ys) s) \<Longrightarrow> \<not> doomed (fold observe xs s)"
  using doomed_anywhere by blast

end

end
