(* ===== verification/Chat_Types.thy ===== *)
theory Chat_Types
  imports Json Stages
begin

text \<open>
  The messages that flow through the chat pipeline, with the fields the sources read or write:
  the chunks of a chat completion stream, the annotation envelope around each of them, and the
  chat request.
\<close>

section \<open>Stream chunks\<close>

datatype role = Role_System | Role_User | Role_Assistant | Role_Tool | Role_Function

datatype finish_reason = FR_Stop | FR_Length | FR_ToolCalls | FR_ContentFilter | FR_FunctionCall

text \<open>\<open>ChatCompletionMessageContent\<close>: text, or a list of parts, kept as JSON.\<close>

datatype content = Text string | Parts "json list"

text \<open>
  A chunk of a tool call: the \<open>index\<close> the sources read directly, and the value
  \<open>serde_json::to_value\<close> makes of the whole chunk, which they read everything else from.
\<close>

record tool_call_chunk =
  tc_index :: u32
  tc_value :: json

record delta =
  d_role :: "role option"
  d_content :: "content option"
  d_reasoning :: "string option"
  d_tool_calls :: "tool_call_chunk list option"
  d_function_call :: "json option"
  d_refusal :: "string option"

record choice =
  ch_index :: u32
  ch_delta :: delta
  ch_finish :: "finish_reason option"
  ch_logprobs :: "json option"

text \<open>The part of \<open>CompletionUsage\<close> the sources touch: the reasoning token count.\<close>

record usage =
  u_prompt :: u32
  u_completion :: u32
  u_cached :: "u32 option"
  u_details :: "(u32 option) option"

text \<open>
  \<open>NvCreateChatCompletionStreamResponse\<close>.  Of \<open>llm_metrics\<close> the stages read
  the number of tokens of the chunk.
\<close>

record chunk =
  k_choices :: "choice list"
  k_usage :: "usage option"
  k_nvext :: "json option"
  k_metrics :: "nat option"

text \<open>\<open>Annotated\<close>: the envelope of the runtime around the items of a stream.\<close>

record 'r annotated =
  a_id :: "string option"
  a_data :: "'r option"
  a_event :: "string option"
  a_comment :: "string list option"
  a_error :: "string option"

type_synonym frame = "chunk annotated"

abbreviation frame_of :: "chunk \<Rightarrow> frame" where
  "frame_of k \<equiv> \<lparr>a_id = None, a_data = Some k, a_event = None, a_comment = None, a_error = None\<rparr>"

text \<open>The text a delta carries in its content channel, and in its reasoning channel.\<close>

definition content_text :: "delta \<Rightarrow> string" where
  "content_text d = (case d_content d of Some (Text t) \<Rightarrow> t | _ \<Rightarrow> [])"

definition reasoning_text :: "delta \<Rightarrow> string" where
  "reasoning_text d = unwrap_or [] (d_reasoning d)"

definition frame_choices :: "frame \<Rightarrow> choice list" where
  "frame_choices f = (case a_data f of Some k \<Rightarrow> k_choices k | None \<Rightarrow> [])"

text \<open>The text a stream delivers to one choice, over all its frames.\<close>

definition choice_text :: "(delta \<Rightarrow> string) \<Rightarrow> u32 \<Rightarrow> frame list \<Rightarrow> string" where
  "choice_text ch i fs =
     concat (map (\<lambda>c. if ch_index c = i then ch (ch_delta c) else []) (concat (map frame_choices fs)))"

lemma choice_text_Nil [simp]: "choice_text ch i [] = []"
  by (simp add: choice_text_def)

lemma choice_text_append [simp]:
  "choice_text ch i (fs @ gs) = choice_text ch i fs @ choice_text ch i gs"
  by (simp add: choice_text_def)

lemma choice_text_Cons:
  "choice_text ch i (f # fs) = choice_text ch i [f] @ choice_text ch i fs"
  by (simp add: choice_text_def)

section \<open>Updating choices in place\<close>

text \<open>
  The loops \<open>for choice in data.inner.choices.iter_mut()\<close>, with the state they thread.
\<close>

primrec map_accum :: "('s \<Rightarrow> 'a \<Rightarrow> 'b \<times> 's) \<Rightarrow> 's \<Rightarrow> 'a list \<Rightarrow> 'b list \<times> 's" where
  "map_accum f s [] = ([], s)"
| "map_accum f s (x # xs) =
     (let (y, s') = f s x; (ys, s'') = map_accum f s' xs in (y # ys, s''))"

lemma length_map_accum [simp]: "length (fst (map_accum f s xs)) = length xs"
  by (induction xs arbitrary: s) (simp_all add: Let_def split_beta)

lemma map_accum_append:
  "map_accum f s (xs @ ys) =
     (fst (map_accum f s xs) @ fst (map_accum f (snd (map_accum f s xs)) ys),
      snd (map_accum f (snd (map_accum f s xs)) ys))"
  by (induction xs arbitrary: s) (simp_all add: Let_def split_beta)

lemma map_accum_invariant:
  assumes "\<And>s x. I s \<Longrightarrow> I (snd (f s x))" and "I s"
  shows "I (snd (map_accum f s xs))"
  using assms(2) by (induction xs arbitrary: s) (simp_all add: Let_def split_beta assms(1))

end
