(* ===== verification/Tool_Turn.thy ===== *)
theory Tool_Turn
  imports Chat_Types
begin

text \<open>
  The accumulator of one assistant turn, \<open>CompletedToolTurn\<close> of
  \<open>fix/dynamo/accumulator.rs\<close>: it watches the chunks of a response stream and, at the
  end, gives the complete assistant message, or nothing when the turn is not a successful
  tool-calling turn.

  \<open>observe\<close> returns an option, where \<open>None\<close> is a panic of the source (an
  \<open>unwrap\<close> on a missing string, an assignment through a value that is not an object).
  What the protocol crate and \<open>serde_json\<close> do with typed values is the parameter
  \<open>protocol\<close>.
\<close>

section \<open>State and operations\<close>

record 'm protocol =
  delta_value :: "delta \<Rightarrow> json"
  reason_value :: "finish_reason \<Rightarrow> json"
  parse_json :: "string \<Rightarrow> json option"
  assistant_of :: "json \<Rightarrow> 'm option"

record tool_turn =
  tt_content :: "string option"
  tt_reasoning :: "string option"
  tt_tools :: "(u32, json) omap"
  tt_finished :: bool
  tt_failed :: bool

definition turn_default :: tool_turn where
  "turn_default =
     \<lparr>tt_content = None, tt_reasoning = None, tt_tools = [], tt_finished = False, tt_failed = False\<rparr>"

definition reject :: "tool_turn \<Rightarrow> tool_turn" where
  "reject s = s\<lparr>tt_failed := True\<rparr>"

text \<open>A member of the delta that rules the turn out.\<close>

definition rejected_delta :: "json \<Rightarrow> bool" where
  "rejected_delta d =
     (is_some (json_present ''function_call'' d)
      \<or> is_some (json_present ''refusal'' d)
      \<or> is_some_and (\<lambda>v. v \<noteq> JString ''assistant'') (json_present ''role'' d))"

text \<open>One pass of the loop over the text channels; \<open>None\<close> when the member is no string.\<close>

definition absorb_text :: "string \<Rightarrow> json \<Rightarrow> string option \<Rightarrow> string option option" where
  "absorb_text key d target =
     (case json_present key d of
        None \<Rightarrow> Some target
      | Some v \<Rightarrow>
          (case json_as_str v of
             Some t \<Rightarrow> Some (Some (unwrap_or [] target @ t))
           | None \<Rightarrow> None))"

definition new_entry :: json where
  "new_entry =
     json_object [(''type'', JString ''function''),
                  (''function'', json_object [(''arguments'', JString [])])]"

text \<open>
  The parts of merging one tool-call chunk into its entry.  The result is the entry as it was
  left, with a flag that is false when the chunk contradicts the entry.
\<close>

definition and_then :: "(json \<times> bool) option \<Rightarrow> (json \<Rightarrow> (json \<times> bool) option) \<Rightarrow> (json \<times> bool) option" where
  "and_then r f = (case r of None \<Rightarrow> None | Some (e, ok) \<Rightarrow> if ok then f e else Some (e, False))"

definition absorb_key :: "string \<Rightarrow> json \<Rightarrow> json \<Rightarrow> (json \<times> bool) option" where
  "absorb_key key incoming existing =
     (case json_present key incoming of
        None \<Rightarrow> Some (existing, True)
      | Some v \<Rightarrow>
          if is_some_and (\<lambda>old. old \<noteq> v) (json_get key existing) then Some (existing, False)
          else map_option (\<lambda>e. (e, True)) (json_index_set key v existing))"

definition json_path_set :: "string \<Rightarrow> string \<Rightarrow> json \<Rightarrow> json \<Rightarrow> json option" where
  "json_path_set k1 k2 x v =
     (case json_index_set k2 x (json_index k1 v) of
        None \<Rightarrow> None
      | Some w \<Rightarrow> json_index_set k1 w v)"

definition absorb_name :: "json \<Rightarrow> json \<Rightarrow> (json \<times> bool) option" where
  "absorb_name fn existing =
     (case json_present ''name'' fn of
        None \<Rightarrow> Some (existing, True)
      | Some name \<Rightarrow>
          if is_some_and (\<lambda>old. old \<noteq> name) (json_get ''name'' (json_index ''function'' existing))
          then Some (existing, False)
          else map_option (\<lambda>e. (e, True)) (json_path_set ''function'' ''name'' name existing))"

definition absorb_args :: "json \<Rightarrow> json \<Rightarrow> (json \<times> bool) option" where
  "absorb_args fn existing =
     (case Option.bind (json_get ''arguments'' fn) json_as_str of
        None \<Rightarrow> Some (existing, True)
      | Some args \<Rightarrow>
          (case json_as_str (json_index ''arguments'' (json_index ''function'' existing)) of
             None \<Rightarrow> None
           | Some old \<Rightarrow>
               map_option (\<lambda>e. (e, True))
                 (json_path_set ''function'' ''arguments'' (JString (old @ args)) existing)))"

definition absorb_chunk :: "json \<Rightarrow> json \<Rightarrow> (json \<times> bool) option" where
  "absorb_chunk incoming existing =
     and_then (absorb_key ''id'' incoming existing) (\<lambda>e1.
     and_then (absorb_key ''type'' incoming e1) (\<lambda>e2.
       case json_present ''function'' incoming of
         None \<Rightarrow> Some (e2, True)
       | Some fn \<Rightarrow> and_then (absorb_name fn e2) (absorb_args fn)))"

fun absorb_chunks ::
  "tool_call_chunk list \<Rightarrow> (u32, json) omap \<Rightarrow> ((u32, json) omap \<times> bool) option" where
  "absorb_chunks [] tools = Some (tools, True)"
| "absorb_chunks (c # cs) tools =
     (case absorb_chunk (tc_value c) (unwrap_or new_entry (om_get tools (tc_index c))) of
        None \<Rightarrow> None
      | Some (e, ok) \<Rightarrow>
          let tools' = om_insert (tc_index c) e tools in
          if ok then absorb_chunks cs tools' else Some (tools', False))"

definition close_turn :: "'m protocol \<Rightarrow> finish_reason option \<Rightarrow> tool_turn \<Rightarrow> tool_turn" where
  "close_turn P reason s =
     (case reason of
        None \<Rightarrow> s
      | Some r \<Rightarrow>
          let s' = s\<lparr>tt_finished := True\<rparr> in
          if reason_value P r \<noteq> JString ''tool_calls'' then reject s' else s')"

definition observe :: "'m protocol \<Rightarrow> chunk \<Rightarrow> tool_turn \<Rightarrow> tool_turn option" where
  "observe P resp s =
     (if k_choices resp = [] then Some s
      else if tt_failed s \<or> tt_finished s \<or> length (k_choices resp) \<noteq> 1
              \<or> ch_index (hd (k_choices resp)) \<noteq> 0
      then Some (reject s)
      else
        let ch = hd (k_choices resp); d = delta_value P (ch_delta ch) in
        if rejected_delta d then Some (reject s)
        else
          (case absorb_text ''content'' d (tt_content s) of
             None \<Rightarrow> Some (s\<lparr>tt_failed := True\<rparr>)
           | Some c \<Rightarrow>
               let s1 = s\<lparr>tt_content := c\<rparr> in
               (case absorb_text ''reasoning_content'' d (tt_reasoning s1) of
                  None \<Rightarrow> Some (s1\<lparr>tt_failed := True\<rparr>)
                | Some r \<Rightarrow>
                    let s2 = s1\<lparr>tt_reasoning := r\<rparr> in
                    (case absorb_chunks (unwrap_or [] (d_tool_calls (ch_delta ch))) (tt_tools s2) of
                       None \<Rightarrow> None
                     | Some (tools, ok) \<Rightarrow>
                         let s3 = s2\<lparr>tt_tools := tools\<rparr> in
                         if ok then Some (close_turn P (ch_finish ch) s3)
                         else Some (s3\<lparr>tt_failed := True\<rparr>)))))"

text \<open>The checks of \<open>finish\<close> on the collected calls, in index order.\<close>

fun check_tools :: "'m protocol \<Rightarrow> nat \<Rightarrow> string list \<Rightarrow> (u32 \<times> json) list \<Rightarrow> bool" where
  "check_tools P expected ids [] = True"
| "check_tools P expected ids ((index, tool) # rest) =
     (case (json_as_str (json_index ''id'' tool),
            json_as_str (json_index ''name'' (json_index ''function'' tool)),
            json_as_str (json_index ''arguments'' (json_index ''function'' tool))) of
        (Some i, Some name, Some args) \<Rightarrow>
          unat index = expected \<and> i \<noteq> [] \<and> name \<noteq> [] \<and> i \<notin> set ids
          \<and> json_index ''type'' tool = JString ''function''
          \<and> is_some_and json_is_object (parse_json P args)
          \<and> check_tools P (Suc expected) (i # ids) rest
      | _ \<Rightarrow> False)"

definition json_opt_string :: "string option \<Rightarrow> json" where
  "json_opt_string x = (case x of None \<Rightarrow> JNull | Some s \<Rightarrow> JString s)"

definition assistant_value :: "string option \<Rightarrow> string option \<Rightarrow> json list \<Rightarrow> json" where
  "assistant_value c r calls =
     json_object [(''content'', json_opt_string c), (''reasoning_content'', json_opt_string r),
                  (''tool_calls'', JArray calls)]"

definition finish :: "'m protocol \<Rightarrow> tool_turn \<Rightarrow> 'm option" where
  "finish P s =
     (if tt_failed s \<or> \<not> tt_finished s \<or> tt_tools s = [] then None
      else if check_tools P 0 [] (tt_tools s)
      then assistant_of P (assistant_value (tt_content s) (tt_reasoning s) (map snd (tt_tools s)))
      else None)"

text \<open>A whole turn: the chunks of a stream observed in order, from a fresh accumulator.\<close>

definition observe_all :: "'m protocol \<Rightarrow> chunk list \<Rightarrow> tool_turn option \<Rightarrow> tool_turn option" where
  "observe_all P rs st = fold (\<lambda>r st. Option.bind st (observe P r)) rs st"

definition run_turn :: "'m protocol \<Rightarrow> chunk list \<Rightarrow> tool_turn option" where
  "run_turn P rs = observe_all P rs (Some turn_default)"

section \<open>Entries\<close>

text \<open>
  What every entry of \<open>tools\<close> satisfies: it is an object with a function object that holds
  an argument string.  The invariant is what keeps \<open>observe\<close> from panicking.
\<close>

definition entry_args :: "json \<Rightarrow> string option" where
  "entry_args e = json_as_str (json_index ''arguments'' (json_index ''function'' e))"

definition entry_ok :: "json \<Rightarrow> bool" where
  "entry_ok e = (json_is_object e \<and> json_is_object (json_index ''function'' e) \<and> entry_args e \<noteq> None)"

text \<open>The argument text one chunk contributes.\<close>

definition args_fragment :: "json \<Rightarrow> string" where
  "args_fragment v =
     (case json_present ''function'' v of
        None \<Rightarrow> []
      | Some fn \<Rightarrow> unwrap_or [] (Option.bind (json_get ''arguments'' fn) json_as_str))"

lemma new_entry_ok: "entry_ok new_entry" "entry_args new_entry = Some []"
  by (simp_all add: entry_ok_def entry_args_def new_entry_def json_object_def om_of_list_def
      json_index_def om_get_Cons)

lemma json_index_set_get:
  "json_index_set k x v = Some w \<Longrightarrow> json_index k' w = (if k' = k then x else json_index k' v)"
  by (simp add: json_index_def json_get_set)

lemma json_path_set_object:
  assumes "json_is_object v" "json_is_object (json_index k1 v)"
  obtains w where "json_path_set k1 k2 x v = Some w"
  using assms unfolding json_path_set_def
  by (metis json_index_set_object option.case(2))

lemma json_path_set_index:
  assumes "json_path_set k1 k2 x v = Some w"
  shows "json_is_object w" and "json_is_object (json_index k1 w)"
    and "json_index k2' (json_index k1 w) = (if k2' = k2 then x else json_index k2' (json_index k1 v))"
    and "k1' \<noteq> k1 \<Longrightarrow> json_index k1' w = json_index k1' v"
  using assms
  by (auto simp: json_path_set_def json_index_set_get split: option.splits
      dest: json_index_set_is_object)

lemma absorb_key_keeps:
  assumes "absorb_key key inc e = Some (e', ok)" "entry_ok e" "key \<noteq> ''function''"
  shows "entry_ok e' \<and> entry_args e' = entry_args e"
  using assms
  by (auto simp: absorb_key_def entry_ok_def entry_args_def json_index_set_get
      split: option.splits if_splits dest: json_index_set_is_object)

lemma absorb_key_total: "entry_ok e \<Longrightarrow> absorb_key key inc e \<noteq> None"
  using json_index_set_object by (force simp: absorb_key_def entry_ok_def split: option.splits)

lemma absorb_name_keeps:
  assumes "absorb_name fn e = Some (e', ok)" "entry_ok e"
  shows "entry_ok e' \<and> entry_args e' = entry_args e"
  using assms
  by (auto simp: absorb_name_def entry_ok_def entry_args_def json_path_set_index
      split: option.splits if_splits)

lemma absorb_name_total: "entry_ok e \<Longrightarrow> absorb_name fn e \<noteq> None"
  by (auto simp: absorb_name_def entry_ok_def split: option.splits
      elim: json_path_set_object [of e "''function''" "''name''"])

lemma absorb_args_appends:
  assumes "absorb_args fn e = Some (e', ok)" "entry_ok e"
  shows "ok \<and> entry_ok e' \<and>
     entry_args e' = Some (the (entry_args e) @
       unwrap_or [] (Option.bind (json_get ''arguments'' fn) json_as_str))"
  using assms
  by (auto simp: absorb_args_def entry_ok_def entry_args_def json_path_set_index
      split: option.splits)

lemma absorb_args_total: "entry_ok e \<Longrightarrow> absorb_args fn e \<noteq> None"
  by (auto simp: absorb_args_def entry_ok_def entry_args_def split: option.splits
      elim: json_path_set_object [of e "''function''" "''arguments''"])

text \<open>
  The merge of one chunk, step by step: an entry with argument text \<open>a\<close> never makes a step
  panic, and every step leaves an entry.
\<close>

definition tracks :: "string \<Rightarrow> json \<Rightarrow> bool" where
  "tracks a e = (entry_ok e \<and> entry_args e = Some a)"

lemma and_then_rule:
  assumes "\<exists>e ok. r = Some (e, ok) \<and> Q e"
    and "\<And>e. Q e \<Longrightarrow> \<exists>e' ok. f e = Some (e', ok) \<and> R e' \<and> (ok \<longrightarrow> R' e')"
    and "\<And>e. Q e \<Longrightarrow> R e"
  shows "\<exists>e' ok. and_then r f = Some (e', ok) \<and> R e' \<and> (ok \<longrightarrow> R' e')"
  using assms by (auto simp: and_then_def)

lemma absorb_key_tracks:
  "tracks a e \<Longrightarrow> key \<noteq> ''function'' \<Longrightarrow> \<exists>e' ok. absorb_key key inc e = Some (e', ok) \<and> tracks a e'"
  using absorb_key_total [of e key inc] absorb_key_keeps [of key inc e]
  by (auto simp: tracks_def)

lemma absorb_name_tracks:
  "tracks a e \<Longrightarrow> \<exists>e' ok. absorb_name fn e = Some (e', ok) \<and> tracks a e'"
  using absorb_name_total [of e fn] absorb_name_keeps [of fn e]
  by (auto simp: tracks_def)

lemma absorb_args_tracks:
  "tracks a e \<Longrightarrow> \<exists>e' ok. absorb_args fn e = Some (e', ok) \<and> entry_ok e' \<and>
     (ok \<longrightarrow> tracks (a @ unwrap_or [] (Option.bind (json_get ''arguments'' fn) json_as_str)) e')"
  using absorb_args_total [of e fn] absorb_args_appends [of fn e]
  by (auto simp: tracks_def)

lemma absorb_chunk_tracks:
  assumes "tracks a e"
  shows "\<exists>e' ok. absorb_chunk inc e = Some (e', ok) \<and> entry_ok e' \<and>
     (ok \<longrightarrow> tracks (a @ args_fragment inc) e')"
  unfolding absorb_chunk_def
proof (rule and_then_rule [where Q = "tracks a"])
  show "\<exists>e' ok. absorb_key ''id'' inc e = Some (e', ok) \<and> tracks a e'"
    using assms by (rule absorb_key_tracks) simp
next
  fix e1 assume e1: "tracks a e1"
  show "\<exists>e' ok. and_then (absorb_key ''type'' inc e1)
      (\<lambda>e2. case json_present ''function'' inc of None \<Rightarrow> Some (e2, True)
        | Some fn \<Rightarrow> and_then (absorb_name fn e2) (absorb_args fn)) = Some (e', ok) \<and>
      entry_ok e' \<and> (ok \<longrightarrow> tracks (a @ args_fragment inc) e')"
  proof (rule and_then_rule [where Q = "tracks a"])
    show "\<exists>e' ok. absorb_key ''type'' inc e1 = Some (e', ok) \<and> tracks a e'"
      using e1 by (rule absorb_key_tracks) simp
  next
    fix e2 assume e2: "tracks a e2"
    show "\<exists>e' ok. (case json_present ''function'' inc of None \<Rightarrow> Some (e2, True)
        | Some fn \<Rightarrow> and_then (absorb_name fn e2) (absorb_args fn)) = Some (e', ok) \<and>
        entry_ok e' \<and> (ok \<longrightarrow> tracks (a @ args_fragment inc) e')"
    proof (cases "json_present ''function'' inc")
      case None
      with e2 show ?thesis by (auto simp: args_fragment_def tracks_def)
    next
      case (Some fn)
      have "\<exists>e' ok. and_then (absorb_name fn e2) (absorb_args fn) = Some (e', ok) \<and>
          entry_ok e' \<and> (ok \<longrightarrow> tracks (a @ args_fragment inc) e')"
        using e2 Some absorb_args_tracks [of a _ fn]
        by (intro and_then_rule [where Q = "tracks a"] absorb_name_tracks)
          (simp_all add: args_fragment_def tracks_def)
      with Some show ?thesis by simp
    qed
  qed (simp add: tracks_def)
qed (simp add: tracks_def)

section \<open>The invariant of the accumulator\<close>

definition tools_ok :: "(u32, json) omap \<Rightarrow> bool" where
  "tools_ok tools = (om_ordered tools \<and> (\<forall>i e. om_get tools i = Some e \<longrightarrow> entry_ok e))"

definition chunk_args :: "tool_call_chunk list \<Rightarrow> u32 \<Rightarrow> string" where
  "chunk_args cs i = concat (map (\<lambda>c. if tc_index c = i then args_fragment (tc_value c) else []) cs)"

definition args_at :: "(u32, json) omap \<Rightarrow> u32 \<Rightarrow> string option" where
  "args_at tools i = Option.bind (om_get tools i) entry_args"

lemma tools_ok_Nil [simp]: "tools_ok []"
  by (simp add: tools_ok_def)

lemma tools_ok_insert: "tools_ok tools \<Longrightarrow> entry_ok e \<Longrightarrow> tools_ok (om_insert i e tools)"
  by (simp add: tools_ok_def)

lemma tools_ok_entry:
  assumes "tools_ok tools"
  shows "tracks (unwrap_or [] (args_at tools i)) (unwrap_or new_entry (om_get tools i))"
proof (cases "om_get tools i")
  case None
  then show ?thesis by (simp add: tracks_def args_at_def new_entry_ok)
next
  case (Some e)
  with assms have "entry_ok e" by (simp add: tools_ok_def)
  with Some show ?thesis by (auto simp: tracks_def args_at_def entry_ok_def)
qed

lemma absorb_chunks_total:
  "tools_ok tools \<Longrightarrow> \<exists>tools' ok. absorb_chunks cs tools = Some (tools', ok) \<and> tools_ok tools'"
proof (induction cs arbitrary: tools)
  case Nil
  then show ?case by auto
next
  case (Cons c cs)
  obtain e' ok where step: "absorb_chunk (tc_value c) (unwrap_or new_entry (om_get tools (tc_index c))) = Some (e', ok)"
    and e': "entry_ok e'"
    using absorb_chunk_tracks [OF tools_ok_entry [OF Cons.prems]] by blast
  with Cons.IH [of "om_insert (tc_index c) e' tools"] Cons.prems show ?case
    by (auto simp: Let_def tools_ok_insert)
qed

lemma absorb_chunks_args:
  assumes "tools_ok tools" and "absorb_chunks cs tools = Some (tools', True)"
  shows "(om_get tools' i \<noteq> None \<longleftrightarrow> om_get tools i \<noteq> None \<or> (\<exists>c \<in> set cs. tc_index c = i)) \<and>
    (om_get tools' i \<noteq> None \<longrightarrow>
       args_at tools' i = Some (unwrap_or [] (args_at tools i) @ chunk_args cs i))"
  using assms
proof (induction cs arbitrary: tools)
  case Nil
  then show ?case
    using tools_ok_entry [of tools' i] by (auto simp: chunk_args_def tracks_def args_at_def)
next
  case (Cons c cs)
  let ?e = "unwrap_or new_entry (om_get tools (tc_index c))"
  obtain e' ok where step: "absorb_chunk (tc_value c) ?e = Some (e', ok)" and e': "entry_ok e'"
    and tr: "ok \<longrightarrow> tracks (unwrap_or [] (args_at tools (tc_index c)) @ args_fragment (tc_value c)) e'"
    using absorb_chunk_tracks [OF tools_ok_entry [OF Cons.prems(1)]] by blast
  let ?t = "om_insert (tc_index c) e' tools"
  from Cons.prems(2) step have ok: "ok" and rest: "absorb_chunks cs ?t = Some (tools', True)"
    by (auto simp: Let_def split: if_splits)
  have "tools_ok ?t" using Cons.prems(1) e' by (rule tools_ok_insert)
  from Cons.IH [OF this rest] tr ok show ?case
    by (cases "tc_index c = i") (auto simp: args_at_def chunk_args_def tracks_def)
qed

definition turn_inv :: "tool_turn \<Rightarrow> bool" where
  "turn_inv s = tools_ok (tt_tools s)"

text \<open>The chunks of the tool calls in the first choice of a response.\<close>

definition response_chunks :: "chunk \<Rightarrow> tool_call_chunk list" where
  "response_chunks r =
     (case k_choices r of [] \<Rightarrow> [] | ch # _ \<Rightarrow> unwrap_or [] (d_tool_calls (ch_delta ch)))"

text \<open>
  The outcome of one observation, as the three cases a proof needs: a response without choices
  changes nothing; one that is taken in extends the channels; every other one fails the turn.
\<close>

definition takes_in :: "'m protocol \<Rightarrow> chunk \<Rightarrow> tool_turn \<Rightarrow> tool_turn \<Rightarrow> bool" where
  "takes_in P r s s' =
     (\<exists>ch c q tools.
        \<not> tt_failed s \<and> \<not> tt_finished s \<and> k_choices r = [ch] \<and> ch_index ch = 0 \<and>
        \<not> rejected_delta (delta_value P (ch_delta ch)) \<and>
        absorb_text ''content'' (delta_value P (ch_delta ch)) (tt_content s) = Some c \<and>
        absorb_text ''reasoning_content'' (delta_value P (ch_delta ch)) (tt_reasoning s) = Some q \<and>
        absorb_chunks (response_chunks r) (tt_tools s) = Some (tools, True) \<and>
        s' = close_turn P (ch_finish ch) (s\<lparr>tt_content := c, tt_reasoning := q, tt_tools := tools\<rparr>))"

lemma close_turn_fields [simp]:
  "tt_content (close_turn P q s) = tt_content s"
  "tt_reasoning (close_turn P q s) = tt_reasoning s"
  "tt_tools (close_turn P q s) = tt_tools s"
  "tt_finished (close_turn P q s) = (tt_finished s \<or> q \<noteq> None)"
  "tt_failed (close_turn P q s) =
     (tt_failed s \<or> (\<exists>r. q = Some r \<and> reason_value P r \<noteq> JString ''tool_calls''))"
  by (auto simp: close_turn_def reject_def Let_def split: option.splits)

lemma observe_cases:
  assumes "turn_inv s"
  obtains s' where "observe P r s = Some s'" "turn_inv s'"
    "k_choices r = [] \<and> s' = s \<or> takes_in P r s s' \<or> k_choices r \<noteq> [] \<and> tt_failed s'"
proof (cases "k_choices r = [] \<or> tt_failed s \<or> tt_finished s \<or> length (k_choices r) \<noteq> 1
    \<or> ch_index (hd (k_choices r)) \<noteq> 0 \<or> rejected_delta (delta_value P (ch_delta (hd (k_choices r))))")
  case True
  with assms show ?thesis
    by (intro that [of "if k_choices r = [] then s else reject s"])
      (auto simp: observe_def turn_inv_def reject_def Let_def)
next
  case False
  then obtain ch where ch: "k_choices r = [ch]" "ch_index ch = 0"
    by (cases "k_choices r") auto
  obtain tools ok where ab: "absorb_chunks (response_chunks r) (tt_tools s) = Some (tools, ok)"
      "tools_ok tools"
    using absorb_chunks_total assms by (force simp: turn_inv_def)
  show ?thesis
  proof (cases "absorb_text ''content'' (delta_value P (ch_delta ch)) (tt_content s) = None
      \<or> absorb_text ''reasoning_content'' (delta_value P (ch_delta ch)) (tt_reasoning s) = None")
    case True
    with False ch assms show ?thesis
      by (intro that [of "the (observe P r s)"])
        (auto simp: observe_def turn_inv_def Let_def split: option.splits)
  next
    case no: False
    with False ch ab show ?thesis
      by (intro that [of "the (observe P r s)"])
        (auto simp: observe_def takes_in_def turn_inv_def Let_def response_chunks_def
          split: option.splits)
  qed
qed

lemma observe_all_simps [simp]:
  "observe_all P [] st = st"
  "observe_all P (r # rs) st = observe_all P rs (Option.bind st (observe P r))"
  "observe_all P (rs @ rs') st = observe_all P rs' (observe_all P rs st)"
  by (simp_all add: observe_all_def)

lemma run_turn_snoc: "run_turn P (rs @ [r]) = Option.bind (run_turn P rs) (observe P r)"
  by (simp add: run_turn_def)

lemma turn_inv_default [simp]: "turn_inv turn_default"
  by (simp add: turn_inv_def turn_default_def)

lemma run_turn_total: "\<exists>s. run_turn P rs = Some s \<and> turn_inv s"
proof (induction rs rule: rev_induct)
  case Nil
  then show ?case by (simp add: run_turn_def)
next
  case (snoc r rs)
  then obtain s where s: "run_turn P rs = Some s" "turn_inv s" by blast
  from observe_cases [OF s(2), of P r] s(1) show ?case
    by (metis bind.bind_lunit run_turn_snoc)
qed

text \<open>A failed turn stays failed: the accumulator is a monitor with an absorbing verdict.\<close>

definition turn_doomed :: "tool_turn option \<Rightarrow> bool" where
  "turn_doomed st = (case st of None \<Rightarrow> True | Some s \<Rightarrow> tt_failed s)"

lemma observe_failed: "tt_failed s \<Longrightarrow> observe P r s = Some s' \<Longrightarrow> tt_failed s'"
  by (auto simp: observe_def reject_def split: if_splits)

interpretation turn: absorbing_monitor "\<lambda>r st. Option.bind st (observe P r)" turn_doomed
  for P :: "'m protocol"
  by unfold_locales
    (auto simp: turn_doomed_def split: option.splits bind_splits dest: observe_failed)

lemma turn_doomed_extend:
  "turn_doomed (run_turn P rs) \<Longrightarrow> turn_doomed (run_turn P (rs @ rs'))"
  unfolding run_turn_def observe_all_def by (rule turn.doomed_anywhere)

section \<open>What an accepted turn says about its stream\<close>

definition joined :: "string list \<Rightarrow> string option" where
  "joined ts = then_some (ts \<noteq> []) (concat ts)"

text \<open>The strings the responses carry in one text channel, in stream order.\<close>

definition channel :: "'m protocol \<Rightarrow> string \<Rightarrow> chunk list \<Rightarrow> string list" where
  "channel P key rs =
     concat (map (\<lambda>r. concat (map (\<lambda>ch.
       case Option.bind (json_present key (delta_value P (ch_delta ch))) json_as_str of
         Some t \<Rightarrow> [t] | None \<Rightarrow> []) (k_choices r))) rs)"

definition turn_chunks :: "chunk list \<Rightarrow> tool_call_chunk list" where
  "turn_chunks rs = concat (map response_chunks rs)"

lemma joined_snoc: "joined (ts @ [t]) = Some (unwrap_or [] (joined ts) @ t)"
  by (cases ts) (simp_all add: joined_def)

lemma joined_Nil [simp]: "joined [] = None"
  by (simp add: joined_def)

lemma absorb_text_joined:
  assumes "absorb_text key (delta_value P (ch_delta ch)) (joined (channel P key rs)) = Some c"
    and "k_choices r = [ch]"
  shows "c = joined (channel P key (rs @ [r]))"
  using assms
  by (auto simp: absorb_text_def channel_def joined_snoc split: option.splits)

lemma chunk_args_append: "chunk_args (xs @ ys) i = chunk_args xs i @ chunk_args ys i"
  by (simp add: chunk_args_def)

text \<open>
  The relation between the responses observed so far and the accumulator, for as long as the
  turn has not failed.
\<close>

definition turn_rel :: "'m protocol \<Rightarrow> chunk list \<Rightarrow> tool_turn \<Rightarrow> bool" where
  "turn_rel P rs s =
     (tt_content s = joined (channel P ''content'' rs) \<and>
      tt_reasoning s = joined (channel P ''reasoning_content'' rs) \<and>
      (\<forall>i. (om_get (tt_tools s) i \<noteq> None \<longleftrightarrow> (\<exists>c \<in> set (turn_chunks rs). tc_index c = i)) \<and>
           (om_get (tt_tools s) i \<noteq> None \<longrightarrow> args_at (tt_tools s) i = Some (chunk_args (turn_chunks rs) i))))"

text \<open>
  The shape of a stream that has not failed: every response that has choices has one, with
  index 0, and only the last of them may be terminal, with the reason \<open>tool_calls\<close>.
\<close>

definition open_response :: "chunk \<Rightarrow> bool" where
  "open_response r = (\<exists>ch. k_choices r = [ch] \<and> ch_index ch = 0 \<and> ch_finish ch = None)"

definition closing_response :: "'m protocol \<Rightarrow> chunk \<Rightarrow> bool" where
  "closing_response P r =
     (\<exists>ch q. k_choices r = [ch] \<and> ch_index ch = 0 \<and> ch_finish ch = Some q \<and>
        reason_value P q = JString ''tool_calls'')"

definition turn_shape :: "'m protocol \<Rightarrow> chunk list \<Rightarrow> bool \<Rightarrow> bool" where
  "turn_shape P rs finished =
     (let spoken = filter (\<lambda>r. k_choices r \<noteq> []) rs in
      if finished then spoken \<noteq> [] \<and> list_all open_response (butlast spoken) \<and> closing_response P (last spoken)
      else list_all open_response spoken)"

lemma turn_rel_empty: "k_choices r = [] \<Longrightarrow> turn_rel P (rs @ [r]) s = turn_rel P rs s"
  by (simp add: turn_rel_def channel_def turn_chunks_def response_chunks_def)

lemma turn_shape_empty: "k_choices r = [] \<Longrightarrow> turn_shape P (rs @ [r]) b = turn_shape P rs b"
  by (simp add: turn_shape_def)

lemma chunk_args_absent: "\<not> (\<exists>c \<in> set cs. tc_index c = i) \<Longrightarrow> chunk_args cs i = []"
  by (auto simp: chunk_args_def)

lemma turn_rel_args:
  assumes "turn_rel P rs s"
  shows "unwrap_or [] (args_at (tt_tools s) i) = chunk_args (turn_chunks rs) i"
proof (cases "om_get (tt_tools s) i")
  case None
  with assms have "\<not> (\<exists>c \<in> set (turn_chunks rs). tc_index c = i)"
    unfolding turn_rel_def by (metis option.distinct(1))
  with None show ?thesis by (simp add: args_at_def chunk_args_absent)
next
  case (Some e)
  with assms show ?thesis unfolding turn_rel_def by (metis option.distinct(1) opt_simps(9))
qed

lemma takes_in_rel:
  assumes "takes_in P r s s'" "turn_inv s" "turn_rel P rs s"
  shows "turn_rel P (rs @ [r]) s'"
proof -
  obtain ch c q tools where ch: "k_choices r = [ch]"
    and c: "absorb_text ''content'' (delta_value P (ch_delta ch)) (tt_content s) = Some c"
    and q: "absorb_text ''reasoning_content'' (delta_value P (ch_delta ch)) (tt_reasoning s) = Some q"
    and tools: "absorb_chunks (response_chunks r) (tt_tools s) = Some (tools, True)"
    and s': "s' = close_turn P (ch_finish ch) (s\<lparr>tt_content := c, tt_reasoning := q, tt_tools := tools\<rparr>)"
    using assms(1) unfolding takes_in_def by blast
  have "c = joined (channel P ''content'' (rs @ [r]))" "q = joined (channel P ''reasoning_content'' (rs @ [r]))"
    using absorb_text_joined [OF _ ch] c q assms(3) by (simp_all add: turn_rel_def)
  moreover have "om_get tools i \<noteq> None \<longleftrightarrow> (\<exists>c \<in> set (turn_chunks (rs @ [r])). tc_index c = i)" for i
    using absorb_chunks_args [OF _ tools, of i] assms(2,3)
    by (auto simp: turn_inv_def turn_rel_def turn_chunks_def)
  moreover have "om_get tools i \<noteq> None \<longrightarrow> args_at tools i = Some (chunk_args (turn_chunks (rs @ [r])) i)" for i
    using absorb_chunks_args [OF _ tools, of i] assms(2) turn_rel_args [OF assms(3), of i]
    by (simp add: turn_inv_def turn_chunks_def chunk_args_append)
  ultimately show ?thesis by (simp add: turn_rel_def s')
qed

lemma takes_in_shape:
  assumes "takes_in P r s s'" "turn_shape P rs (tt_finished s)" "\<not> tt_failed s'"
  shows "turn_shape P (rs @ [r]) (tt_finished s')"
proof -
  obtain ch where ch: "k_choices r = [ch]" "ch_index ch = 0" and "\<not> tt_finished s"
    and "tt_finished s' = (ch_finish ch \<noteq> None)"
    and "\<forall>q. ch_finish ch = Some q \<longrightarrow> reason_value P q = JString ''tool_calls''"
    using assms(1,3) unfolding takes_in_def by fastforce
  with assms(2) show ?thesis
    by (auto simp: turn_shape_def open_response_def closing_response_def)
qed

lemma run_turn_rel:
  "run_turn P rs = Some s \<Longrightarrow> \<not> tt_failed s \<Longrightarrow> turn_rel P rs s \<and> turn_shape P rs (tt_finished s)"
proof (induction rs arbitrary: s rule: rev_induct)
  case Nil
  then show ?case
    by (auto simp: run_turn_def turn_default_def turn_rel_def turn_shape_def channel_def turn_chunks_def)
next
  case (snoc r rs)
  obtain s0 where s0: "run_turn P rs = Some s0" "turn_inv s0"
    using run_turn_total by blast
  with snoc.prems(1) have step: "observe P r s0 = Some s"
    by (simp add: run_turn_snoc)
  with snoc.prems(2) have "\<not> tt_failed s0"
    by (auto dest: observe_failed)
  with snoc.IH [OF s0(1)] have IH: "turn_rel P rs s0" "turn_shape P rs (tt_finished s0)"
    by simp_all
  have "k_choices r = [] \<and> s = s0 \<or> takes_in P r s0 s"
    using observe_cases [OF s0(2), of P r] step snoc.prems(2) by (metis option.inject)
  then show ?case
    using IH s0(2) snoc.prems(2)
    by (auto simp: turn_rel_empty turn_shape_empty intro: takes_in_rel takes_in_shape)
qed

section \<open>Acceptance\<close>

text \<open>What \<open>finish\<close> has checked of the calls it hands over.\<close>

definition call_ok :: "'m protocol \<Rightarrow> json \<Rightarrow> bool" where
  "call_ok P tool =
     (\<exists>i name args v.
        json_index ''id'' tool = JString i \<and> i \<noteq> [] \<and>
        json_index ''name'' (json_index ''function'' tool) = JString name \<and> name \<noteq> [] \<and>
        entry_args tool = Some args \<and> parse_json P args = Some v \<and> json_is_object v \<and>
        json_index ''type'' tool = JString ''function'')"

lemma check_tools_sound:
  "check_tools P n ids tools \<Longrightarrow>
     map (\<lambda>e. unat (fst e)) tools = [n..<n + length tools] \<and>
     list_all (\<lambda>e. call_ok P (snd e)) tools \<and>
     distinct (map (\<lambda>e. json_index ''id'' (snd e)) tools) \<and>
     (\<forall>i \<in> set ids. JString i \<notin> (\<lambda>e. json_index ''id'' (snd e)) ` set tools)"
proof (induction tools arbitrary: n ids)
  case Nil
  then show ?case by simp
next
  case (Cons e rest)
  obtain index tool where e: "e = (index, tool)" by (cases e)
  from Cons.prems obtain i name args v where
    i: "json_index ''id'' tool = JString i" "i \<noteq> []" "i \<notin> set ids" and
    name: "json_index ''name'' (json_index ''function'' tool) = JString name" "name \<noteq> []" and
    args: "entry_args tool = Some args" "parse_json P args = Some v" "json_is_object v" and
    rest: "unat index = n" "json_index ''type'' tool = JString ''function''"
      "check_tools P (Suc n) (i # ids) rest"
    by (auto simp: e is_some_and_iff json_as_str_Some_iff entry_args_def split: option.splits)
  have ok: "call_ok P tool"
    unfolding call_ok_def using i(1,2) name args rest(2) by blast
  note IH = Cons.IH [OF rest(3)]
  have "map (\<lambda>e. unat (fst e)) (e # rest) = [n..<n + length (e # rest)]"
    using conjunct1 [OF IH] rest(1) by (simp add: e upt_conv_Cons del: upt_Suc)
  moreover have "list_all (\<lambda>e. call_ok P (snd e)) (e # rest)"
    using IH ok by (simp add: e)
  moreover have "distinct (map (\<lambda>e. json_index ''id'' (snd e)) (e # rest))"
    using IH i(1) by (auto simp: e)
  moreover have "\<forall>j \<in> set ids. JString j \<notin> (\<lambda>e. json_index ''id'' (snd e)) ` set (e # rest)"
    using IH i by (auto simp: e)
  ultimately show ?case by blast
qed

lemma finish_SomeE:
  assumes "finish P s = Some m"
  obtains "\<not> tt_failed s" "tt_finished s" "tt_tools s \<noteq> []" "check_tools P 0 [] (tt_tools s)"
    "assistant_of P (assistant_value (tt_content s) (tt_reasoning s) (map snd (tt_tools s))) = Some m"
  using assms by (auto simp: finish_def split: if_splits)

text \<open>The calls of an accepted turn, listed by index.\<close>

lemma accepted_call:
  assumes "turn_inv s" "check_tools P 0 [] (tt_tools s)" "k < length (tt_tools s)"
  shows "fst (tt_tools s ! k) = of_nat k"
    and "om_get (tt_tools s) (of_nat k) = Some (map snd (tt_tools s) ! k)"
    and "call_ok P (map snd (tt_tools s) ! k)"
proof -
  obtain j e where je: "tt_tools s ! k = (j, e)" by fastforce
  have idx: "map (\<lambda>e. unat (fst e)) (tt_tools s) = [0..<length (tt_tools s)]"
    and ok: "list_all (\<lambda>e. call_ok P (snd e)) (tt_tools s)"
    using check_tools_sound [OF assms(2)] by simp_all
  from idx have "map (\<lambda>e. unat (fst e)) (tt_tools s) ! k = k"
    using assms(3) by simp
  then have "unat j = k" using assms(3) je by simp
  then have j: "j = of_nat k" by (simp flip: \<open>unat j = k\<close>)
  then show "fst (tt_tools s ! k) = of_nat k" using je by simp
  have mem: "(j, e) \<in> set (tt_tools s)"
    using assms(3) je by (metis nth_mem)
  with assms(1) j assms(3) je show "om_get (tt_tools s) (of_nat k) = Some (map snd (tt_tools s) ! k)"
    by (simp add: turn_inv_def tools_ok_def om_mem_iff)
  show "call_ok P (map snd (tt_tools s) ! k)"
    using ok mem assms(3) je by (auto simp: list_all_iff)
qed

section \<open>A sample turn\<close>

text \<open>
  The stream of the source's own test \<open>fields_and_reasoning_survive_fragments\<close>: a call in
  two fragments with content and reasoning between them, closed by \<open>tool_calls\<close> and followed
  by a usage-only response.  The sample protocol serializes the fields the stream uses.
\<close>

definition opt_member :: "string \<Rightarrow> json option \<Rightarrow> (string \<times> json) list" where
  "opt_member k v = (case v of None \<Rightarrow> [] | Some x \<Rightarrow> [(k, x)])"

fun content_value :: "content \<Rightarrow> json" where
  "content_value (Text t) = JString t"
| "content_value (Parts ps) = JArray ps"

definition sample_delta_value :: "delta \<Rightarrow> json" where
  "sample_delta_value d =
     json_object
       (opt_member ''content'' (map_option content_value (d_content d)) @
        opt_member ''reasoning_content'' (map_option JString (d_reasoning d)) @
        opt_member ''function_call'' (d_function_call d) @
        opt_member ''refusal'' (map_option JString (d_refusal d)))"

fun sample_reason_value :: "finish_reason \<Rightarrow> json" where
  "sample_reason_value FR_Stop = JString ''stop''"
| "sample_reason_value FR_Length = JString ''length''"
| "sample_reason_value FR_ToolCalls = JString ''tool_calls''"
| "sample_reason_value FR_ContentFilter = JString ''content_filter''"
| "sample_reason_value FR_FunctionCall = JString ''function_call''"

definition sample_protocol :: "json protocol" where
  "sample_protocol =
     \<lparr>delta_value = sample_delta_value, reason_value = sample_reason_value,
      parse_json = (\<lambda>t. if t = ''{x}'' then Some (JObject []) else None), assistant_of = Some\<rparr>"

definition empty_delta :: delta where
  "empty_delta = \<lparr>d_role = None, d_content = None, d_reasoning = None, d_tool_calls = None,
     d_function_call = None, d_refusal = None\<rparr>"

definition one_choice :: "delta \<Rightarrow> finish_reason option \<Rightarrow> chunk" where
  "one_choice d q = \<lparr>k_choices = [\<lparr>ch_index = 0, ch_delta = d, ch_finish = q, ch_logprobs = None\<rparr>],
     k_usage = None, k_nvext = None, k_metrics = None\<rparr>"

definition sample_call :: "(string \<times> json) list \<Rightarrow> string \<Rightarrow> tool_call_chunk" where
  "sample_call extra args = \<lparr>tc_index = 0, tc_value =
     json_object (extra @ [(''function'', json_object [(''name'', JString ''read''), (''arguments'', JString args)])])\<rparr>"

definition sample_stream :: "chunk list" where
  "sample_stream =
     [one_choice (empty_delta\<lparr>d_tool_calls := Some [sample_call [(''id'', JString ''c1'')] ''{'']\<rparr>) None,
      one_choice (empty_delta\<lparr>d_content := Some (Text ''hello''), d_reasoning := Some ''think''\<rparr>) None,
      one_choice (empty_delta\<lparr>d_tool_calls := Some [sample_call [] ''x}'']\<rparr>) (Some FR_ToolCalls),
      \<lparr>k_choices = [], k_usage = None, k_nvext = None, k_metrics = None\<rparr>]"

definition sample_late :: "chunk list" where
  "sample_late = [one_choice (empty_delta\<lparr>d_content := Some (Text ''late'')\<rparr>) None]"

lemmas sample_defs = sample_protocol_def sample_stream_def sample_call_def one_choice_def empty_delta_def

lemma sample_accepted: "finish sample_protocol (the (run_turn sample_protocol sample_stream)) \<noteq> None"
  by code_simp

lemma sample_finished: "tt_finished (the (run_turn sample_protocol sample_stream))"
  by code_simp

lemma sample_run: "run_turn P rs = Some (the (run_turn P rs))"
  using run_turn_total [of P rs] by auto

section \<open>Properties\<close>

text \<open>
  C29. observing a response stream never panics.  Whatever chunks arrive, in whatever order and
  with whatever values, every \<open>unwrap\<close> and every assignment into an entry succeeds, and the
  entries stay in ascending index order.
\<close>

theorem observe_never_panics: "\<exists>s. run_turn P rs = Some s \<and> om_ordered (tt_tools s)"
  using run_turn_total [of P rs] by (auto simp: turn_inv_def tools_ok_def)

text \<open>
  C2. argument text is handed over verbatim.  If a turn is accepted, the message is built from
  one call per index \<open>0, 1, \<dots>\<close>, and the arguments of call \<open>k\<close> are exactly the
  concatenation, in stream order, of the argument fragments of the chunks with index \<open>k\<close>;
  content and reasoning are the concatenation of their fragments.
\<close>

theorem accepted_turn_is_verbatim:
  assumes "run_turn P rs = Some s" and "finish P s = Some m"
  shows "\<exists>calls. calls \<noteq> [] \<and>
     assistant_of P (assistant_value (joined (channel P ''content'' rs))
       (joined (channel P ''reasoning_content'' rs)) calls) = Some m \<and>
     (\<forall>k < length calls.
        entry_args (calls ! k) = Some (chunk_args (turn_chunks rs) (of_nat k)) \<and>
        call_ok P (calls ! k)) \<and>
     (\<forall>c \<in> set (turn_chunks rs). unat (tc_index c) < length calls)"
proof -
  from assms(2) have acc: "\<not> tt_failed s" "tt_tools s \<noteq> []" "check_tools P 0 [] (tt_tools s)"
    "assistant_of P (assistant_value (tt_content s) (tt_reasoning s) (map snd (tt_tools s))) = Some m"
    by (auto elim: finish_SomeE)
  have inv: "turn_inv s" using run_turn_total [of P rs] assms(1) by auto
  have rel: "turn_rel P rs s" using run_turn_rel [OF assms(1) acc(1)] by simp
  let ?calls = "map snd (tt_tools s)"
  have "entry_args (?calls ! k) = Some (chunk_args (turn_chunks rs) (of_nat k)) \<and> call_ok P (?calls ! k)"
    if "k < length ?calls" for k
    using accepted_call [OF inv acc(3), of k] that rel
    by (simp add: turn_rel_def args_at_def) (metis bind.bind_lunit)
  moreover have "unat (tc_index c) < length ?calls" if "c \<in> set (turn_chunks rs)" for c
  proof -
    from that rel have "om_get (tt_tools s) (tc_index c) \<noteq> None"
      unfolding turn_rel_def by blast
    then have "tc_index c \<in> set (om_keys (tt_tools s))" by (simp add: om_keys_present)
    then have "unat (tc_index c) \<in> set (map (\<lambda>e. unat (fst e)) (tt_tools s))"
      by (force simp: om_keys_def)
    then show ?thesis using check_tools_sound [OF acc(3)] by simp
  qed
  moreover have "assistant_of P (assistant_value (joined (channel P ''content'' rs))
      (joined (channel P ''reasoning_content'' rs)) ?calls) = Some m"
    using acc(4) rel by (simp add: turn_rel_def)
  ultimately show ?thesis using acc(2) by (intro exI [of _ ?calls]) simp
qed

theorem accepted_turn_is_verbatim_witness:
  "\<exists>s m calls. run_turn sample_protocol sample_stream = Some s \<and> finish sample_protocol s = Some m \<and>
     calls \<noteq> [] \<and>
     assistant_of sample_protocol (assistant_value (joined (channel sample_protocol ''content'' sample_stream))
       (joined (channel sample_protocol ''reasoning_content'' sample_stream)) calls) = Some m \<and>
     (\<forall>k < length calls.
        entry_args (calls ! k) = Some (chunk_args (turn_chunks sample_stream) (of_nat k)) \<and>
        call_ok sample_protocol (calls ! k))"
proof -
  obtain m where m: "finish sample_protocol (the (run_turn sample_protocol sample_stream)) = Some m"
    using sample_accepted by blast
  show ?thesis using sample_run m accepted_turn_is_verbatim [OF sample_run m] by blast
qed

text \<open>
  C30. only a complete tool-calling turn is accepted.  An accepted stream consists, apart from
  responses without choices, of responses with a single choice of index 0, none of them
  terminal but the last, and the last one finishes with \<open>tool_calls\<close>; the ids of the calls
  are pairwise different.
\<close>

theorem accepted_turn_is_complete:
  assumes "run_turn P rs = Some s" and "finish P s = Some m"
  shows "\<exists>opening closing.
     filter (\<lambda>r. k_choices r \<noteq> []) rs = opening @ [closing] \<and>
     list_all open_response opening \<and> closing_response P closing \<and>
     distinct (map (json_index ''id'') (map snd (tt_tools s)))"
proof -
  from assms(2) have acc: "\<not> tt_failed s" "tt_finished s" "check_tools P 0 [] (tt_tools s)"
    by (auto elim: finish_SomeE)
  let ?spoken = "filter (\<lambda>r. k_choices r \<noteq> []) rs"
  have "?spoken \<noteq> []" "list_all open_response (butlast ?spoken)" "closing_response P (last ?spoken)"
    using run_turn_rel [OF assms(1) acc(1)] acc(2) by (simp_all add: turn_shape_def Let_def)
  moreover have "distinct (map (json_index ''id'') (map snd (tt_tools s)))"
    using check_tools_sound [OF acc(3)] by (simp add: comp_def)
  ultimately show ?thesis
    by (intro exI [of _ "butlast ?spoken"] exI [of _ "last ?spoken"]) simp
qed

theorem accepted_turn_is_complete_witness:
  "\<exists>s m opening closing. run_turn sample_protocol sample_stream = Some s \<and> finish sample_protocol s = Some m \<and>
     filter (\<lambda>r. k_choices r \<noteq> []) sample_stream = opening @ [closing] \<and>
     list_all open_response opening \<and> closing_response sample_protocol closing \<and>
     distinct (map (json_index ''id'') (map snd (tt_tools s)))"
proof -
  obtain m where m: "finish sample_protocol (the (run_turn sample_protocol sample_stream)) = Some m"
    using sample_accepted by blast
  show ?thesis using sample_run m accepted_turn_is_complete [OF sample_run m] by blast
qed

text \<open>
  a turn that has failed is never accepted later, whatever the stream still delivers; and a
  choice after the terminal one fails the turn.
\<close>

lemma failed_turn_never_accepted:
  assumes "run_turn P rs = Some s"
    and "tt_failed s \<or> tt_finished s \<and> (\<exists>r \<in> set late. k_choices r \<noteq> [])"
    and "run_turn P (rs @ late) = Some s'"
  shows "finish P s' = None"
proof (rule ccontr)
  assume "finish P s' \<noteq> None"
  then have acc: "\<not> tt_failed s'" "tt_finished s'"
    by (auto elim: finish_SomeE)
  then have nf: "\<not> tt_failed s"
    using turn_doomed_extend [of P rs late] assms(1,3) by (auto simp: turn_doomed_def)
  with assms(2) have fin: "tt_finished s" and late: "filter (\<lambda>r. k_choices r \<noteq> []) late \<noteq> []"
    by (auto simp: filter_empty_conv)
  have "turn_shape P rs True" "turn_shape P (rs @ late) True"
    using run_turn_rel [OF assms(1) nf] run_turn_rel [OF assms(3) acc(1)] fin acc(2) by simp_all
  then have "closing_response P (last (filter (\<lambda>r. k_choices r \<noteq> []) rs))"
    and "open_response (last (filter (\<lambda>r. k_choices r \<noteq> []) rs))"
    using late last_in_set [of "filter (\<lambda>r. k_choices r \<noteq> []) rs"]
    by (simp_all add: turn_shape_def Let_def butlast_append list_all_iff)
  then show False
    by (auto simp: open_response_def closing_response_def)
qed

lemma failed_turn_never_accepted_sample:
  "\<exists>s. run_turn sample_protocol (sample_stream @ sample_late) = Some s \<and> finish sample_protocol s = None"
proof -
  have "tt_failed (the (run_turn sample_protocol sample_stream)) \<or>
      tt_finished (the (run_turn sample_protocol sample_stream)) \<and> (\<exists>r \<in> set sample_late. k_choices r \<noteq> [])"
    using sample_finished by (simp add: sample_late_def one_choice_def)
  from failed_turn_never_accepted [OF sample_run this sample_run] show ?thesis
    using sample_run by blast
qed

end
