(* ===== verification/Text_Search.thy ===== *)
theory Text_Search
  imports Prelude
begin

text \<open>
  The substring operations of \<open>str\<close> the sources use: \<open>find\<close>, \<open>rfind\<close>,
  \<open>contains\<close>, \<open>matches(..).count()\<close>, \<open>split_once\<close>,
  \<open>strip_prefix\<close>, \<open>ends_with\<close>, \<open>replace\<close> of a character and
  \<open>eq_ignore_ascii_case\<close>.
\<close>

fun find_sub :: "string \<Rightarrow> string \<Rightarrow> nat option" where
  "find_sub pat [] = (if pat = [] then Some 0 else None)"
| "find_sub pat (c # s) =
     (if prefix pat (c # s) then Some 0 else map_option Suc (find_sub pat s))"

fun rfind_sub :: "string \<Rightarrow> string \<Rightarrow> nat option" where
  "rfind_sub pat [] = (if pat = [] then Some 0 else None)"
| "rfind_sub pat (c # s) =
     (case rfind_sub pat s of
        Some i \<Rightarrow> Some (Suc i)
      | None \<Rightarrow> if prefix pat (c # s) then Some 0 else None)"

definition contains_sub :: "string \<Rightarrow> string \<Rightarrow> bool" where
  "contains_sub pat s = (find_sub pat s \<noteq> None)"

definition split_once :: "string \<Rightarrow> string \<Rightarrow> (string \<times> string) option" where
  "split_once pat s = map_option (\<lambda>i. (take i s, drop (i + length pat) s)) (find_sub pat s)"

text \<open>The number of matches that do not overlap, from the left, of a pattern that is not empty.\<close>

function count_sub :: "string \<Rightarrow> string \<Rightarrow> nat" where
  "count_sub pat s =
     (if pat = [] then Suc (length s)
      else case find_sub pat s of
        None \<Rightarrow> 0
      | Some i \<Rightarrow> Suc (count_sub pat (drop (i + length pat) s)))"
  by pat_completeness auto

lemma find_sub_sound: "find_sub pat s = Some i \<Longrightarrow> i + length pat \<le> length s \<and> prefix pat (drop i s)"
proof (induction pat s arbitrary: i rule: find_sub.induct)
  case (1 pat)
  then show ?case by (simp split: if_splits)
next
  case (2 pat c s)
  then show ?case by (auto split: if_splits dest: prefix_length_le)
qed

termination count_sub
proof (relation "measure (\<lambda>(pat, s). length s)")
  fix pat s i
  assume "pat \<noteq> []" "find_sub pat s = Some i"
  moreover from this have "i + length pat \<le> length s"
    by (simp add: find_sub_sound)
  ultimately show "((pat, drop (i + length pat) s), (pat, s)) \<in> measure (\<lambda>(pat, s). length s)"
    by (cases pat) auto
qed simp

declare count_sub.simps [simp del]

definition strip_prefix :: "string \<Rightarrow> string \<Rightarrow> string option" where
  "strip_prefix pat s = (if prefix pat s then Some (drop (length pat) s) else None)"

definition ends_with :: "string \<Rightarrow> string \<Rightarrow> bool" where
  "ends_with s pat = suffix pat s"

definition remove_nul :: "string \<Rightarrow> string" where
  "remove_nul s = filter (\<lambda>c. c \<noteq> CHR 0x00) s"

definition ascii_lower :: "char \<Rightarrow> char" where
  "ascii_lower c = (let n = of_char c :: nat in if 65 \<le> n \<and> n \<le> 90 then char_of (n + 32) else c)"

definition eq_ignore_ascii_case :: "string \<Rightarrow> string \<Rightarrow> bool" where
  "eq_ignore_ascii_case a b = (map ascii_lower a = map ascii_lower b)"

lemma find_sub_first: "prefix pat (drop j s) \<Longrightarrow> j \<le> length s \<Longrightarrow> \<exists>i \<le> j. find_sub pat s = Some i"
proof (induction pat s arbitrary: j rule: find_sub.induct)
  case (1 pat)
  then show ?case by simp
next
  case (2 pat c s)
  show ?case
  proof (cases "prefix pat (c # s)")
    case True
    then show ?thesis by simp
  next
    case False
    with "2.prems" obtain j' where j: "j = Suc j'" "prefix pat (drop j' s)" "j' \<le> length s"
      by (cases j) auto
    from "2.IH" [OF False j(2,3)] j(1) False show ?thesis by auto
  qed
qed

lemma rfind_sub_sound:
  "rfind_sub pat s = Some i \<Longrightarrow> i + length pat \<le> length s \<and> prefix pat (drop i s)"
  by (induction pat s arbitrary: i rule: rfind_sub.induct)
    (auto split: if_splits option.splits dest: prefix_length_le)

lemma rfind_sub_last:
  "prefix pat (drop j s) \<Longrightarrow> j \<le> length s \<Longrightarrow> \<exists>i \<ge> j. rfind_sub pat s = Some i"
proof (induction pat s arbitrary: j rule: rfind_sub.induct)
  case (1 pat)
  then show ?case by simp
next
  case (2 pat c s)
  show ?case
  proof (cases j)
    case 0
    with "2.prems" show ?thesis by (auto split: option.splits)
  next
    case (Suc j')
    with "2.prems" have "prefix pat (drop j' s)" "j' \<le> length s" by simp_all
    from "2.IH" [OF this] Suc show ?thesis by auto
  qed
qed

lemma rfind_sub_append: "rfind_sub pat s = Some j \<Longrightarrow> rfind_sub pat (x @ s) = Some (length x + j)"
  by (induction x) simp_all

text \<open>
  When a pattern has one match in a text and the character before a known match is not one of
  the pattern, then the search finds that match.
\<close>

lemma find_sub_only:
  assumes "count_sub pat (c @ pat @ r) = 1" "pat \<noteq> []" "c \<noteq> []" "last c \<notin> set pat"
  shows "find_sub pat (c @ pat @ r) = Some (length c)"
proof -
  let ?t = "c @ pat @ r"
  obtain i where i: "i \<le> length c" "find_sub pat ?t = Some i"
    using find_sub_first [of pat "length c" ?t] by auto
  have "i + length pat \<le> length ?t" "prefix pat (drop i ?t)"
    using find_sub_sound [OF i(2)] by simp_all
  then obtain q where q: "drop i ?t = pat @ q" by (auto simp: prefix_def)
  have zero: "count_sub pat (drop (i + length pat) ?t) = 0"
    using assms(1,2) i(2) by (subst (asm) count_sub.simps) simp
  have "\<not> i + length pat \<le> length c"
  proof
    assume "i + length pat \<le> length c"
    then have "drop (i + length pat) ?t = drop (i + length pat) c @ pat @ r" by simp
    then obtain j where "find_sub pat (drop (i + length pat) ?t) = Some j"
      using find_sub_first [of pat "length (drop (i + length pat) c)"
          "drop (i + length pat) c @ pat @ r"] by auto
    with zero assms(2) show False by (subst (asm) count_sub.simps) simp
  qed
  moreover have "\<not> (i < length c \<and> length c < i + length pat)"
  proof
    assume *: "i < length c \<and> length c < i + length pat"
    then have k: "length c - 1 - i < length pat" by linarith
    then have "drop i ?t ! (length c - 1 - i) = pat ! (length c - 1 - i)"
      by (simp only: q nth_append if_True)
    moreover have "drop i ?t ! (length c - 1 - i) = last c"
    proof -
      have "drop i ?t = drop i c @ pat @ r" "length c - 1 - i < length (drop i c)"
        using * by (simp, simp, linarith)
      then have "drop i ?t ! (length c - 1 - i) = drop i c ! (length c - 1 - i)"
        by (simp only: nth_append if_True)
      with * assms(3) show ?thesis by (simp add: last_conv_nth)
    qed
    ultimately have "last c \<in> set pat" using nth_mem [OF k] by metis
    with assms(4) show False ..
  qed
  ultimately have "i = length c" using i(1) assms(2) by (cases pat) auto
  with i(2) show ?thesis by simp
qed

text \<open>Removing characters that a prefix does not contain keeps the prefix.\<close>

lemma remove_nul_prefix:
  assumes "prefix p s" "CHR 0x00 \<notin> set p"
  shows "prefix p (remove_nul s)"
proof -
  obtain r where "s = p @ r" using assms(1) by (auto elim: prefixE)
  moreover have "filter (\<lambda>c. c \<noteq> CHR 0x00) p = p"
    using assms(2) by (simp add: filter_id_conv) metis
  ultimately show ?thesis by (simp add: remove_nul_def)
qed

lemma remove_nul_id: "CHR 0x00 \<notin> set s \<Longrightarrow> remove_nul s = s"
  unfolding remove_nul_def by (rule filter_True) metis

end
