(* ===== verification/Qwen_Template.thy ===== *)
theory Qwen_Template
  imports Json Text_Search
begin

text \<open>
  The pinned chat template \<open>fix/renderer/qwen3-tool-prefix.jinja\<close>, as a function of the
  values a template engine hands to it: the tool definitions, the serialized messages, the
  setting \<open>enable_thinking\<close> and whether a generation prompt is added.  \<open>None\<close> is a
  rendering error (a concatenation with a value that is no string).  The filter \<open>tojson\<close>
  and the printing of other values are parameters.
\<close>

abbreviation nl :: char where
  "nl \<equiv> CHR 0x0A"

record printer =
  pr_tojson :: "json \<Rightarrow> string"
  pr_show :: "json \<Rightarrow> string"

definition im_start :: string where "im_start = ''<|im_start|>''"
definition im_end :: string where "im_end = ''<|im_end|>''"

definition lstrip_nl :: "string \<Rightarrow> string" where
  "lstrip_nl s = dropWhile (\<lambda>c. c = nl) s"

definition rstrip_nl :: "string \<Rightarrow> string" where
  "rstrip_nl s = rev (dropWhile (\<lambda>c. c = nl) (rev s))"

text \<open>\<open>s.split(pat)[0]\<close> and \<open>s.split(pat)[-1]\<close>.\<close>

definition split_first :: "string \<Rightarrow> string \<Rightarrow> string" where
  "split_first pat s = (case find_sub pat s of None \<Rightarrow> s | Some i \<Rightarrow> take i s)"

function split_last :: "string \<Rightarrow> string \<Rightarrow> string" where
  "split_last pat s =
     (if pat = [] then s
      else case find_sub pat s of
        None \<Rightarrow> s
      | Some i \<Rightarrow> split_last pat (drop (i + length pat) s))"
  by pat_completeness auto
termination
proof (relation "measure (\<lambda>(pat, s). length s)")
  fix pat s i
  assume "pat \<noteq> []" "find_sub pat s = Some i"
  moreover from this have "i + length pat \<le> length s"
    by (simp add: find_sub_sound)
  ultimately show "((pat, drop (i + length pat) s), (pat, s)) \<in> measure (\<lambda>(pat, s). length s)"
    by (cases pat) auto
qed simp

declare split_last.simps [simp del]

definition role_is :: "string \<Rightarrow> json \<Rightarrow> bool" where
  "role_is r m = (json_get ''role'' m = Some (JString r))"

definition message_text :: "json \<Rightarrow> string" where
  "message_text m = (case json_get ''content'' m of Some (JString c) \<Rightarrow> c | _ \<Rightarrow> [])"

text \<open>The system block: tool definitions, and the first message when it is a system message.\<close>

definition system_text :: "json \<Rightarrow> string option" where
  "system_text m = (case json_get ''content'' m of Some (JString c) \<Rightarrow> Some c | _ \<Rightarrow> None)"

definition tools_intro :: string where
  "tools_intro =
     ''# Tools'' @ [nl, nl] @ ''You may call one or more functions to assist with the user query.'' @ [nl, nl] @
     ''You are provided with function signatures within <tools></tools> XML tags:'' @ [nl] @ ''<tools>''"

definition tools_outro :: string where
  "tools_outro =
     [nl] @ ''</tools>'' @ [nl, nl] @
     ''For each function call, return a json object with function name and arguments within <tool_call></tool_call> XML tags:'' @
     [nl] @ ''<tool_call>'' @ [nl] @
     ''{\"name\": <function-name>, \"arguments\": <args-json-object>}'' @ [nl] @ ''</tool_call>'' @ im_end @ [nl]"

definition header :: "printer \<Rightarrow> json list \<Rightarrow> json \<Rightarrow> string option" where
  "header pr tools first =
     (if tools \<noteq> [] then
        (let tail = tools_intro @ concat (map (\<lambda>t. nl # pr_tojson pr t) tools) @ tools_outro in
         if role_is ''system'' first
         then map_option (\<lambda>c. im_start @ ''system'' @ [nl] @ c @ [nl, nl] @ tail) (system_text first)
         else Some (im_start @ ''system'' @ [nl] @ tail))
      else if role_is ''system'' first
      then map_option (\<lambda>c. im_start @ ''system'' @ [nl] @ c @ im_end @ [nl]) (system_text first)
      else Some [])"

text \<open>The last user message that is a query of its own, searched from the end.\<close>

definition is_query :: "json \<Rightarrow> bool" where
  "is_query m =
     (role_is ''user'' m \<and>
      (case json_get ''content'' m of
         Some (JString c) \<Rightarrow> \<not> (prefix ''<tool_response>'' c \<and> suffix ''</tool_response>'' c)
       | _ \<Rightarrow> False))"

definition last_query_index :: "json list \<Rightarrow> nat" where
  "last_query_index ms =
     (case List.find (\<lambda>(i, m). is_query m) (rev (enumerate 0 ms)) of
        Some (i, _) \<Rightarrow> i
      | None \<Rightarrow> length ms - 1)"

definition split_reasoning :: "json \<Rightarrow> string \<times> string" where
  "split_reasoning m =
     (let content = message_text m in
      case json_get ''reasoning_content'' m of
        Some (JString r) \<Rightarrow> (r, content)
      | _ \<Rightarrow>
          if contains_sub ''</think>'' content
          then (lstrip_nl (split_last ''<think>'' (rstrip_nl (split_first ''</think>'' content))),
                lstrip_nl (split_last ''</think>'' content))
          else ([], content))"

fun truthy :: "json \<Rightarrow> bool" where
  "truthy JNull = False"
| "truthy (JBool b) = b"
| "truthy (JNumber n) = (n \<noteq> 0)"
| "truthy (JString s) = (s \<noteq> [])"
| "truthy (JArray xs) = (xs \<noteq> [])"
| "truthy (JObject kvs) = (kvs \<noteq> [])"

definition show_member :: "printer \<Rightarrow> json option \<Rightarrow> string" where
  "show_member pr v =
     (case v of None \<Rightarrow> [] | Some (JString s) \<Rightarrow> s | Some x \<Rightarrow> pr_show pr x)"

definition render_call :: "printer \<Rightarrow> bool \<Rightarrow> json \<Rightarrow> string" where
  "render_call pr newline tc =
     (let tc' = (case json_get ''function'' tc of Some fn \<Rightarrow> if truthy fn then fn else tc | None \<Rightarrow> tc) in
      (if newline then [nl] else []) @ ''<tool_call>'' @ [nl] @ ''{\"name\": \"'' @
      show_member pr (json_get ''name'' tc') @ ''\", \"arguments\": '' @
      (case json_get ''arguments'' tc' of
         Some (JString a) \<Rightarrow> a
       | Some v \<Rightarrow> pr_tojson pr v
       | None \<Rightarrow> pr_tojson pr JNull) @
      ''}'' @ [nl] @ ''</tool_call>'')"

definition render_calls :: "printer \<Rightarrow> string \<Rightarrow> json \<Rightarrow> string" where
  "render_calls pr content m =
     (case json_get ''tool_calls'' m of
        Some (JArray cs) \<Rightarrow>
          concat (map (\<lambda>(i, tc). render_call pr (i = 0 \<and> content \<noteq> [] \<or> i \<noteq> 0) tc) (enumerate 0 cs))
      | _ \<Rightarrow> [])"

definition render_assistant :: "printer \<Rightarrow> bool \<Rightarrow> bool \<Rightarrow> json \<Rightarrow> string" where
  "render_assistant pr after_query is_last m =
     (let (reasoning, content) = split_reasoning m in
      im_start @ ''assistant'' @ [nl] @
      (if after_query \<and> (is_last \<or> reasoning \<noteq> [])
       then ''<think>'' @ [nl] @ lstrip_nl (rstrip_nl reasoning) @ [nl] @ ''</think>'' @ [nl, nl] @ lstrip_nl content
       else content) @
      render_calls pr content m @ im_end @ [nl])"

text \<open>
  One message, given its position, whether it is the last one, and the messages around it.
\<close>

definition render_message :: "printer \<Rightarrow> nat \<Rightarrow> nat \<Rightarrow> json option \<Rightarrow> json option \<Rightarrow> json \<Rightarrow> string" where
  "render_message pr last_query i before after m =
     (let content = message_text m in
      if role_is ''user'' m then im_start @ ''user'' @ [nl] @ content @ im_end @ [nl]
      else if role_is ''system'' m \<and> i \<noteq> 0 then im_start @ ''system'' @ [nl] @ content @ im_end @ [nl]
      else if role_is ''assistant'' m then render_assistant pr (last_query < i) (after = None) m
      else if role_is ''tool'' m then
        (if is_none_or (\<lambda>b. \<not> role_is ''tool'' b) before then im_start @ ''user'' else []) @
        [nl] @ ''<tool_response>'' @ [nl] @ content @ [nl] @ ''</tool_response>'' @
        (if is_none_or (\<lambda>a. \<not> role_is ''tool'' a) after then im_end @ [nl] else [])
      else [])"

fun render_from :: "printer \<Rightarrow> nat \<Rightarrow> nat \<Rightarrow> json option \<Rightarrow> json list \<Rightarrow> string" where
  "render_from pr lq i before [] = []"
| "render_from pr lq i before (m # ms) =
     render_message pr lq i before (case ms of [] \<Rightarrow> None | a # _ \<Rightarrow> Some a) m @
     render_from pr lq (Suc i) (Some m) ms"

definition generation_prompt :: "bool \<Rightarrow> json option \<Rightarrow> string" where
  "generation_prompt add thinking =
     (if add then im_start @ ''assistant'' @ [nl] @
        (if thinking = Some (JBool False) then ''<think>'' @ [nl, nl] @ ''</think>'' @ [nl, nl] else [])
      else [])"

definition qwen3_template ::
  "printer \<Rightarrow> json list \<Rightarrow> json list \<Rightarrow> json option \<Rightarrow> bool \<Rightarrow> string option" where
  "qwen3_template pr tools ms thinking add_generation =
     map_option (\<lambda>h. h @ render_from pr (last_query_index ms) 0 None ms @ generation_prompt add_generation thinking)
       (header pr tools (case ms of [] \<Rightarrow> JNull | m # _ \<Rightarrow> m))"

section \<open>Rendering a history that a tool result follows\<close>

text \<open>
  The messages of a history, when \<open>after\<close> follows them; and the text a tool result opens
  with.  Neither depends on what the tool returned.
\<close>

primrec render_history ::
  "printer \<Rightarrow> nat \<Rightarrow> nat \<Rightarrow> json option \<Rightarrow> json list \<Rightarrow> json option \<Rightarrow> string" where
  "render_history pr lq i b [] after = []"
| "render_history pr lq i b (m # ms) after =
     render_message pr lq i b (case ms of [] \<Rightarrow> after | a # _ \<Rightarrow> Some a) m @
     render_history pr lq (Suc i) (Some m) ms after"

definition before_of :: "json option \<Rightarrow> json list \<Rightarrow> json option" where
  "before_of b ms = (if ms = [] then b else Some (last ms))"

definition tool_intro :: "json option \<Rightarrow> string" where
  "tool_intro b =
     (if is_none_or (\<lambda>m. \<not> role_is ''tool'' m) b then im_start @ ''user'' else []) @
     [nl] @ ''<tool_response>'' @ [nl]"

definition tool_stub :: json where
  "tool_stub = JObject [(''role'', JString ''tool'')]"

definition continuation_prefix :: "printer \<Rightarrow> json list \<Rightarrow> json list \<Rightarrow> string option" where
  "continuation_prefix pr tools ms =
     map_option (\<lambda>h. h @ render_history pr (last_query_index (ms @ [tool_stub])) 0 None ms (Some tool_stub) @
       tool_intro (before_of None ms)) (header pr tools (case ms of [] \<Rightarrow> JNull | m # _ \<Rightarrow> m))"

lemma role_is_unique: "role_is r m \<Longrightarrow> role_is r' m \<longleftrightarrow> r' = r"
  by (auto simp: role_is_def)

lemma tool_stub_role: "role_is ''tool'' tool_stub"
  by (simp add: tool_stub_def role_is_def om_get_Cons)

lemma tool_not_query: "role_is ''tool'' m \<Longrightarrow> \<not> is_query m"
  by (simp add: is_query_def role_is_unique)

lemma render_from_split:
  "render_from pr lq i b (ms @ t # ts) =
     render_history pr lq i b ms (Some t) @ render_from pr lq (i + length ms) (before_of b ms) (t # ts)"
proof (induction ms arbitrary: i b)
  case Nil
  then show ?case by (simp add: before_of_def)
next
  case (Cons m ms)
  then show ?case by (cases ms) (simp_all add: before_of_def)
qed

definition tool_outro :: "json option \<Rightarrow> string" where
  "tool_outro a =
     [nl] @ ''</tool_response>'' @
     (if is_none_or (\<lambda>m. \<not> role_is ''tool'' m) a then im_end @ [nl] else [])"

lemma tool_roles:
  assumes "role_is ''tool'' m"
  shows "\<not> role_is ''user'' m" "\<not> role_is ''system'' m" "\<not> role_is ''assistant'' m"
  by (simp_all add: role_is_unique [OF assms])

lemma render_tool:
  assumes "role_is ''tool'' m"
  shows "render_message pr lq i b a m = tool_intro b @ message_text m @ tool_outro a"
  unfolding render_message_def Let_def tool_intro_def tool_outro_def
  by (simp only: tool_roles [OF assms] assms if_True if_False simp_thms append_assoc)

lemma render_message_cong:
  assumes "lq < i \<longleftrightarrow> lq' < i"
  shows "render_message pr lq i b a m = render_message pr lq' i b a m"
  unfolding render_message_def Let_def by (simp only: assms)

lemma render_message_tool_next:
  assumes "role_is ''tool'' t" "role_is ''tool'' t'"
  shows "render_message pr lq i b (Some t) m = render_message pr lq i b (Some t') m"
  unfolding render_message_def Let_def
  by (simp only: opt_simps assms option.distinct simp_thms)

lemma render_history_cong:
  assumes "role_is ''tool'' t" "role_is ''tool'' t'"
    and "\<And>j. i \<le> j \<Longrightarrow> j < i + length ms \<Longrightarrow> lq < j \<longleftrightarrow> lq' < j"
  shows "render_history pr lq i b ms (Some t) = render_history pr lq' i b ms (Some t')"
  using assms(3)
proof (induction ms arbitrary: i b)
  case Nil
  then show ?case by simp
next
  case (Cons m ms)
  have "lq < i \<longleftrightarrow> lq' < i" using Cons.prems [of i] by simp
  then have "render_message pr lq i b (case ms of [] \<Rightarrow> Some t | a # _ \<Rightarrow> Some a) m =
      render_message pr lq' i b (case ms of [] \<Rightarrow> Some t' | a # _ \<Rightarrow> Some a) m"
    by (cases ms) (simp_all add: render_message_cong [of lq i lq'] render_message_tool_next [OF assms(1,2)])
  moreover have "render_history pr lq (Suc i) (Some m) ms (Some t) =
      render_history pr lq' (Suc i) (Some m) ms (Some t')"
    by (rule Cons.IH) (use Cons.prems in auto)
  ultimately show ?case by simp
qed

lemma find_append:
  "List.find P (xs @ ys) = (case List.find P xs of None \<Rightarrow> List.find P ys | Some x \<Rightarrow> Some x)"
  by (induction xs) auto

lemma last_query_index_append:
  assumes "list_all (\<lambda>m. \<not> is_query m) ts"
  shows "last_query_index (ms @ ts) =
     (case List.find (\<lambda>(i, m). is_query m) (rev (enumerate 0 ms)) of
        Some (i, _) \<Rightarrow> i | None \<Rightarrow> length ms + length ts - 1)"
proof -
  have "List.find (\<lambda>(i, m). is_query m) (rev (enumerate (length ms) ts)) = None"
    using assms by (auto simp: find_None_iff list_all_iff in_set_enumerate_eq)
  then show ?thesis
    by (simp add: last_query_index_def enumerate_append_eq find_append split: option.split)
qed

lemma last_query_index_tools:
  assumes "list_all (\<lambda>m. \<not> is_query m) (t # ts)" "list_all (\<lambda>m. \<not> is_query m) (t' # ts')"
    and "j < length ms"
  shows "last_query_index (ms @ t # ts) < j \<longleftrightarrow> last_query_index (ms @ t' # ts') < j"
  using assms(3)
  by (auto simp: last_query_index_append [OF assms(1)] last_query_index_append [OF assms(2)]
      split: option.splits)

text \<open>
  Whatever tool results follow a history, its rendering begins with one and the same text, up
  to the content of the first result.
\<close>

lemma qwen3_template_continuation:
  assumes "ms \<noteq> []" "list_all (role_is ''tool'') (t # ts)"
    and "qwen3_template pr tools (ms @ t # ts) thinking g = Some full"
  shows "\<exists>c r. continuation_prefix pr tools ms = Some c \<and> full = c @ message_text t @ r"
proof -
  let ?first = "case ms of [] \<Rightarrow> JNull | m # _ \<Rightarrow> m"
  have "(case ms @ t # ts of [] \<Rightarrow> JNull | m # _ \<Rightarrow> m) = ?first"
    using assms(1) by (cases ms) simp_all
  with assms(3) obtain h where h: "header pr tools ?first = Some h"
    and full: "full = h @ render_from pr (last_query_index (ms @ t # ts)) 0 None (ms @ t # ts) @
      generation_prompt g thinking"
    by (auto simp: qwen3_template_def simp del: append_Cons)
  have nq: "list_all (\<lambda>m. \<not> is_query m) (t # ts)"
    using assms(2) by (auto simp: list_all_iff tool_not_query)
  let ?lq = "last_query_index (ms @ t # ts)" and ?lq' = "last_query_index (ms @ [tool_stub])"
  have "render_history pr ?lq 0 None ms (Some t) = render_history pr ?lq' 0 None ms (Some tool_stub)"
    by (rule render_history_cong)
      (use assms(2) nq in \<open>simp_all add: tool_stub_role tool_not_query last_query_index_tools\<close>)
  moreover have "render_from pr ?lq (0 + length ms) (before_of None ms) (t # ts) =
      tool_intro (before_of None ms) @ message_text t @
      tool_outro (case ts of [] \<Rightarrow> None | a # _ \<Rightarrow> Some a) @ render_from pr ?lq (Suc (0 + length ms)) (Some t) ts"
    using assms(2) by (simp add: render_tool)
  ultimately show ?thesis
    using h full by (simp add: continuation_prefix_def render_from_split del: render_from.simps)
qed

text \<open>The history up to an assistant message ends with the closing token and a line break.\<close>

lemma render_history_snoc:
  "render_history pr lq i b (ms @ [m]) after =
     render_history pr lq i b ms (Some m) @ render_message pr lq (i + length ms) (before_of b ms) after m"
proof (induction ms arbitrary: i b)
  case Nil
  then show ?case by (simp add: before_of_def)
next
  case (Cons a ms)
  then show ?case by (cases ms) (simp_all add: before_of_def)
qed

lemma render_assistant_closed: "\<exists>x. render_assistant pr q l m = x @ im_end @ [nl]"
  unfolding render_assistant_def Let_def split_beta
  by (rule exI, simp only: append_assoc [symmetric])

lemma continuation_prefix_closed:
  assumes "continuation_prefix pr tools (ms @ [m]) = Some c" "role_is ''assistant'' m"
  shows "\<exists>x. c = x @ im_end @ nl # im_start @ ''user'' @ nl # ''<tool_response>'' @ [nl]"
proof -
  have roles: "\<not> role_is ''user'' m" "\<not> role_is ''system'' m" "\<not> role_is ''tool'' m"
    by (simp_all add: role_is_unique [OF assms(2)])
  have "\<exists>x. render_message pr lq i b a m = x @ im_end @ [nl]" for lq i b a
    using render_assistant_closed [of pr "lq < i" "a = None" m]
    unfolding render_message_def Let_def
    by (simp only: roles assms(2) if_True if_False simp_thms)
  then obtain y where y: "render_message pr (last_query_index ((ms @ [m]) @ [tool_stub])) (length ms)
      (before_of None ms) (Some tool_stub) m = y @ im_end @ [nl]" by blast
  have ti: "tool_intro (before_of None (ms @ [m])) =
      im_start @ ''user'' @ [nl] @ ''<tool_response>'' @ [nl]"
    unfolding tool_intro_def before_of_def by (simp add: roles(3))
  obtain h where c: "c = h @ render_history pr (last_query_index ((ms @ [m]) @ [tool_stub])) 0 None (ms @ [m])
      (Some tool_stub) @ tool_intro (before_of None (ms @ [m]))"
    using assms(1) unfolding continuation_prefix_def map_option_eq_Some by blast
  have "c = (h @ render_history pr (last_query_index ((ms @ [m]) @ [tool_stub])) 0 None ms (Some m) @ y) @
      im_end @ nl # im_start @ ''user'' @ nl # ''<tool_response>'' @ [nl]"
    unfolding c render_history_snoc add_0_left y ti by (simp only: append_assoc append_Cons append_Nil)
  then show ?thesis by blast
qed

end
