(* ===== verification/Continuation.thy ===== *)
theory Continuation
  imports Qwen_Template
begin

text \<open>
  The continuation contract of the fix: which tokenizer and model artifacts it supports
  (\<open>fix/dynamo/contract.rs\<close>), and the renderer method that produces the closed prefix of a
  conversation that tool results will follow (\<open>fix/renderer/speculative.rs\<close>, with its
  caller in \<open>fix/renderer.patch\<close>).

  The tokenizer and the template engine are code outside the repository.  They are the
  parameters \<open>tokenizer\<close> and \<open>renderer\<close>; a fallible call returns \<open>Inl\<close>
  of an error.
\<close>

type_synonym 'a result = "string + 'a"

section \<open>Artifacts and tokenizer\<close>

record tokenizer =
  tk_prefix_cache_ok :: bool
  tk_special_added :: "nat result"
  tk_token_to_id :: "string \<Rightarrow> token_id option result"
  tk_special_ids :: "token_id list result"
  tk_encode :: "string \<Rightarrow> token_id list result"

definition tokenizer_sum :: string where
  "tokenizer_sum = ''blake3:b0cb923fc505fdf0a53f0287654fa26577d3f333d4134350da0a97664b228739''"

definition config_sum :: string where
  "config_sum = ''blake3:4422061cdcb205f75bc448b09f4017f8f2f92f172aeb2cf0248f4ce2f0f360e6''"

definition supported_artifacts :: "string option \<Rightarrow> string option \<Rightarrow> string \<Rightarrow> bool" where
  "supported_artifacts tok cfg backend =
     (tok = Some tokenizer_sum \<and> cfg = Some config_sum \<and> backend = ''default'')"

definition im_end_id :: token_id where
  "im_end_id = 151645"

definition supported_tokenizer :: "tokenizer \<Rightarrow> bool" where
  "supported_tokenizer t =
     (tk_prefix_cache_ok t
      \<and> tk_special_added t = Inr 0
      \<and> tk_token_to_id t ''<|im_end|>'' = Inr (Some im_end_id)
      \<and> (case tk_special_ids t of Inr ids \<Rightarrow> im_end_id \<in> set ids | Inl _ \<Rightarrow> False)
      \<and> (case tk_encode t ''<|im_end|>'' of Inr ids \<Rightarrow> ids = [im_end_id] | Inl _ \<Rightarrow> False))"

section \<open>Requests as the renderer sees them\<close>

text \<open>
  A message with the value it serializes to; for an assistant message, \<open>msg_calls\<close> holds
  the ids of its tool calls (if it has a list of them).
\<close>

record message =
  msg_value :: json
  msg_calls :: "string list option option"

text \<open>The methods of \<open>OAIChatLikeRequest\<close>.\<close>

record render_request =
  rq_model :: string
  rq_messages :: "message list option"
  rq_tools :: "json option"
  rq_tool_choice :: "json option"
  rq_response_format :: "json option"
  rq_reasoning_effort :: "json option"
  rq_args :: "(string, json) omap option"
  rq_generation :: bool

record renderer =
  rd_json_text :: "json \<Rightarrow> string"
  rd_parse_message :: "json \<Rightarrow> message result"
  rd_render :: "render_request \<Rightarrow> string result"
  rd_template :: "string \<Rightarrow> string result"
  rd_exclude_tools :: bool

section \<open>The tool prefix\<close>

definition marker :: string where
  "marker = ''__dynamo_unknown_tool_result_71eb45__''"

text \<open>
  \<open>Continuation\<close>: the request with other messages and without a generation prompt; every
  other method delegates to the original.
\<close>

definition continuation :: "render_request \<Rightarrow> message list \<Rightarrow> render_request" where
  "continuation req ms = req\<lparr>rq_messages := Some ms, rq_generation := False\<rparr>"

definition unsupported_arg :: "string \<times> json \<Rightarrow> bool" where
  "unsupported_arg kv =
     (let (key, value) = kv in
      if key = ''enable_thinking'' \<or> key = ''thinking'' then json_as_bool value = None
      else if key = ''thinking_mode'' then json_as_str value \<notin> {Some ''enabled'', Some ''disabled''}
      else True)"

definition unsupported_message :: "json \<Rightarrow> bool" where
  "unsupported_message m =
     (is_some_and (\<lambda>v. v \<noteq> JNull \<and> json_as_str v = None) (json_get ''content'' m)
      \<or> Option.bind (json_get ''partial'' m) json_as_bool = Some True
      \<or> is_some_and (\<lambda>v. v \<noteq> JNull) (json_get ''audio'' m)
      \<or> is_some_and (\<lambda>v. v \<noteq> JNull) (json_get ''function_call'' m))"

definition tool_marker_value :: "string \<Rightarrow> json" where
  "tool_marker_value call_id =
     json_object [(''role'', JString ''tool''), (''tool_call_id'', JString call_id),
                  (''content'', JString marker)]"

text \<open>The part after rendering: cut the text at the last closed message before the marker.\<close>

definition close_prefix :: "string \<Rightarrow> string option" where
  "close_prefix rendered =
     (if count_sub marker rendered \<noteq> 1 then None
      else case split_once marker rendered of
        None \<Rightarrow> None
      | Some (before, _) \<Rightarrow>
          (case rfind_sub im_end before of
             None \<Rightarrow> None
           | Some e \<Rightarrow>
               let p = take (e + length im_end) before in
               if CHR 0x00 \<in> set p then None else Some p))"

definition qwen_tool_prefix :: "renderer \<Rightarrow> render_request \<Rightarrow> string option result" where
  "qwen_tool_prefix R req =
     (if is_some_and (list_ex unsupported_arg) (rq_args req) then Inr None
      else case rq_messages req of
        None \<Rightarrow> Inr None
      | Some ms \<Rightarrow>
          if contains_sub marker (rd_json_text R (JArray (map msg_value ms)))
             \<or> list_ex unsupported_message (map msg_value ms)
          then Inr None
          else if ms = [] then Inr None
          else case msg_calls (last ms) of
            Some (Some (call_id # _)) \<Rightarrow>
              (case rd_parse_message R (tool_marker_value call_id) of
                 Inl e \<Rightarrow> Inl e
               | Inr t \<Rightarrow>
                   (case rd_render R (continuation req (ms @ [t])) of
                      Inl e \<Rightarrow> Inl e
                    | Inr rendered \<Rightarrow> Inr (close_prefix rendered)))
          | _ \<Rightarrow> Inr None)"

text \<open>
  The formatter's entry point, from the patch of the renderer crate: the template that would be
  used for the request must be the pinned source.
\<close>

definition request_has_tools :: "renderer \<Rightarrow> render_request \<Rightarrow> bool" where
  "request_has_tools R req =
     (let excluded = rd_exclude_tools R \<and> Option.bind (rq_tool_choice req) json_as_str = Some ''none'' in
      \<not> excluded \<and>
      (case rq_tools req of
         Some (JArray ts) \<Rightarrow> ts \<noteq> []
       | Some (JObject kvs) \<Rightarrow> kvs \<noteq> []
       | Some (JString s) \<Rightarrow> s \<noteq> []
       | _ \<Rightarrow> False))"

definition render_speculative_tool_prefix ::
  "string \<Rightarrow> renderer \<Rightarrow> render_request \<Rightarrow> string option result" where
  "render_speculative_tool_prefix pinned R req =
     (let name = if request_has_tools R req then ''tool_use'' else ''default'' in
      case rd_template R name of
        Inl e \<Rightarrow> Inl e
      | Inr source \<Rightarrow> if source \<noteq> pinned then Inr None else qwen_tool_prefix R req)"

section \<open>Lemmas\<close>

lemma close_prefix_SomeD:
  assumes "close_prefix rendered = Some p"
  shows "suffix im_end p" "CHR 0x00 \<notin> set p"
    and "\<exists>i. find_sub marker rendered = Some i \<and> prefix p (take i rendered)"
proof -
  obtain i e where i: "find_sub marker rendered = Some i"
    and e: "rfind_sub im_end (take i rendered) = Some e"
    and p: "p = take (e + length im_end) (take i rendered)"
    and nul: "CHR 0x00 \<notin> set p"
    using assms
    by (auto simp: close_prefix_def split_once_def Let_def split: if_splits option.splits)
  let ?b = "take i rendered"
  have e': "e + length im_end \<le> length ?b" "prefix im_end (drop e ?b)"
    using rfind_sub_sound [OF e] by simp_all
  have "take (length im_end) (drop e ?b) = im_end"
    using e'(2) by (auto simp: prefix_def)
  moreover have "p = take e ?b @ take (length im_end) (drop e ?b)"
    using p e'(1) by (simp only: take_add)
  ultimately show "suffix im_end p" by (simp add: suffix_def)
  show "CHR 0x00 \<notin> set p" by (rule nul)
  show "\<exists>i. find_sub marker rendered = Some i \<and> prefix p (take i rendered)"
    using i p take_is_prefix [of "e + length im_end" "take i rendered"] by metis
qed

text \<open>
  Cutting at the first marker gives a prefix of every text that agrees with the rendered one up
  to a marker.
\<close>

lemma close_prefix_common:
  assumes "close_prefix (c @ marker @ r) = Some p"
  shows "prefix p c"
proof -
  let ?t = "c @ marker @ r"
  obtain i where i: "find_sub marker ?t = Some i" "prefix p (take i ?t)"
    using close_prefix_SomeD(3) [OF assms] by blast
  have "prefix marker (drop (length c) ?t)" by simp
  then obtain j where "j \<le> length c" "find_sub marker ?t = Some j"
    using find_sub_first [of marker "length c" ?t] by auto
  with i(1) have "prefix (take i ?t) c" by (simp add: take_is_prefix)
  with i(2) show ?thesis by (rule prefix_order.trans)
qed

lemma qwen_tool_prefix_SomeE:
  assumes "qwen_tool_prefix R req = Inr (Some p)"
  obtains ms call_id t rendered where
    "rq_messages req = Some ms" "ms \<noteq> []" "rd_parse_message R (tool_marker_value call_id) = Inr t"
    "rd_render R (continuation req (ms @ [t])) = Inr rendered" "close_prefix rendered = Some p"
  using assms
  by (auto simp: qwen_tool_prefix_def split: if_splits option.splits list.splits sum.splits)

lemma qwen_tool_prefix_calls:
  assumes "qwen_tool_prefix R req = Inr (Some p)" "rq_messages req = Some ms"
  shows "\<exists>call_id ids. msg_calls (last ms) = Some (Some (call_id # ids))"
  using assms
  by (auto simp: qwen_tool_prefix_def split: if_splits option.splits list.splits sum.splits)

lemma marker_shape: "marker \<noteq> []" "nl \<notin> set marker"
  by (simp_all add: marker_def)

text \<open>
  The cut falls after the last closing token of a text that ends with the opening of a tool
  result.
\<close>

lemma close_prefix_covers:
  assumes "close_prefix (c @ marker @ r) = Some p"
    and "c = x @ im_end @ nl # im_start @ ''user'' @ nl # ''<tool_response>'' @ [nl]"
  shows "p = x @ im_end"
proof -
  have "count_sub marker (c @ marker @ r) = 1"
    using assms(1) unfolding close_prefix_def by (simp split: if_splits)
  moreover have "c \<noteq> []" "last c = nl" by (simp_all add: assms(2))
  ultimately have find: "find_sub marker (c @ marker @ r) = Some (length c)"
    using find_sub_only marker_shape by metis
  have "rfind_sub im_end (im_end @ nl # im_start @ ''user'' @ nl # ''<tool_response>'' @ [nl]) = Some 0"
    unfolding im_end_def im_start_def by simp
  then have "rfind_sub im_end c = Some (length x)"
    unfolding assms(2) by (rule rfind_sub_append [THEN trans]) simp
  with find assms(1) have "p = take (length x + length im_end) c"
    by (auto simp: close_prefix_def split_once_def Let_def split: if_splits)
  then show ?thesis unfolding assms(2) by simp
qed

section \<open>The prefix is exact\<close>

text \<open>
  What the template engine does with a request, when the pinned template is the one it uses:
  the definitions of the tools and the value of \<open>enable_thinking\<close> are read off the
  request without its messages, and every message has a value of its own.
\<close>

definition pinned_render ::
  "printer \<Rightarrow> (message \<Rightarrow> json) \<Rightarrow> (json option \<Rightarrow> json option \<Rightarrow> json list) \<Rightarrow>
     ((string, json) omap option \<Rightarrow> json option) \<Rightarrow> render_request \<Rightarrow> string result" where
  "pinned_render pr view tools thinking q =
     (case qwen3_template pr (tools (rq_tools q) (rq_tool_choice q))
             (map view (case rq_messages q of None \<Rightarrow> [] | Some ms \<Rightarrow> ms))
             (thinking (rq_args q)) (rq_generation q) of
        None \<Rightarrow> Inl ''template''
      | Some text \<Rightarrow> Inr text)"

lemma pinned_render_continuation:
  assumes "pinned_render pr view tools thinking (req\<lparr>rq_messages := Some (ms @ t # ts), rq_generation := g\<rparr>) = Inr full"
    and "ms \<noteq> []" "list_all (\<lambda>t. role_is ''tool'' (view t)) (t # ts)"
  shows "\<exists>c r. continuation_prefix pr (tools (rq_tools req) (rq_tool_choice req)) (map view ms) = Some c
           \<and> full = c @ message_text (view t) @ r"
  using assms qwen3_template_continuation [of "map view ms" "view t" "map view ts" pr
      "tools (rq_tools req) (rq_tool_choice req)" "thinking (rq_args req)" g full]
  by (auto simp: pinned_render_def list_all_iff split: option.splits)

lemma qwen_tool_prefix_rendered:
  assumes "rd_render R = pinned_render pr view tools thinking"
    and "\<forall>call_id t. rd_parse_message R (tool_marker_value call_id) = Inr t \<longrightarrow>
           role_is ''tool'' (view t) \<and> message_text (view t) = marker"
    and "qwen_tool_prefix R req = Inr (Some p)" "rq_messages req = Some ms"
  shows "\<exists>c r. continuation_prefix pr (tools (rq_tools req) (rq_tool_choice req)) (map view ms) = Some c
           \<and> close_prefix (c @ marker @ r) = Some p \<and> ms \<noteq> []"
proof -
  obtain call_id t rendered where *: "ms \<noteq> []" "rd_parse_message R (tool_marker_value call_id) = Inr t"
    "rd_render R (continuation req (ms @ [t])) = Inr rendered" "close_prefix rendered = Some p"
    using qwen_tool_prefix_SomeE [OF assms(3)] assms(4) by (metis option.inject)
  have t: "role_is ''tool'' (view t)" "message_text (view t) = marker"
    using assms(2) *(2) by blast+
  show ?thesis
    using pinned_render_continuation [where view = view and t = t and ts = "[]" and full = rendered
        and g = False and req = req and pr = pr and tools = tools and thinking = thinking, OF _ *(1)] *(1,3,4) t
    by (auto simp: assms(1) continuation_def)
qed

lemma qwen_tool_prefix_exact:
  assumes "rd_render R = pinned_render pr view tools thinking"
    and "\<forall>call_id t. rd_parse_message R (tool_marker_value call_id) = Inr t \<longrightarrow>
           role_is ''tool'' (view t) \<and> message_text (view t) = marker"
    and "qwen_tool_prefix R req = Inr (Some p)" "rq_messages req = Some ms"
    and "results \<noteq> []" "list_all (\<lambda>t. role_is ''tool'' (view t)) results"
    and "rd_render R (req\<lparr>rq_messages := Some (ms @ results), rq_generation := g\<rparr>) = Inr full"
  shows "prefix p full \<and> suffix im_end p \<and> CHR 0x00 \<notin> set p"
proof -
  obtain c r where c: "continuation_prefix pr (tools (rq_tools req) (rq_tool_choice req)) (map view ms) = Some c"
    and p: "close_prefix (c @ marker @ r) = Some p" and ms: "ms \<noteq> []"
    using qwen_tool_prefix_rendered [OF assms(1-4)] by blast
  obtain t ts where results: "results = t # ts" using assms(5) by (cases results) auto
  obtain r' where "full = c @ message_text (view t) @ r'"
    using pinned_render_continuation [OF assms(7) [unfolded assms(1) results] ms assms(6) [unfolded results]] c
    by auto
  with close_prefix_common [OF p] have "prefix p full"
    by (auto intro: prefix_order.trans)
  with close_prefix_SomeD(1,2) [OF p] show ?thesis by simp
qed

text \<open>
  C4.  The prefix the renderer hands out is exact.  Assume that rendering uses the pinned
  template, and that the message parsed from the placeholder value is a tool message with the
  marker as its text.  Then, whatever the tools return, however many results follow, and whether
  or not a generation prompt is added: the prefix computed before the results were known is a
  prefix of the text rendered for the continued conversation.  It ends with the closing special
  token and contains no NUL.
\<close>

theorem tool_prefix_is_exact:
  assumes "rd_render R = pinned_render pr view tools thinking"
    and "\<forall>call_id t. rd_parse_message R (tool_marker_value call_id) = Inr t \<longrightarrow>
           role_is ''tool'' (view t) \<and> message_text (view t) = marker"
    and "qwen_tool_prefix R req = Inr (Some p)" "rq_messages req = Some ms"
    and "results \<noteq> []" "list_all (\<lambda>t. role_is ''tool'' (view t)) results"
    and "rd_render R (req\<lparr>rq_messages := Some (ms @ results), rq_generation := g\<rparr>) = Inr full"
  shows "prefix p full \<and> suffix im_end p \<and> CHR 0x00 \<notin> set p"
  by (rule qwen_tool_prefix_exact [OF assms])

definition sample_printer :: printer where
  "sample_printer = \<lparr>pr_tojson = (\<lambda>_. ''{}''), pr_show = (\<lambda>_. [])\<rparr>"

definition sample_renderer :: renderer where
  "sample_renderer =
     \<lparr>rd_json_text = (\<lambda>_. []), rd_parse_message = (\<lambda>v. Inr \<lparr>msg_value = v, msg_calls = None\<rparr>),
      rd_render = pinned_render sample_printer msg_value (\<lambda>_ _. []) (\<lambda>_. None),
      rd_template = (\<lambda>_. Inr []), rd_exclude_tools = False\<rparr>"

definition sample_turn :: "message list" where
  "sample_turn =
     [\<lparr>msg_value = json_object [(''role'', JString ''user''), (''content'', JString ''hi'')], msg_calls = None\<rparr>,
      \<lparr>msg_value = json_object [(''role'', JString ''assistant''), (''content'', JString ''ok'')],
       msg_calls = Some (Some [''c1''])\<rparr>]"

definition sample_render_request :: render_request where
  "sample_render_request =
     \<lparr>rq_model = [], rq_messages = Some sample_turn, rq_tools = None, rq_tool_choice = None,
      rq_response_format = None, rq_reasoning_effort = None, rq_args = None, rq_generation = True\<rparr>"

definition sample_result :: message where
  "sample_result =
     \<lparr>msg_value = json_object [(''role'', JString ''tool''), (''content'', JString ''42'')], msg_calls = None\<rparr>"

definition sample_prefix :: string where
  "sample_prefix =
     im_start @ ''user'' @ [nl] @ ''hi'' @ im_end @ [nl] @ im_start @ ''assistant'' @ [nl] @ ''ok'' @ im_end"

lemma sample_evaluates:
  "qwen_tool_prefix sample_renderer sample_render_request = Inr (Some sample_prefix)"
  "rd_render sample_renderer (sample_render_request\<lparr>rq_messages := Some (sample_turn @ [sample_result]),
     rq_generation := True\<rparr>) =
     Inr (sample_prefix @ [nl] @ im_start @ ''user'' @ [nl] @ ''<tool_response>'' @ [nl] @ ''42'' @ [nl] @
       ''</tool_response>'' @ im_end @ [nl] @ im_start @ ''assistant'' @ [nl])"
  by code_simp+

lemma sample_renderer_marker:
  "rd_parse_message sample_renderer (tool_marker_value call_id) = Inr t \<Longrightarrow>
     role_is ''tool'' (msg_value t) \<and> message_text (msg_value t) = marker"
  by (auto simp: sample_renderer_def tool_marker_value_def role_is_def message_text_def json_object_def
      om_of_list_def om_get_Cons)

lemma sample_renderer_render:
  "rd_render sample_renderer = pinned_render sample_printer msg_value (\<lambda>_ _. []) (\<lambda>_. None)"
  by (simp add: sample_renderer_def)

theorem tool_prefix_is_exact_witness:
  "prefix sample_prefix (sample_prefix @ [nl] @ im_start @ ''user'' @ [nl] @ ''<tool_response>'' @ [nl] @ ''42'' @ [nl] @
       ''</tool_response>'' @ im_end @ [nl] @ im_start @ ''assistant'' @ [nl])
   \<and> suffix im_end sample_prefix \<and> CHR 0x00 \<notin> set sample_prefix"
  by (rule tool_prefix_is_exact [OF sample_renderer_render _ sample_evaluates(1) _ _ _ sample_evaluates(2)])
    (use sample_renderer_marker in \<open>auto simp: sample_render_request_def sample_result_def role_is_def
      json_object_def om_of_list_def om_get_Cons\<close>)

text \<open>
  The prefix is as long as the contract allows: it is everything that is rendered for the
  conversation before the first tool result is opened, that is, the whole history with the
  assistant turn that made the calls, up to the closing token of that turn.  Only a line break
  and the opening of the tool result separate it from the text of the first result.
\<close>

lemma tool_prefix_covers_history:
  assumes "rd_render R = pinned_render pr view tools thinking"
    and "\<forall>call_id t. rd_parse_message R (tool_marker_value call_id) = Inr t \<longrightarrow>
           role_is ''tool'' (view t) \<and> message_text (view t) = marker"
    and "qwen_tool_prefix R req = Inr (Some p)" "rq_messages req = Some ms"
    and "msg_calls (last ms) \<noteq> None \<longrightarrow> role_is ''assistant'' (view (last ms))"
    and "list_all (\<lambda>t. role_is ''tool'' (view t)) (t # results)"
    and "rd_render R (req\<lparr>rq_messages := Some (ms @ t # results), rq_generation := g\<rparr>) = Inr full"
  shows "\<exists>r. full = p @ [nl] @ im_start @ ''user'' @ [nl] @ ''<tool_response>'' @ [nl] @ message_text (view t) @ r"
proof -
  obtain c r where c: "continuation_prefix pr (tools (rq_tools req) (rq_tool_choice req)) (map view ms) = Some c"
    and p: "close_prefix (c @ marker @ r) = Some p" and ms: "ms \<noteq> []"
    using qwen_tool_prefix_rendered [OF assms(1-4)] by blast
  obtain r' where full: "full = c @ message_text (view t) @ r'"
    using pinned_render_continuation [OF assms(7) [unfolded assms(1)] ms assms(6)] c by auto
  have "role_is ''assistant'' (view (last ms))"
    using qwen_tool_prefix_calls [OF assms(3,4)] assms(5) by auto
  moreover have "map view ms = map view (butlast ms) @ [view (last ms)]"
    using ms by (metis append_butlast_last_id list.simps(8,9) map_append)
  ultimately obtain x where
    x: "c = x @ im_end @ nl # im_start @ ''user'' @ nl # ''<tool_response>'' @ [nl]"
    using continuation_prefix_closed c by metis
  have "p = x @ im_end" by (rule close_prefix_covers [OF p x])
  then have "full = p @ [nl] @ im_start @ ''user'' @ [nl] @ ''<tool_response>'' @ [nl] @ message_text (view t) @ r'"
    unfolding full x by (simp only: append_assoc append_Cons append_Nil)
  then show ?thesis ..
qed

lemma tool_prefix_covers_history_sample:
  "\<exists>r. sample_prefix @ [nl] @ im_start @ ''user'' @ [nl] @ ''<tool_response>'' @ [nl] @ ''42'' @ [nl] @
       ''</tool_response>'' @ im_end @ [nl] @ im_start @ ''assistant'' @ [nl] =
     sample_prefix @ [nl] @ im_start @ ''user'' @ [nl] @ ''<tool_response>'' @ [nl] @
       message_text (msg_value sample_result) @ r"
  by (rule tool_prefix_covers_history
      [OF sample_renderer_render _ sample_evaluates(1) _ _ _ sample_evaluates(2)])
    (use sample_renderer_marker in \<open>auto simp: sample_render_request_def sample_result_def sample_turn_def
      role_is_def json_object_def om_of_list_def om_get_Cons\<close>)
end
