(* ===== verification/Tool_Warmup.thy ===== *)
theory Tool_Warmup
  imports Warmup Tool_Turn Continuation
begin

text \<open>
  The fixed warmup (\<open>fix/dynamo/speculative_prefill.rs\<close>): the wrapper around the client
  stream, which collects a tool-calling turn while it passes every item on, and the blocking
  closure of \<open>prefill_task\<close>, which turns the completed turn into the tokens of the closed
  prefix.  The life cycle is that of \<open>Warmup\<close>.
\<close>

section \<open>The stream wrapper\<close>

text \<open>The parts of the request the wrapper decides by, and whether a warmup is prepared at all.\<close>

record warm_options =
  wo_nvext :: "bool option option option"
  wo_n :: "u8 option"
  wo_continue_final :: "bool option"

definition speculative_enabled :: "warm_options \<Rightarrow> bool" where
  "speculative_enabled r = unwrap_or False (Option.bind (Option.bind (wo_nvext r) id) id)"

definition wraps_stream :: "warm_options \<Rightarrow> bool \<Rightarrow> bool" where
  "wraps_stream r cache_identity_supported =
     (\<not> (\<not> speculative_enabled r \<or> \<not> cache_identity_supported \<or> unwrap_or 1 (wo_n r) \<noteq> 1
         \<or> wo_continue_final r = Some True))"

definition failed_item :: "frame \<Rightarrow> bool" where
  "failed_item item = (is_some (a_error item) \<or> a_event item = Some ''error'')"

definition watch :: "'m protocol \<Rightarrow> tool_turn option \<Rightarrow> frame \<Rightarrow> tool_turn option" where
  "watch P st item =
     Option.bind st (\<lambda>s.
       let s' = (if failed_item item then reject s else s) in
       case a_data item of None \<Rightarrow> Some s' | Some resp \<Rightarrow> observe P resp s')"

definition watch_step :: "'m protocol \<Rightarrow> (tool_turn option, frame, frame) stage_step" where
  "watch_step P st item = ([item], watch P st item)"

text \<open>
  The wrapped stream: the items the client sees, and the message that is sent when the stream
  has ended.
\<close>

definition maybe_wrap_stream ::
  "'m protocol \<Rightarrow> warm_options \<Rightarrow> bool \<Rightarrow> frame list \<Rightarrow> frame list \<times> 'm option" where
  "maybe_wrap_stream P r identity items =
     (if wraps_stream r identity
      then (run_stage (watch_step P) (\<lambda>_. []) (Some turn_default) items,
            Option.bind (final (watch_step P) (Some turn_default) items) (finish P))
      else (items, None))"

lemma watch_emits: "emitted (watch_step P) st items = items"
  by (induction items arbitrary: st) (simp_all add: watch_step_def)

lemma watch_doomed:
  assumes "turn_doomed st \<or> failed_item f"
  shows "turn_doomed (watch P st f)"
proof (cases st)
  case None
  then show ?thesis by (simp add: watch_def turn_doomed_def)
next
  case (Some s)
  define s' where "s' = (if failed_item f then reject s else s)"
  have "tt_failed s'"
    using assms Some by (auto simp: s'_def turn_doomed_def reject_def)
  then show ?thesis
    using Some observe_failed [of s' P]
    by (simp add: watch_def turn_doomed_def flip: s'_def split: option.split)
qed

interpretation watched: absorbing_monitor "\<lambda>f st. watch P st f" turn_doomed
  for P :: "'m protocol"
  by unfold_locales (simp add: watch_doomed)

lemma watch_final_fold: "final (watch_step P) st items = fold (\<lambda>f st. watch P st f) items st"
  by (induction items arbitrary: st) (simp_all add: watch_step_def)

text \<open>The chunks a list of items carries.\<close>

definition item_chunks :: "frame list \<Rightarrow> chunk list" where
  "item_chunks items = List.map_filter a_data items"

lemma watch_final_run:
  "list_all (\<lambda>f. \<not> failed_item f) items \<Longrightarrow>
     final (watch_step P) st items = observe_all P (item_chunks items) st"
  by (induction items arbitrary: st)
    (auto simp: watch_step_def watch_def observe_all_def item_chunks_def map_filter_simps split: option.split)

lemma watch_sent_clean:
  assumes "Option.bind (final (watch_step P) st items) (finish P) = Some m"
  shows "list_all (\<lambda>f. \<not> failed_item f) items"
proof (rule ccontr)
  assume "\<not> ?thesis"
  then obtain xs f ys where items: "items = xs @ f # ys" "failed_item f"
    by (auto simp: list_all_iff dest: split_list)
  then have "turn_doomed (final (watch_step P) st items)"
    by (simp add: watch_final_fold watched.doomed_fold watch_doomed)
  with assms show False
    by (auto simp: turn_doomed_def finish_def split: bind_splits)
qed

section \<open>The closure\<close>

text \<open>What a task captures: formatter, tokenizer, request, and the items of its stream.\<close>

record warm_input =
  wi_protocol :: "message protocol"
  wi_options :: warm_options
  wi_identity :: bool
  wi_items :: "frame list"
  wi_renderer :: renderer
  wi_pinned :: string
  wi_tokenizer :: tokenizer
  wi_request :: render_request

definition push_message :: "render_request \<Rightarrow> message \<Rightarrow> render_request" where
  "push_message req m = req\<lparr>rq_messages := map_option (\<lambda>ms. ms @ [m]) (rq_messages req)\<rparr>"

text \<open>The check of the tokenizer boundary and the tokens of the prefix.\<close>

definition encode_prefix :: "tokenizer \<Rightarrow> string \<Rightarrow> prepared" where
  "encode_prefix tk prompt =
     (case tk_encode tk prompt of
        Inl e \<Rightarrow> Inl e
      | Inr ids \<Rightarrow>
          (case tk_encode tk ''<|im_end|>'' of
             Inl e \<Rightarrow> Inl e
           | Inr closing \<Rightarrow>
               if closing \<noteq> [im_end_id] \<or> ids = [] \<or> last ids \<noteq> im_end_id then Inr None
               else Inr (Some ids)))"

text \<open>The closure between its reads of the cancellation token.\<close>

datatype closure_pc = C_Begin | C_Tokenizer | C_Render | C_Rendered string | C_Encode string

type_synonym closure = "warm_input \<times> render_request \<times> closure_pc"

fun run_closure :: "bool \<Rightarrow> closure \<Rightarrow> closure + prepared" where
  "run_closure stop (x, req, C_Begin) =
     (if stop then Inr (Inr None) else Inl (x, req, C_Tokenizer))"
| "run_closure stop (x, req, C_Tokenizer) =
     (if \<not> supported_tokenizer (wi_tokenizer x) \<or> stop then Inr (Inr None)
      else Inl (x, req, C_Render))"
| "run_closure stop (x, req, C_Render) =
     (case render_speculative_tool_prefix (wi_pinned x) (wi_renderer x) req of
        Inl e \<Rightarrow> Inr (Inl e)
      | Inr None \<Rightarrow> Inr (Inr None)
      | Inr (Some prompt) \<Rightarrow> Inl (x, req, C_Rendered prompt))"
| "run_closure stop (x, req, C_Rendered prompt) =
     (if stop then Inr (Inr None) else Inl (x, req, C_Encode prompt))"
| "run_closure stop (x, req, C_Encode prompt) = Inr (encode_prefix (wi_tokenizer x) prompt)"

definition fix_kit :: "(warm_input, message, closure) kit" where
  "fix_kit =
     \<lparr>kit_turn = (\<lambda>x. snd (maybe_wrap_stream (wi_protocol x) (wi_options x) (wi_identity x) (wi_items x))),
      kit_start = (\<lambda>x m. (x, push_message (wi_request x) m, C_Begin)),
      kit_run = run_closure,
      kit_model = (\<lambda>x. rq_model (wi_request x))\<rparr>"

text \<open>What the closure computes when nothing cancels it, in one piece.\<close>

definition prepare :: "warm_input \<Rightarrow> render_request \<Rightarrow> prepared" where
  "prepare x req =
     (if \<not> supported_tokenizer (wi_tokenizer x) then Inr None
      else case render_speculative_tool_prefix (wi_pinned x) (wi_renderer x) req of
        Inl e \<Rightarrow> Inl e
      | Inr None \<Rightarrow> Inr None
      | Inr (Some prompt) \<Rightarrow> encode_prefix (wi_tokenizer x) prompt)"

definition prepared_for :: "warm_input \<Rightarrow> message \<Rightarrow> token_id list \<Rightarrow> bool" where
  "prepared_for x m toks = (prepare x (push_message (wi_request x) m) = Inr (Some toks))"

definition closure_ok :: "warm_input \<Rightarrow> message \<Rightarrow> closure \<Rightarrow> bool" where
  "closure_ok x m pc =
     (case pc of (y, req, stage) \<Rightarrow>
        y = x \<and> req = push_message (wi_request x) m \<and>
        (case stage of
           C_Begin \<Rightarrow> True
         | C_Tokenizer \<Rightarrow> True
         | C_Render \<Rightarrow> supported_tokenizer (wi_tokenizer x)
         | C_Rendered p \<Rightarrow> supported_tokenizer (wi_tokenizer x)
             \<and> render_speculative_tool_prefix (wi_pinned x) (wi_renderer x) req = Inr (Some p)
         | C_Encode p \<Rightarrow> supported_tokenizer (wi_tokenizer x)
             \<and> render_speculative_tool_prefix (wi_pinned x) (wi_renderer x) req = Inr (Some p)))"

lemma closure_ok_run:
  assumes "closure_ok x m pc"
  shows "run_closure c pc = Inl pc' \<Longrightarrow> closure_ok x m pc'"
    and "run_closure c pc = Inr (Inr (Some toks)) \<Longrightarrow> prepared_for x m toks"
proof -
  obtain y req stage where pc: "pc = (y, req, stage)" by (cases pc)
  show "run_closure c pc = Inl pc' \<Longrightarrow> closure_ok x m pc'"
    using assms pc
    by (cases stage) (auto simp: closure_ok_def split: if_splits sum.splits option.splits)
  show "run_closure c pc = Inr (Inr (Some toks)) \<Longrightarrow> prepared_for x m toks"
    using assms pc
    by (cases stage) (auto simp: closure_ok_def prepared_for_def prepare_def split: if_splits sum.splits option.splits)
qed

interpretation fixed: warm_kit fix_kit prepared_for closure_ok
proof
  show "closure_ok x m (kit_start fix_kit x m)" for x m
    by (simp add: closure_ok_def fix_kit_def)
qed (auto simp: fix_kit_def dest: closure_ok_run)

text \<open>The whole run of a closure, given what its token reads at its five steps.\<close>

lemma run_closure_whole:
  "run_job fix_kit [c1, c2, c3, c4, c5] (kit_start fix_kit x m) =
     Inr (if c1 \<or> c2 \<or> \<not> supported_tokenizer (wi_tokenizer x) then Inr None
          else case render_speculative_tool_prefix (wi_pinned x) (wi_renderer x) (push_message (wi_request x) m) of
            Inl e \<Rightarrow> Inl e
          | Inr None \<Rightarrow> Inr None
          | Inr (Some prompt) \<Rightarrow> if c4 then Inr None else encode_prefix (wi_tokenizer x) prompt)"
proof -
  have start: "kit_start fix_kit x m = (x, push_message (wi_request x) m, C_Begin)" "kit_run fix_kit = run_closure"
    by (simp_all add: fix_kit_def)
  show ?thesis
  proof (cases "render_speculative_tool_prefix (wi_pinned x) (wi_renderer x) (push_message (wi_request x) m)")
    case (Inl e)
    then show ?thesis by (simp add: start)
  next
    case (Inr r)
    then show ?thesis by (cases r) (simp_all add: start)
  qed
qed

section \<open>A sample warmup\<close>

text \<open>
  One user message, the tool-calling stream of \<open>Tool_Turn\<close>, and a tokenizer that maps the
  closing bracket to the id of the special token and every other byte to nothing.
\<close>

definition sample_encode :: "string \<Rightarrow> token_id list" where
  "sample_encode t = concat (map (\<lambda>c. if c = CHR 0x3E then [im_end_id] else []) t)"

definition sample_tokenizer :: tokenizer where
  "sample_tokenizer =
     \<lparr>tk_prefix_cache_ok = True, tk_special_added = Inr 0,
      tk_token_to_id = (\<lambda>_. Inr (Some im_end_id)), tk_special_ids = Inr [im_end_id],
      tk_encode = (\<lambda>t. Inr (sample_encode t))\<rparr>"

definition sample_message_protocol :: "message protocol" where
  "sample_message_protocol =
     \<lparr>delta_value = sample_delta_value, reason_value = sample_reason_value,
      parse_json = (\<lambda>t. if t = ''{x}'' then Some (JObject []) else None),
      assistant_of = (\<lambda>_. Some (sample_turn ! 1))\<rparr>"

definition sample_input :: warm_input where
  "sample_input =
     \<lparr>wi_protocol = sample_message_protocol,
      wi_options = \<lparr>wo_nvext = Some (Some (Some True)), wo_n = None, wo_continue_final = None\<rparr>,
      wi_identity = True, wi_items = map frame_of sample_stream, wi_renderer = sample_renderer,
      wi_pinned = [], wi_tokenizer = sample_tokenizer,
      wi_request = sample_render_request\<lparr>rq_messages := Some [sample_turn ! 0]\<rparr>\<rparr>"

lemma sample_turn_sent:
  "snd (maybe_wrap_stream (wi_protocol sample_input) (wi_options sample_input) (wi_identity sample_input)
     (wi_items sample_input)) = Some (sample_turn ! 1)"
  by code_simp

lemma sample_pushed: "push_message (wi_request sample_input) (sample_turn ! 1) = sample_render_request"
  by (simp add: push_message_def sample_input_def sample_render_request_def sample_turn_def)

lemma sample_tokenizer_supported: "supported_tokenizer sample_tokenizer"
  by (simp add: supported_tokenizer_def sample_tokenizer_def sample_encode_def)

lemma sample_prepared:
  "prepare sample_input sample_render_request = Inr (Some (sample_encode sample_prefix))"
proof -
  have "sample_encode sample_prefix \<noteq> []" "last (sample_encode sample_prefix) = im_end_id"
    by (simp_all add: sample_encode_def sample_prefix_def im_start_def im_end_def)
  moreover have "sample_encode ''<|im_end|>'' = [im_end_id]" by (simp add: sample_encode_def)
  moreover have "rd_template sample_renderer n = Inr []" for n by (simp add: sample_renderer_def)
  ultimately show ?thesis
    using sample_evaluates(1) sample_tokenizer_supported
    by (simp add: prepare_def sample_input_def render_speculative_tool_prefix_def Let_def encode_prefix_def
        sample_tokenizer_def)
qed

lemma sample_dispatched:
  "\<exists>w. reachable world_init (world_step fix_kit) w
     \<and> w_sent w = [(0, warm_request [] (sample_encode sample_prefix))] \<and> map t_input (w_tasks w) = [sample_input]"
proof -
  have turn: "kit_turn fix_kit sample_input = Some (sample_turn ! 1)"
    using sample_turn_sent by (simp add: fix_kit_def)
  have "replicate 5 False = [False, False, False, False, False]" by (simp add: numeral_eq_Suc)
  then have "run_job fix_kit (replicate 5 False) (kit_start fix_kit sample_input (sample_turn ! 1)) =
      Inr (prepare sample_input sample_render_request)"
    by (simp only: run_closure_whole sample_pushed prepare_def if_False simp_thms)
  with turn have "\<exists>w. reachable world_init (world_step fix_kit) w
     \<and> w_sent w = [(0, warm_request (kit_model fix_kit sample_input) (sample_encode sample_prefix))]
     \<and> map t_input (w_tasks w) = [sample_input]"
    by (intro lone_dispatch) (simp_all add: sample_prepared)
  moreover have "kit_model fix_kit sample_input = []"
    by (simp add: fix_kit_def sample_input_def sample_render_request_def)
  ultimately show ?thesis by simp
qed

section \<open>Properties\<close>

text \<open>
  C31.  The wrapper is transparent and careful: the client sees exactly the items of the stream,
  in order, whatever they are; and a message is handed to the warmup only if the request asked
  for it and is eligible, no item carried an error, and the accumulator accepted the chunks of
  the whole stream.
\<close>

theorem wrapped_stream_is_transparent:
  "fst (maybe_wrap_stream P r identity items) = items
   \<and> (snd (maybe_wrap_stream P r identity items) = Some m \<longleftrightarrow>
        wraps_stream r identity \<and> list_all (\<lambda>f. \<not> failed_item f) items
        \<and> Option.bind (run_turn P (item_chunks items)) (finish P) = Some m)"
  using watch_sent_clean [of P "Some turn_default" items m]
  by (auto simp: maybe_wrap_stream_def run_stage_def watch_emits watch_final_run run_turn_def)

text \<open>
  C3.  What is dispatched: in every reachable state of the system, every request that has been
  sent comes from a task whose client turn was accepted as complete, it asks for one token, its
  token ids are those of the closed prefix of the conversation with that turn, as the
  preprocessing computes it without interference, and no task has sent two.
\<close>

theorem dispatched_is_prepared:
  assumes "reachable world_init (world_step fix_kit) w" "(i, r) \<in> set (w_sent w)"
  shows "i < length (w_tasks w) \<and> sent_by w i = 1 \<and>
     (let x = t_input (w_tasks w ! i) in
      \<exists>m toks. snd (maybe_wrap_stream (wi_protocol x) (wi_options x) (wi_identity x) (wi_items x)) = Some m
        \<and> prepare x (push_message (wi_request x) m) = Inr (Some toks)
        \<and> r = \<lparr>pf_model = rq_model (wi_request x), pf_token_ids = toks, pf_max_tokens = Some 1\<rparr>)"
proof -
  have "sent_by w i \<noteq> 0" using assms(2) by (force simp: sent_by_def filter_empty_conv)
  moreover have "sent_by w i \<le> 1" by (rule fixed.sent_once [OF assms(1)])
  ultimately have "sent_by w i = 1" by simp
  with fixed.sent_is_prepared [OF assms] show ?thesis
    by (simp add: Let_def fix_kit_def prepared_for_def warm_request_def)
qed

theorem dispatched_is_prepared_witness:
  "\<exists>w. reachable world_init (world_step fix_kit) w \<and> sent_by w 0 = 1
     \<and> (\<exists>m toks. prepare sample_input (push_message (wi_request sample_input) m) = Inr (Some toks)
          \<and> (0, \<lparr>pf_model = [], pf_token_ids = toks, pf_max_tokens = Some 1\<rparr>) \<in> set (w_sent w))"
proof -
  obtain w where w: "reachable world_init (world_step fix_kit) w"
    "w_sent w = [(0, warm_request [] (sample_encode sample_prefix))]" "map t_input (w_tasks w) = [sample_input]"
    using sample_dispatched by (elim exE conjE)
  have "t_input (w_tasks w ! 0) = sample_input" using w(3) by auto
  with dispatched_is_prepared [OF w(1), of 0 "warm_request [] (sample_encode sample_prefix)"] w(2)
  have "sent_by w 0 = 1" "\<exists>m toks. prepare sample_input (push_message (wi_request sample_input) m) = Inr (Some toks)
      \<and> warm_request [] (sample_encode sample_prefix) =
          \<lparr>pf_model = rq_model (wi_request sample_input), pf_token_ids = toks, pf_max_tokens = Some 1\<rparr>"
    unfolding Let_def by auto
  moreover have "rq_model (wi_request sample_input) = []"
    by (simp add: sample_input_def sample_render_request_def)
  ultimately show ?thesis using w(1,2) by (metis list.set_intros(1))
qed

text \<open>
  C32.  Admission: in every reachable state the free permits and the running closures add up to
  the limit, so at most four preprocessings run at any time, over all models and replaced
  owners; a cancelled or timed-out task does not give its permit back before its closure has
  returned.
\<close>

theorem blocking_prefills_bounded:
  assumes "reachable world_init (world_step fix_kit) w"
  shows "length (w_jobs w) \<le> 4 \<and> w_permits w = 4 - length (w_jobs w)"
  using fixed.permits_bound [OF assms] by (simp add: max_blocking_prefills_def)

theorem blocking_prefills_bounded_witness:
  "\<exists>w. reachable world_init (world_step fix_kit) w \<and> w_sent w \<noteq> [] \<and> length (w_jobs w) \<le> 4"
proof -
  obtain w where w: "reachable world_init (world_step fix_kit) w"
    "w_sent w = [(0, warm_request [] (sample_encode sample_prefix))]" "map t_input (w_tasks w) = [sample_input]"
    using sample_dispatched by (elim exE conjE)
  have "w_sent w \<noteq> []" "length (w_jobs w) \<le> 4" using w(2) blocking_prefills_bounded [OF w(1)] by simp_all
  with w(1) show ?thesis by (intro exI conjI)
qed


text \<open>
  C1.  The warmed tokens are a prefix of the tokens of the continued conversation.  Assume that
  the template engine uses the pinned template, that the placeholder parses to a tool message
  with the marker as its text, and that the tokenizer never merges across the closing special
  token.  Then the token ids prepared for a turn are a prefix of the ids the normal path computes
  (it removes NUL characters before encoding) for that turn followed by any tool results.
\<close>

theorem warmed_tokens_are_exact:
  assumes "rd_render (wi_renderer x) = pinned_render pr view tools thinking"
    and "\<forall>call_id t. rd_parse_message (wi_renderer x) (tool_marker_value call_id) = Inr t \<longrightarrow>
           role_is ''tool'' (view t) \<and> message_text (view t) = marker"
    and "\<forall>a b. suffix im_end a \<longrightarrow> tk_encode (wi_tokenizer x) (a @ b) =
           (case tk_encode (wi_tokenizer x) a of
              Inl e \<Rightarrow> Inl e
            | Inr ids \<Rightarrow> map_sum id (\<lambda>ids'. ids @ ids') (tk_encode (wi_tokenizer x) b))"
    and "prepare x req = Inr (Some toks)" "rq_messages req = Some ms"
    and "results \<noteq> []" "list_all (\<lambda>t. role_is ''tool'' (view t)) results"
    and "rd_render (wi_renderer x) (req\<lparr>rq_messages := Some (ms @ results), rq_generation := g\<rparr>) = Inr full"
    and "tk_encode (wi_tokenizer x) (remove_nul full) = Inr ids"
  shows "prefix toks ids \<and> toks \<noteq> [] \<and> last toks = im_end_id"
proof -
  obtain p where p: "qwen_tool_prefix (wi_renderer x) req = Inr (Some p)"
    and toks: "encode_prefix (wi_tokenizer x) p = Inr (Some toks)"
    using assms(4)
    by (auto simp: prepare_def render_speculative_tool_prefix_def Let_def
        split: if_splits sum.splits option.splits)
  have exact: "prefix p full" "suffix im_end p" "CHR 0x00 \<notin> set p"
    using qwen_tool_prefix_exact [OF assms(1,2) p assms(5-8)] by simp_all
  then obtain b where b: "remove_nul full = p @ b"
    using remove_nul_prefix by (auto simp: prefix_def)
  have *: "tk_encode (wi_tokenizer x) p = Inr toks" "toks \<noteq> [] \<and> last toks = im_end_id"
    using toks by (auto simp: encode_prefix_def split: sum.splits if_splits)
  have "map_sum id (\<lambda>ids'. toks @ ids') (tk_encode (wi_tokenizer x) b) = Inr ids"
    using assms(3,9) exact(2) *(1) by (simp add: b)
  then show ?thesis
    using *(2) by (cases "tk_encode (wi_tokenizer x) b") auto
qed

theorem warmed_tokens_are_exact_witness:
  "\<exists>ids. prefix (sample_encode sample_prefix) ids \<and> last (sample_encode sample_prefix) = im_end_id"
proof -
  have "sample_encode (a @ b) = sample_encode a @ sample_encode b" for a b
    by (simp add: sample_encode_def)
  then show ?thesis
    using warmed_tokens_are_exact [where x = sample_input and ms = sample_turn and results = "[sample_result]"
        and req = sample_render_request and g = True and view = msg_value
        and toks = "sample_encode sample_prefix", OF _ _ _ sample_prepared]
      sample_evaluates(2) sample_renderer_render sample_renderer_marker
    by (auto simp: sample_input_def sample_tokenizer_def sample_render_request_def sample_result_def role_is_def
        json_object_def om_of_list_def om_get_Cons)
qed


end
