(* ===== verification/Stock_Warmup.thy ===== *)
theory Stock_Warmup
  imports Tool_Warmup
begin

text \<open>
  The warmup the fix replaces, in its two versions:
  \<open>current-code/sources/main/speculative_prefill.rs\<close>, which has the life cycle of
  \<open>Warmup\<close>, and \<open>current-code/sources/release/speculative_prefill.rs\<close>, which spawns
  its task and forgets it.  Both collect the text of the response only and render it with a
  request of their own.
\<close>

section \<open>The stream\<close>

text \<open>
  The closure of \<open>stream.map\<close>: text is accumulated over all choices, and sent at the first
  finish reason.  The state is the text and what has been sent.
\<close>

definition stock_choice :: "choice \<Rightarrow> string \<times> string option \<Rightarrow> string \<times> string option" where
  "stock_choice c st =
     (let (text, sent) = st;
          text' = (case d_content (ch_delta c) of Some (Text t) \<Rightarrow> text @ t | _ \<Rightarrow> text) in
      if is_some (ch_finish c) \<and> sent = None then (text', Some text') else (text', sent))"

definition stock_item :: "frame \<Rightarrow> string \<times> string option \<Rightarrow> string \<times> string option" where
  "stock_item f st =
     (case a_data f of None \<Rightarrow> st | Some resp \<Rightarrow> fold stock_choice (k_choices resp) st)"

definition stock_wrap_stream :: "warm_options \<Rightarrow> frame list \<Rightarrow> frame list \<times> string option" where
  "stock_wrap_stream r items =
     (if speculative_enabled r then (items, snd (fold stock_item items ([], None))) else (items, None))"

section \<open>The request that is rendered\<close>

text \<open>\<open>SpeculativePrefillRequest\<close>: what it does not define has the defaults of the trait.\<close>

definition speculative_prefill_request :: "message list \<Rightarrow> render_request" where
  "speculative_prefill_request ms =
     \<lparr>rq_model = ''speculative_prefill'', rq_messages = Some ms, rq_tools = None, rq_tool_choice = None,
      rq_response_format = None, rq_reasoning_effort = None, rq_args = None, rq_generation = False\<rparr>"

text \<open>
  What a task captures; \<open>si_assistant\<close> is the assistant message with a text and no other
  field.
\<close>

record stock_input =
  si_options :: warm_options
  si_items :: "frame list"
  si_messages :: "message list"
  si_assistant :: "string \<Rightarrow> message"
  si_renderer :: renderer
  si_tokenizer :: tokenizer

definition stock_request :: "stock_input \<Rightarrow> string \<Rightarrow> render_request" where
  "stock_request x text = speculative_prefill_request (si_messages x @ [si_assistant x text])"

text \<open>The release version: render, encode, send.\<close>

definition release_prefill_task :: "stock_input \<Rightarrow> string \<Rightarrow> string + prefill_request" where
  "release_prefill_task x text =
     (case rd_render (si_renderer x) (stock_request x text) of
        Inl e \<Rightarrow> Inl e
      | Inr prompt \<Rightarrow>
          (case tk_encode (si_tokenizer x) prompt of
             Inl e \<Rightarrow> Inl e
           | Inr ids \<Rightarrow> Inr (warm_request ''speculative_prefill'' ids)))"

text \<open>The main version: the same in a closure that reads its token twice.\<close>

datatype stock_pc = S_Begin | S_Render | S_Rendered string | S_Encode string

type_synonym stock_closure = "stock_input \<times> render_request \<times> stock_pc"

fun run_stock_closure :: "bool \<Rightarrow> stock_closure \<Rightarrow> stock_closure + prepared" where
  "run_stock_closure stop (x, req, S_Begin) = (if stop then Inr (Inr None) else Inl (x, req, S_Render))"
| "run_stock_closure stop (x, req, S_Render) =
     (case rd_render (si_renderer x) req of
        Inl e \<Rightarrow> Inr (Inl e)
      | Inr prompt \<Rightarrow> Inl (x, req, S_Rendered prompt))"
| "run_stock_closure stop (x, req, S_Rendered prompt) =
     (if stop then Inr (Inr None) else Inl (x, req, S_Encode prompt))"
| "run_stock_closure stop (x, req, S_Encode prompt) =
     Inr (map_sum id Some (tk_encode (si_tokenizer x) prompt))"

definition stock_kit :: "(stock_input, string, stock_closure) kit" where
  "stock_kit =
     \<lparr>kit_turn = (\<lambda>x. snd (stock_wrap_stream (si_options x) (si_items x))),
      kit_start = (\<lambda>x text. (x, stock_request x text, S_Begin)),
      kit_run = run_stock_closure,
      kit_model = (\<lambda>_. ''speculative_prefill'')\<rparr>"

text \<open>The tasks of the main version, in the life cycle they share with the fix.\<close>

definition main_step :: "(stock_input, string, stock_closure) world \<Rightarrow> (stock_input, string, stock_closure) world \<Rightarrow> bool" where
  "main_step = world_step stock_kit"

definition released_for :: "stock_input \<Rightarrow> string \<Rightarrow> token_id list \<Rightarrow> bool" where
  "released_for x text toks = (release_prefill_task x text = Inr (warm_request ''speculative_prefill'' toks))"

definition stock_closure_ok :: "stock_input \<Rightarrow> string \<Rightarrow> stock_closure \<Rightarrow> bool" where
  "stock_closure_ok x text pc =
     (case pc of (y, req, stage) \<Rightarrow>
        y = x \<and> req = stock_request x text \<and>
        (case stage of
           S_Begin \<Rightarrow> True
         | S_Render \<Rightarrow> True
         | S_Rendered p \<Rightarrow> rd_render (si_renderer x) req = Inr p
         | S_Encode p \<Rightarrow> rd_render (si_renderer x) req = Inr p))"

lemma stock_closure_ok_run:
  assumes "stock_closure_ok x text pc"
  shows "run_stock_closure c pc = Inl pc' \<Longrightarrow> stock_closure_ok x text pc'"
    and "run_stock_closure c pc = Inr (Inr (Some toks)) \<Longrightarrow> released_for x text toks"
proof -
  obtain y req stage where pc: "pc = (y, req, stage)" by (cases pc)
  show "run_stock_closure c pc = Inl pc' \<Longrightarrow> stock_closure_ok x text pc'"
    using assms pc by (cases stage) (auto simp: stock_closure_ok_def split: if_splits sum.splits)
  show "run_stock_closure c pc = Inr (Inr (Some toks)) \<Longrightarrow> released_for x text toks"
    using assms pc
    by (cases stage; cases "tk_encode (si_tokenizer x) (case stage of S_Encode p \<Rightarrow> p | _ \<Rightarrow> [])")
      (auto simp: stock_closure_ok_def released_for_def release_prefill_task_def split: if_splits sum.splits)
qed

interpretation stock: warm_kit stock_kit released_for stock_closure_ok
proof
  show "stock_closure_ok x t (kit_start stock_kit x t)" for x t
    by (simp add: stock_closure_ok_def stock_kit_def)
qed (auto simp: stock_kit_def dest: stock_closure_ok_run)

section \<open>What the stock warmup sees of a turn\<close>

text \<open>A turn reduced to its text: tool calls, function calls and reasoning taken away.\<close>

definition text_only_delta :: "delta \<Rightarrow> delta" where
  "text_only_delta d = d\<lparr>d_tool_calls := None, d_function_call := None, d_reasoning := None\<rparr>"

definition text_only :: "frame \<Rightarrow> frame" where
  "text_only f = f\<lparr>a_data := map_option (\<lambda>k. k\<lparr>k_choices :=
     map (\<lambda>c. c\<lparr>ch_delta := text_only_delta (ch_delta c)\<rparr>) (k_choices k)\<rparr>) (a_data f),
     a_error := None, a_event := None\<rparr>"

lemma stock_choice_text_only: "stock_choice (c\<lparr>ch_delta := text_only_delta (ch_delta c)\<rparr>) st = stock_choice c st"
  by (simp add: stock_choice_def text_only_delta_def)

lemma stock_item_text_only: "stock_item (text_only f) = stock_item f"
proof
  have "(\<lambda>c. stock_choice (c\<lparr>ch_delta := text_only_delta (ch_delta c)\<rparr>)) = stock_choice"
    by (intro ext) (rule stock_choice_text_only)
  then show "stock_item (text_only f) st = stock_item f st" for st
    by (simp add: stock_item_def text_only_def fold_map comp_def split: option.split)
qed

text \<open>
  The stock warmup is blind to tool calls: a stream and the same stream without its tool
  calls, function calls, reasoning and error marks make it send the same message.  What it
  renders for a tool-calling turn is therefore the rendering of a turn without calls, and an
  error after the text does not prevent the dispatch.
\<close>

lemma stock_ignores_tool_calls:
  "snd (stock_wrap_stream r (map text_only items)) = snd (stock_wrap_stream r items)"
  by (simp add: stock_wrap_stream_def fold_map comp_def stock_item_text_only)

text \<open>
  C36.  The main version sends what the release version sends: in every reachable state of the
  bounded life cycle, each dispatched request is the one the fire-and-forget task would have
  sent for the text of that turn, and no turn sends two.
\<close>

theorem main_refines_release:
  assumes "reachable world_init main_step w" "(i, r) \<in> set (w_sent w)"
  shows "sent_by w i \<le> 1 \<and>
     (let x = t_input (w_tasks w ! i) in
      \<exists>text. snd (stock_wrap_stream (si_options x) (si_items x)) = Some text
        \<and> release_prefill_task x text = Inr r)"
  using stock.sent_is_prepared [OF assms [unfolded main_step_def]] stock.sent_once [OF assms(1) [unfolded main_step_def]]
  by (auto simp: Let_def stock_kit_def released_for_def)

definition sample_stock :: stock_input where
  "sample_stock =
     \<lparr>si_options = \<lparr>wo_nvext = Some (Some (Some True)), wo_n = None, wo_continue_final = None\<rparr>,
      si_items = map frame_of sample_stream, si_messages = [],
      si_assistant = (\<lambda>t. \<lparr>msg_value = JString t, msg_calls = None\<rparr>),
      si_renderer = sample_renderer\<lparr>rd_render := (\<lambda>_. Inr ''>'')\<rparr>, si_tokenizer = sample_tokenizer\<rparr>"

lemma sample_stock_dispatched:
  "\<exists>w. reachable world_init main_step w
     \<and> w_sent w = [(0, warm_request (kit_model stock_kit sample_stock) [im_end_id])]
     \<and> map t_input (w_tasks w) = [sample_stock]"
  unfolding main_step_def
proof (rule lone_dispatch)
  show "kit_turn stock_kit sample_stock = Some ''hello''" by code_simp
  show "run_job stock_kit (replicate 4 False) (kit_start stock_kit sample_stock ''hello'') = Inr (Inr (Some [im_end_id]))"
    by (simp add: stock_kit_def sample_stock_def numeral_eq_Suc sample_tokenizer_def sample_encode_def)
qed

theorem main_refines_release_witness:
  "\<exists>w r. reachable world_init main_step w \<and> (0, r) \<in> set (w_sent w)
     \<and> (\<exists>text. snd (stock_wrap_stream (si_options sample_stock) (si_items sample_stock)) = Some text
          \<and> release_prefill_task sample_stock text = Inr r)"
proof -
  obtain w where w: "reachable world_init main_step w"
    "w_sent w = [(0, warm_request (kit_model stock_kit sample_stock) [im_end_id])]"
    "map t_input (w_tasks w) = [sample_stock]"
    using sample_stock_dispatched by (elim exE conjE)
  have x: "t_input (w_tasks w ! 0) = sample_stock" using w(3) by auto
  have "(0, warm_request (kit_model stock_kit sample_stock) [im_end_id]) \<in> set (w_sent w)"
    using w(2) by simp
  with main_refines_release [OF w(1) this] w(1) show ?thesis
    unfolding Let_def x by blast
qed

end
