(* ===== verification/Warm_Progress.thy ===== *)
theory Warm_Progress
  imports Stock_Warmup
begin

text \<open>
  Progress of the warmups (\<open>fix/dynamo/speculative_prefill.rs\<close>): left to themselves, without
  new client turns, the tasks and closures come to rest after a bounded number of steps, and at
  rest no task, closure or permit is left behind.
\<close>

section \<open>Ranks\<close>

text \<open>
  How far a task is from its end.  \<open>R\<close> bounds the steps of a closure, which a task that is
  still before its admission may start.
\<close>

primrec pc_rank :: "nat \<Rightarrow> 'm warm_pc \<Rightarrow> nat" where
  "pc_rank R (W_Start m) = 6 + R"
| "pc_rank R (W_Await m) = 5"
| "pc_rank R (W_Joined m r) = 4"
| "pc_rank R (W_Built m toks) = 3"
| "pc_rank R W_Generate = 2"
| "pc_rank R W_Drain = 1"

primrec phase_rank :: "nat \<Rightarrow> 'm phase \<Rightarrow> nat" where
  "phase_rank R T_Wait = 8 + R"
| "phase_rank R (T_Warm pc) = Suc (pc_rank R pc)"
| "phase_rank R (T_Wind pc) = pc_rank R pc"
| "phase_rank R T_Done = 0"

definition task_rank :: "nat \<Rightarrow> ('i, 'm) task \<Rightarrow> nat" where
  "task_rank R t = phase_rank R (t_phase t)"

definition world_rank :: "nat \<Rightarrow> ('j \<Rightarrow> nat) \<Rightarrow> ('i, 'm, 'j) world \<Rightarrow> nat" where
  "world_rank R rank w =
     sum_list (map (task_rank R) (w_tasks w)) + sum_list (map (\<lambda>j. rank (j_pc j)) (w_jobs w))"

text \<open>
  A step of the system on its own: no new task, no owner dropped.  At rest every task is done,
  no closure runs and all permits are free.
\<close>

definition own_step :: "('i, 'm, 'j) kit \<Rightarrow> ('i, 'm, 'j) world \<Rightarrow> ('i, 'm, 'j) world \<Rightarrow> bool" where
  "own_step K w w' =
     (world_step K w w' \<and> w' \<noteq> w \<and> w_cancel w' = w_cancel w \<and> length (w_tasks w') = length (w_tasks w))"

definition at_rest :: "('i, 'm, 'j) world \<Rightarrow> bool" where
  "at_rest w =
     (list_all (\<lambda>t. t_phase t = T_Done) (w_tasks w) \<and> w_jobs w = [] \<and> w_permits w = max_blocking_prefills)"

lemma sum_list_update_less:
  fixes f :: "'a \<Rightarrow> nat"
  assumes "i < length xs" "f x < f (xs ! i)"
  shows "sum_list (map f (xs[i := x])) < sum_list (map f xs)"
  using assms by (induction xs arbitrary: i) (auto split: nat.split)

lemma sum_list_update_add:
  fixes f :: "'a \<Rightarrow> nat"
  assumes "i < length xs"
  shows "sum_list (map f (xs[i := x])) + f (xs ! i) = sum_list (map f xs) + f x"
  using assms by (induction xs arbitrary: i) (auto split: nat.split)

lemma sum_list_drop_nth:
  fixes f :: "'a \<Rightarrow> nat"
  assumes "n < length xs"
  shows "sum_list (map f (take n xs @ drop (Suc n) xs)) + f (xs ! n) = sum_list (map f xs)"
proof -
  have "xs = take n xs @ xs ! n # drop (Suc n) xs" using assms by (rule id_take_nth_drop)
  then have "sum_list (map f xs) = sum_list (map f (take n xs @ xs ! n # drop (Suc n) xs))" by simp
  then show ?thesis by simp
qed

lemma sum_list_map_le:
  fixes f :: "'a \<Rightarrow> nat"
  assumes "\<And>x. f x \<le> b"
  shows "sum_list (map f xs) \<le> b * length xs"
  using assms by (induction xs) (auto simp: add_mono)

lemma warm_pc_rank_pos: "0 < pc_rank R pc"
  by (cases pc) simp_all

lemma wind_down_rank:
  assumes "t_phase t = T_Warm pc"
  shows "task_rank R (wind_down pc t) < task_rank R t"
  using assms by (auto simp: task_rank_def wind_down_def stop_downstream_def split: option.split)

lemma task_step_rank:
  assumes "task_step K w t t'"
  shows "task_rank R t' < task_rank R t"
  using assms
proof cases
  case (warm_drain pc pc' c)
  from warm_drain(3) show ?thesis
    by cases (simp_all add: warm_drain task_rank_def warm_phase_def)
next
  case (wind_drain pc pc' c)
  from wind_drain(3) show ?thesis
    by cases (simp_all add: wind_drain task_rank_def warm_phase_def)
next
  case (wind_expired pc)
  then show ?thesis using warm_pc_rank_pos [of R pc] by (simp add: task_rank_def)
qed (simp_all add: wind_down_rank, simp_all add: task_rank_def)

lemma deliver_rank: "task_rank R (deliver r t) \<le> task_rank R t"
  by (simp add: deliver_def task_rank_def split: phase.split warm_pc.split)

section \<open>Closures that return\<close>

text \<open>The contract: a closure has at most \<open>R\<close> steps to go, and every step uses one up.\<close>

locale returning_kit =
  fixes K :: "('i, 'm, 'j) kit" and rank :: "'j \<Rightarrow> nat" and R :: nat
  assumes rank_le: "rank pc \<le> R"
    and rank_pos: "0 < rank pc"
    and rank_run: "kit_run K c pc = Inl pc' \<Longrightarrow> rank pc' < rank pc"
begin

lemma set_task_rank:
  assumes "i < length (w_tasks w)" "task_rank R t \<le> task_rank R (w_tasks w ! i)"
  shows "world_rank R rank (set_task i t w) \<le> world_rank R rank w"
  using assms sum_list_update_add [OF assms(1), of "task_rank R" t]
  by (simp add: world_rank_def set_task_def)

lemma finish_job_rank:
  assumes "n < length (w_jobs w)" "j_owner (w_jobs w ! n) < length (w_tasks w)"
  shows "world_rank R rank (finish_job n r w) < world_rank R rank w"
proof -
  let ?i = "j_owner (w_jobs w ! n)"
  let ?w = "w\<lparr>w_jobs := take n (w_jobs w) @ drop (Suc n) (w_jobs w), w_permits := w_permits w + 1\<rparr>"
  have "world_rank R rank ?w < world_rank R rank w"
    using sum_list_drop_nth [OF assms(1), of "\<lambda>j. rank (j_pc j)"] rank_pos [of "j_pc (w_jobs w ! n)"]
    by (simp add: world_rank_def)
  moreover have "world_rank R rank (set_task ?i (deliver r (w_tasks w ! ?i)) ?w) \<le> world_rank R rank ?w"
    using assms(2) by (intro set_task_rank) (simp_all add: deliver_rank)
  ultimately show ?thesis by (simp add: finish_job_def Let_def)
qed

lemma own_step_rank:
  assumes "own_step K w w'" "\<forall>j \<in> set (w_jobs w). j_owner j < length (w_tasks w)"
  shows "world_rank R rank w' < world_rank R rank w"
proof -
  from assms(1) have st: "world_step K w w'" and new: "w' \<noteq> w" "w_cancel w' = w_cancel w"
    "length (w_tasks w') = length (w_tasks w)" by (simp_all add: own_step_def)
  from st show ?thesis
  proof cases
    case (spawn g x)
    with new(3) show ?thesis by simp
  next
    case (drop_owner g)
    with new(2) have "w' = w" by (metis world.update_convs(1) world.surjective world.ext_inject)
    with new(1) show ?thesis by simp
  next
    case (task i t)
    then show ?thesis
      using task_step_rank [OF task(3), of R] sum_list_update_less [of i "w_tasks w" "task_rank R" t]
      by (simp add: world_rank_def set_task_def)
  next
    case (admit i t m)
    then show ?thesis
      using sum_list_update_add [of i "w_tasks w" "task_rank R" "t\<lparr>t_phase := T_Warm (W_Await m)\<rparr>"]
        rank_le [of "kit_start K (t_input t) m"]
      by (simp add: world_rank_def set_task_def task_rank_def)
  next
    case (job_runs n j pc)
    then show ?thesis
      using sum_list_update_less [of n "w_jobs w" "\<lambda>j. rank (j_pc j)" "j\<lparr>j_pc := pc\<rparr>"] rank_run [OF job_runs(4)]
      by (simp add: world_rank_def)
  next
    case (job_returns n j r)
    then have "j_owner (w_jobs w ! n) < length (w_tasks w)" using assms(2) nth_mem by blast
    with job_returns show ?thesis by (simp only: finish_job_rank)
  next
    case (job_panics n)
    then have "j_owner (w_jobs w ! n) < length (w_tasks w)" using assms(2) nth_mem by blast
    with job_panics show ?thesis by (simp only: finish_job_rank)
  next
    case (dispatch i t m toks)
    then show ?thesis
      using sum_list_update_less [of i "w_tasks w" "task_rank R"
          "t\<lparr>t_phase := T_Warm W_Generate, t_slot := Some Request_Context\<rparr>"]
      by (simp add: world_rank_def set_task_def task_rank_def)
  qed
qed

lemma world_rank_le: "world_rank R rank (w :: ('i, 'm, 'j) world) \<le> (8 + R) * length (w_tasks w) + R * length (w_jobs w)"
proof -
  have "Suc (pc_rank R pc) \<le> 8 + R" "pc_rank R pc \<le> 8 + R" for pc :: "'m warm_pc"
    by (cases pc; simp)+
  then have "task_rank R t \<le> 8 + R" for t :: "('i, 'm) task"
    by (cases "t_phase t") (simp_all add: task_rank_def)
  then have "sum_list (map (task_rank R) (w_tasks w)) \<le> (8 + R) * length (w_tasks w)"
    by (rule sum_list_map_le)
  moreover have "sum_list (map (\<lambda>j. rank (j_pc j)) (w_jobs w)) \<le> R * length (w_jobs w)"
    by (rule sum_list_map_le) (rule rank_le)
  ultimately show ?thesis by (simp add: world_rank_def)
qed

end

text \<open>A life cycle whose closures return, on top of the contract of its results.\<close>

locale live_kit = warm_kit K Q J + returning_kit K rank R
  for K :: "('i, 'm, 'j) kit" and Q :: "'i \<Rightarrow> 'm \<Rightarrow> token_id list \<Rightarrow> bool"
    and J :: "'i \<Rightarrow> 'm \<Rightarrow> 'j \<Rightarrow> bool" and rank :: "'j \<Rightarrow> nat" and R :: nat
begin

lemma owners_exist:
  "world_inv K Q J w \<Longrightarrow> j \<in> set (w_jobs w) \<Longrightarrow> j_owner j < length (w_tasks w)"
  by (auto simp: world_inv_def job_ok_def)

lemma own_step_inv: "own_step K w w' \<Longrightarrow> world_inv K Q J w \<Longrightarrow> world_inv K Q J w'"
  by (auto simp: own_step_def intro: world_inv_step)

lemma own_steps_rank:
  assumes "(own_step K ^^ n) w w'" "world_inv K Q J w"
  shows "n + world_rank R rank w' \<le> world_rank R rank w \<and> world_inv K Q J w'"
  using assms
proof (induction n arbitrary: w')
  case 0
  then show ?case by simp
next
  case (Suc n)
  then obtain u where u: "(own_step K ^^ n) w u" "own_step K u w'" by auto
  with Suc have IH: "n + world_rank R rank u \<le> world_rank R rank w" "world_inv K Q J u" by auto
  with own_step_rank [OF u(2)] owners_exist own_step_inv [OF u(2)] show ?case by force
qed

lemma task_moves:
  assumes "i < length (w_tasks w)" "t_phase (w_tasks w ! i) \<noteq> T_Done"
  shows "\<exists>w'. own_step K w w'"
proof -
  let ?t = "w_tasks w ! i"
  have "\<exists>t'. task_step K w ?t t'"
  proof (cases "t_phase ?t")
    case T_Wait
    then show ?thesis using wait_closed by blast
  next
    case (T_Warm pc)
    then show ?thesis using warm_timeout by blast
  next
    case (T_Wind pc)
    then show ?thesis using wind_expired by blast
  qed (use assms(2) in simp)
  then obtain t' where t': "task_step K w ?t t'" ..
  then have "t' \<noteq> ?t" using task_step_rank by blast
  then have "set_task i t' w \<noteq> w"
    using assms(1) by (auto simp: set_task_def dest: arg_cong [where f = "\<lambda>v. w_tasks v ! i"])
  with task [OF assms(1) t'] show ?thesis
    by (intro exI [of _ "set_task i t' w"]) (simp add: own_step_def, simp add: set_task_def)
qed

lemma job_moves:
  assumes "w_jobs w \<noteq> []"
  shows "\<exists>w'. own_step K w w'"
proof -
  let ?j = "hd (w_jobs w)"
  have j: "0 < length (w_jobs w)" "w_jobs w ! 0 = ?j" using assms by (simp_all add: hd_conv_nth)
  show ?thesis
  proof (cases "kit_run K (cancelled w (w_tasks w ! j_owner ?j)) (j_pc ?j)")
    case (Inl pc)
    then have "pc \<noteq> j_pc ?j" using rank_run by blast
    then have "w\<lparr>w_jobs := (w_jobs w)[0 := ?j\<lparr>j_pc := pc\<rparr>]\<rparr> \<noteq> w"
      using j by (auto dest!: arg_cong [where f = "\<lambda>v. j_pc (w_jobs v ! 0)"])
    with job_runs [OF j Inl] show ?thesis
      by (intro exI [of _ "w\<lparr>w_jobs := (w_jobs w)[0 := ?j\<lparr>j_pc := pc\<rparr>]\<rparr>"]) (simp add: own_step_def)
  next
    case (Inr r)
    have "length (w_jobs (finish_job 0 r w)) < length (w_jobs w)"
      using j(1) by (simp add: finish_job_def Let_def set_task_def)
    then have "finish_job 0 r w \<noteq> w" by auto
    with job_returns [OF j Inr] show ?thesis
      by (intro exI [of _ "finish_job 0 r w"]) (simp add: own_step_def, simp add: finish_job_def Let_def set_task_def)
  qed
qed

lemma stuck_at_rest:
  assumes "world_inv K Q J w" "\<nexists>w'. own_step K w w'"
  shows "at_rest w"
proof -
  have "w_jobs w = []" using job_moves assms(2) by blast
  moreover from this have "w_permits w = max_blocking_prefills" using assms(1) by (simp add: world_inv_def)
  moreover have "list_all (\<lambda>t. t_phase t = T_Done) (w_tasks w)"
    using task_moves [of _ w] assms(2) by (simp only: list_all_length) blast
  ultimately show ?thesis by (simp add: at_rest_def)
qed

lemma rest_reached: "world_inv K Q J w \<Longrightarrow> \<exists>w'. (own_step K)\<^sup>*\<^sup>* w w' \<and> at_rest w'"
proof (induction "world_rank R rank w" arbitrary: w rule: less_induct)
  case less
  show ?case
  proof (cases "\<exists>u. own_step K w u")
    case True
    then obtain u where u: "own_step K w u" ..
    with less.prems have "world_rank R rank u < world_rank R rank w" "world_inv K Q J u"
      by (simp_all add: own_step_rank owners_exist own_step_inv)
    from less.hyps [OF this] u show ?thesis by (blast intro: converse_rtranclp_into_rtranclp)
  next
    case False
    with less.prems show ?thesis by (blast intro: stuck_at_rest)
  qed
qed

lemma comes_to_rest:
  assumes "world_inv K Q J w"
  shows "(own_step K ^^ n) w w' \<Longrightarrow> n \<le> (8 + R) * length (w_tasks w) + R * max_blocking_prefills"
    and "(own_step K)\<^sup>*\<^sup>* w w' \<Longrightarrow> \<nexists>u. own_step K w' u \<Longrightarrow> at_rest w'"
proof -
  have "length (w_jobs w) \<le> max_blocking_prefills" using assms by (simp add: world_inv_def)
  then have "R * length (w_jobs w) \<le> R * max_blocking_prefills" by simp
  with world_rank_le [of w]
  have "world_rank R rank w \<le> (8 + R) * length (w_tasks w) + R * max_blocking_prefills" by linarith
  then show "(own_step K ^^ n) w w' \<Longrightarrow> n \<le> (8 + R) * length (w_tasks w) + R * max_blocking_prefills"
    using own_steps_rank [OF _ assms, of n w'] by simp
  show "(own_step K)\<^sup>*\<^sup>* w w' \<Longrightarrow> \<nexists>u. own_step K w' u \<Longrightarrow> at_rest w'"
    using own_steps_rank [OF _ assms] stuck_at_rest by (auto simp: rtranclp_power)
qed

end

section \<open>Both versions return\<close>

definition closure_rank :: "closure \<Rightarrow> nat" where
  "closure_rank pc =
     (case snd (snd pc) of C_Begin \<Rightarrow> 5 | C_Tokenizer \<Rightarrow> 4 | C_Render \<Rightarrow> 3 | C_Rendered _ \<Rightarrow> 2 | C_Encode _ \<Rightarrow> 1)"

definition stock_rank :: "stock_closure \<Rightarrow> nat" where
  "stock_rank pc = (case snd (snd pc) of S_Begin \<Rightarrow> 4 | S_Render \<Rightarrow> 3 | S_Rendered _ \<Rightarrow> 2 | S_Encode _ \<Rightarrow> 1)"

lemma run_closure_rank: "run_closure c pc = Inl pc' \<Longrightarrow> closure_rank pc' < closure_rank pc"
  by (cases "(c, pc)" rule: run_closure.cases) (auto simp: closure_rank_def split: if_splits sum.splits option.splits)

lemma run_stock_closure_rank: "run_stock_closure c pc = Inl pc' \<Longrightarrow> stock_rank pc' < stock_rank pc"
  by (cases "(c, pc)" rule: run_stock_closure.cases) (auto simp: stock_rank_def split: if_splits sum.splits)

interpretation fixed_life: live_kit fix_kit prepared_for closure_ok closure_rank 5
  by unfold_locales
    (auto simp: fix_kit_def closure_rank_def split: closure_pc.split dest: run_closure_rank [unfolded closure_rank_def])

interpretation stock_life: live_kit stock_kit released_for stock_closure_ok stock_rank 4
  by unfold_locales
    (auto simp: stock_kit_def stock_rank_def split: stock_pc.split dest: run_stock_closure_rank [unfolded stock_rank_def])

section \<open>Properties\<close>



end
