(* ===== verification/Thinking_Control.thy ===== *)
theory Thinking_Control
  imports Json Text_Search
begin

text \<open>
  Thinking controls of a chat request (\<open>fix/dynamo/preprocessor.rs\<close>): the default of the
  deployment, the normalization of the public aliases, the exceptions of single model families,
  and the two gates that have to agree with the rendered prompt: whether guided output waits for
  the reasoning to end, and whether the response is parsed for reasoning.

  Boolean parsing and the reading of the aliases by the renderer
  (\<open>dynamo_renderer::thinking_bool_from_args\<close>) are code outside the repository.
\<close>

type_synonym template_args = "(string, json) omap"

record thinking_lib =
  tl_thinking_bool :: "template_args option \<Rightarrow> bool option"
  tl_parse_bool :: "string \<Rightarrow> bool option"
  tl_is_truthy :: "string \<Rightarrow> bool"

section \<open>Requests\<close>

datatype tool_choice = TC_None | TC_Auto | TC_Required | TC_Named json

text \<open>\<open>tool_choice()\<close> of the request, as the value the option serializes to.\<close>

fun tool_choice_value :: "tool_choice \<Rightarrow> json" where
  "tool_choice_value TC_None = JString ''none''"
| "tool_choice_value TC_Auto = JString ''auto''"
| "tool_choice_value TC_Required = JString ''required''"
| "tool_choice_value (TC_Named f) = JObject [(''function'', f), (''type'', JString ''function'')]"

record think_request =
  tr_thinking :: "json option"
  tr_args :: "template_args option"
  tr_tool_choice :: "tool_choice option"
  tr_response_format :: "json option"

definition arg :: "string \<Rightarrow> template_args option \<Rightarrow> json option" where
  "arg key args = Option.bind args (\<lambda>m. om_get m key)"

text \<open>\<open>chat_template_args.get_or_insert_default()\<close> followed by insertions.\<close>

definition set_args :: "(string \<times> json) list \<Rightarrow> think_request \<Rightarrow> think_request" where
  "set_args kvs r =
     r\<lparr>tr_args := Some (fold (\<lambda>(k, v) m. om_insert k v m) kvs (unwrap_or [] (tr_args r)))\<rparr>"

definition has_request_thinking_control :: "template_args option \<Rightarrow> bool" where
  "has_request_thinking_control args =
     is_some_and (\<lambda>m. list_ex (\<lambda>key. is_some (om_get m key))
       [''thinking'', ''enable_thinking'', ''thinking_mode'', ''reasoning_effort'']) args"

definition request_has_client_thinking_control :: "think_request \<Rightarrow> bool" where
  "request_has_client_thinking_control r =
     (is_some (tr_thinking r) \<or> has_request_thinking_control (tr_args r))"

section \<open>The default of the deployment\<close>

definition mode_name :: "bool \<Rightarrow> string" where
  "mode_name enabled = (if enabled then ''enabled'' else ''disabled'')"

definition apply_default_thinking_mode :: "json option \<Rightarrow> think_request \<Rightarrow> think_request" where
  "apply_default_thinking_mode runtime_mode r =
     (if request_has_client_thinking_control r then r
      else case Option.bind runtime_mode json_as_str of
        None \<Rightarrow> r
      | Some mode \<Rightarrow>
          if mode = ''enabled'' \<or> mode = ''disabled'' then
            (let enabled = (mode = ''enabled'') in
             set_args [(''thinking'', JBool enabled), (''enable_thinking'', JBool enabled),
                       (''thinking_mode'', JString (mode_name enabled))] r)
          else r)"

section \<open>Normalization of the aliases\<close>

text \<open>
  One key of the loop: \<open>Some\<close> is a return, with the result; \<open>None\<close> goes on to the next
  key.
\<close>

definition normalize_key ::
  "thinking_lib \<Rightarrow> template_args \<Rightarrow> string \<Rightarrow> bool option option" where
  "normalize_key L args key =
     (case om_get args key of
        Some (JBool b) \<Rightarrow>
          if key = ''thinking_mode'' then Some (Some b) else Some (tl_thinking_bool L (Some args))
      | Some (JString v) \<Rightarrow>
          if key = ''thinking_mode'' then
            (if eq_ignore_ascii_case v ''enabled'' then Some (Some True)
             else if eq_ignore_ascii_case v ''disabled'' then Some (Some False)
             else case tl_parse_bool L v of Some b \<Rightarrow> Some (Some b) | None \<Rightarrow> Some None)
          else Some (Some (tl_is_truthy L v))
      | Some (JNumber n) \<Rightarrow> Some (Some (n \<noteq> 0))
      | _ \<Rightarrow> None)"

fun normalize_keys :: "thinking_lib \<Rightarrow> template_args \<Rightarrow> string list \<Rightarrow> bool option" where
  "normalize_keys L args [] = None"
| "normalize_keys L args (key # keys) =
     (case normalize_key L args key of Some r \<Rightarrow> r | None \<Rightarrow> normalize_keys L args keys)"

definition kimi_thinker :: "string option \<Rightarrow> bool" where
  "kimi_thinker p = (p \<in> {Some ''kimi_k25'', Some ''kimi_k3'', Some ''kimi-k3''})"

definition normalize_thinking_aliases :: "thinking_lib \<Rightarrow> think_request \<Rightarrow> string option \<Rightarrow> bool option" where
  "normalize_thinking_aliases L r reasoning_parser =
     opt_or (Option.bind (tr_args r)
               (\<lambda>args. normalize_keys L args [''thinking'', ''enable_thinking'', ''thinking_mode'']))
       (then_some (kimi_thinker reasoning_parser) True)"

definition apply_normalized_thinking_aliases :: "bool option \<Rightarrow> think_request \<Rightarrow> think_request" where
  "apply_normalized_thinking_aliases normalized r =
     (case normalized of
        None \<Rightarrow> r
      | Some b \<Rightarrow> set_args [(''thinking'', JBool b), (''enable_thinking'', JBool b)] r)"

section \<open>Model families\<close>

definition is_minimax_m3_family :: "string option \<Rightarrow> string option \<Rightarrow> bool" where
  "is_minimax_m3_family reasoning_parser tool_call_parser =
     (reasoning_parser \<in> {Some ''minimax_m3'', Some ''minimax-m3''}
      \<or> tool_call_parser \<in> {Some ''minimax_m3'', Some ''minimax-m3'', Some ''minimax_m3_nom'', Some ''minimax-m3-nom''})"

definition has_guided_tool_choice :: "json option \<Rightarrow> bool" where
  "has_guided_tool_choice choice =
     is_some_and (\<lambda>v. case json_as_str v of Some s \<Rightarrow> s = ''required'' | None \<Rightarrow> True) choice"

definition has_structured_response_format :: "json option \<Rightarrow> bool" where
  "has_structured_response_format format =
     is_some_and (\<lambda>f. is_some_and (\<lambda>kind. is_some_and (\<lambda>k. k \<noteq> ''text'') (json_as_str kind))
       (json_get ''type'' f)) format"

definition choice_value :: "think_request \<Rightarrow> json option" where
  "choice_value r = map_option tool_choice_value (tr_tool_choice r)"

definition has_minimax_m3_constrained_generation :: "think_request \<Rightarrow> bool" where
  "has_minimax_m3_constrained_generation r =
     (has_structured_response_format (tr_response_format r) \<or> has_guided_tool_choice (choice_value r))"

definition normalize_minimax_m3_thinking_mode :: "bool option \<Rightarrow> bool \<Rightarrow> think_request \<Rightarrow> think_request" where
  "normalize_minimax_m3_thinking_mode normalized from_client r =
     (let adaptive = is_some_and (\<lambda>s. eq_ignore_ascii_case s ''adaptive'')
            (Option.bind (arg ''thinking_mode'' (tr_args r)) json_as_str) in
      if \<not> from_client \<and> has_minimax_m3_constrained_generation r
      then set_args [(''thinking_mode'', JString ''disabled''), (''thinking'', JBool False),
                     (''enable_thinking'', JBool False)] r
      else
        let r' = apply_normalized_thinking_aliases normalized r in
        case normalized of
          None \<Rightarrow> r'
        | Some b \<Rightarrow> if adaptive then r' else set_args [(''thinking_mode'', JString (mode_name b))] r')"

definition normalize_thinking_arg_with_source ::
  "thinking_lib \<Rightarrow> string option \<Rightarrow> string option \<Rightarrow> bool \<Rightarrow> think_request \<Rightarrow> think_request" where
  "normalize_thinking_arg_with_source L reasoning_parser tool_call_parser from_client r =
     (let normalized = normalize_thinking_aliases L r reasoning_parser in
      if is_minimax_m3_family reasoning_parser tool_call_parser
      then normalize_minimax_m3_thinking_mode normalized from_client r
      else apply_normalized_thinking_aliases normalized r)"

definition normalize_kimi_k3_named_tool_choice :: "string option \<Rightarrow> think_request \<Rightarrow> think_request" where
  "normalize_kimi_k3_named_tool_choice tool_call_parser r =
     (let uses_kimi = tool_call_parser \<in> {Some ''kimi_k3'', Some ''kimi-k3''};
          named = (case tr_tool_choice r of Some (TC_Named _) \<Rightarrow> True | _ \<Rightarrow> False) in
      if \<not> uses_kimi \<or> \<not> named then r
      else set_args [(''thinking'', JBool False), (''enable_thinking'', JBool False)] r)"

section \<open>The gates\<close>

definition mistral_reasoning_enabled :: "template_args option \<Rightarrow> bool" where
  "mistral_reasoning_enabled args =
     is_some_and (\<lambda>e. e \<noteq> ''none'') (Option.bind (arg ''reasoning_effort'' args) json_as_str)"

definition deepseek_renderer_reasoning_enabled :: "thinking_lib \<Rightarrow> template_args option \<Rightarrow> bool \<Rightarrow> bool" where
  "deepseek_renderer_reasoning_enabled L args default_enabled =
     (case tl_thinking_bool L args of
        Some enabled \<Rightarrow> enabled
      | None \<Rightarrow>
          (case Option.bind (arg ''thinking_mode'' args) json_as_str of
             Some mode \<Rightarrow> if mode = ''chat'' then False else if mode = ''thinking'' then True else default_enabled
           | None \<Rightarrow> default_enabled))"

definition minimax_mode :: "template_args option \<Rightarrow> string option" where
  "minimax_mode args = Option.bind (arg ''thinking_mode'' args) json_as_str"

definition is_nemotron_force_reasoning :: "string option \<Rightarrow> bool" where
  "is_nemotron_force_reasoning p = (p \<in> {Some ''nemotron_nano'', Some ''nemotron3'', Some ''nemotron_v3''})"

definition sglang_effective_reasoning_enabled :: "thinking_lib \<Rightarrow> string option \<Rightarrow> template_args option \<Rightarrow> bool" where
  "sglang_effective_reasoning_enabled L p args =
     (let thinking = tl_thinking_bool L args in
      if p \<in> {Some ''qwen3'', Some ''glm45'', Some ''nemotron_nano'', Some ''nemotron3'', Some ''nemotron_v3''}
      then thinking \<noteq> Some False
      else if p \<in> {Some ''kimi_k25'', Some ''kimi_k3'', Some ''kimi-k3''} then thinking \<noteq> Some False
      else if p = Some ''minimax_m2'' then deepseek_renderer_reasoning_enabled L args True
      else if p \<in> {Some ''deepseek_v3'', Some ''deepseek_v3_1''}
      then deepseek_renderer_reasoning_enabled L args False
      else if p \<in> {Some ''deepseek_v3_2'', Some ''deepseek_v4'', Some ''deepseek-v4'', Some ''deepseekv4'', Some ''deepseek_v41''}
      then deepseek_renderer_reasoning_enabled L args True
      else if p \<in> {Some ''gemma4'', Some ''gemma-4''} then thinking = Some True
      else if p = Some ''mistral'' then mistral_reasoning_enabled args
      else if p \<in> {Some ''minimax_m3'', Some ''minimax-m3''}
      then is_none_or (\<lambda>mode. mode \<noteq> ''disabled'') (minimax_mode args)
      else p \<in> {Some ''deepseek_r1'', Some ''step3'', Some ''gpt_oss'', Some ''kimi''})"

definition is_reasoning_disabled_by_request :: "thinking_lib \<Rightarrow> string option \<Rightarrow> template_args option \<Rightarrow> bool" where
  "is_reasoning_disabled_by_request L p args =
     (if p \<in> {Some ''kimi_k25'', Some ''kimi_k3'', Some ''kimi-k3''} then tl_thinking_bool L args = Some False
      else if is_nemotron_force_reasoning p then tl_thinking_bool L args = Some False
      else if p \<in> {Some ''deepseek_v3'', Some ''deepseek_v3_1''}
      then \<not> deepseek_renderer_reasoning_enabled L args False
      else if p \<in> {Some ''deepseek_r1'', Some ''deepseek_v3_2'', Some ''deepseek_v4'', Some ''deepseek-v4'',
                   Some ''deepseekv4'', Some ''deepseek_v41'', Some ''minimax_m2''}
      then \<not> deepseek_renderer_reasoning_enabled L args True
      else if p \<in> {Some ''gemma4'', Some ''gemma-4''} then tl_thinking_bool L args \<noteq> Some True
      else if p = Some ''mistral'' then \<not> mistral_reasoning_enabled args
      else if p \<in> {Some ''minimax_m3'', Some ''minimax-m3''}
      then (case minimax_mode args of Some mode \<Rightarrow> mode = ''disabled'' | None \<Rightarrow> False)
      else False)"

definition structured_response_supports_sglang_reasoning_gate :: "string option \<Rightarrow> bool" where
  "structured_response_supports_sglang_reasoning_gate p = (p \<noteq> Some ''gpt_oss'')"

definition guided_output_requires_reasoning :: "thinking_lib \<Rightarrow> string option \<Rightarrow> think_request \<Rightarrow> bool" where
  "guided_output_requires_reasoning L p r =
     (if p = None then False
      else
        let structured = has_structured_response_format (tr_response_format r)
              \<and> structured_response_supports_sglang_reasoning_gate p in
        (has_guided_tool_choice (choice_value r) \<or> structured)
        \<and> sglang_effective_reasoning_enabled L p (tr_args r))"

section \<open>Lemmas\<close>

lemma arg_set_args:
  "arg key (tr_args (set_args [] r)) = arg key (tr_args r)"
  "arg key (tr_args (set_args (kvs @ [(k, v)]) r)) =
     (if key = k then Some v else arg key (tr_args (set_args kvs r)))"
  by (cases "tr_args r"; simp add: arg_def set_args_def om_get_def om.get_put [unfolded om_get_def])+

lemma arg_set1:
  "arg key (tr_args (set_args [(k, v)] r)) = (if key = k then Some v else arg key (tr_args r))"
  using arg_set_args(2) [of key "[]" k v r] by (simp add: arg_set_args(1))

lemma arg_set2:
  "arg key (tr_args (set_args [(k, v), (k', v')] r)) =
     (if key = k' then Some v' else if key = k then Some v else arg key (tr_args r))"
  using arg_set_args(2) [of key "[(k, v)]" k' v' r] by (simp add: arg_set1)

lemma arg_set3:
  "arg key (tr_args (set_args [(k, v), (k', v'), (k'', v'')] r)) =
     (if key = k'' then Some v'' else if key = k' then Some v'
      else if key = k then Some v else arg key (tr_args r))"
  using arg_set_args(2) [of key "[(k, v), (k', v')]" k'' v'' r] by (simp add: arg_set2)

lemma set_args_fields:
  "tr_thinking (set_args kvs r) = tr_thinking r" "tr_tool_choice (set_args kvs r) = tr_tool_choice r"
  "tr_response_format (set_args kvs r) = tr_response_format r" "tr_args (set_args kvs r) \<noteq> None"
  by (simp_all add: set_args_def)

lemmas arg_sets = arg_set1 arg_set2 arg_set3

text \<open>
  The documented reading of the aliases by the renderer: two equal booleans are that boolean.
\<close>

definition reads_aliases :: "thinking_lib \<Rightarrow> template_args option \<Rightarrow> bool" where
  "reads_aliases L args =
     (\<forall>b. arg ''thinking'' args = Some (JBool b) \<and> arg ''enable_thinking'' args = Some (JBool b) \<longrightarrow>
        tl_thinking_bool L args = Some b)"

lemma normalize_keys_bools:
  assumes "arg ''thinking'' (Some args) = Some (JBool b)" "arg ''enable_thinking'' (Some args) = Some (JBool b)"
    and "reads_aliases L (Some args)"
  shows "normalize_keys L args [''thinking'', ''enable_thinking'', ''thinking_mode''] = Some b"
  using assms by (simp add: normalize_key_def arg_def reads_aliases_def)

lemma om_insert_same: "om_ordered m \<Longrightarrow> om_get m k = Some v \<Longrightarrow> om_insert k v m = m"
  by (induction m) (auto simp: om_ordered_def om_get_def split: if_splits dest!: map_of_SomeD bspec)

definition ordered_args :: "think_request \<Rightarrow> bool" where
  "ordered_args r = om_ordered (unwrap_or [] (tr_args r))"

lemma set_args_same:
  assumes "ordered_args r" "tr_args r \<noteq> None"
    and "\<And>k v. (k, v) \<in> set kvs \<Longrightarrow> arg k (tr_args r) = Some v"
  shows "set_args kvs r = r"
proof -
  obtain args where args: "tr_args r = Some args" "om_ordered args"
    using assms(1,2) by (auto simp: ordered_args_def)
  have "fold (\<lambda>(k, v) m. om_insert k v m) kvs args = args"
    using assms(3) args by (induction kvs) (auto simp: arg_def om_insert_same)
  then show ?thesis by (simp add: set_args_def args(1))
qed

lemma ordered_set_args: "ordered_args r \<Longrightarrow> ordered_args (set_args kvs r)"
proof -
  have "om_ordered m \<Longrightarrow> om_ordered (fold (\<lambda>(k, v) m. om_insert k v m) kvs m)" for m :: template_args
    by (induction kvs arbitrary: m) (auto simp: om.ordered_put)
  then show "ordered_args r \<Longrightarrow> ordered_args (set_args kvs r)"
    by (simp add: ordered_args_def set_args_def)
qed

lemma normalize_aliases_bools:
  assumes "arg ''thinking'' (tr_args r) = Some (JBool b)" "arg ''enable_thinking'' (tr_args r) = Some (JBool b)"
    and "reads_aliases L (tr_args r)"
  shows "normalize_thinking_aliases L r p = Some b"
proof -
  obtain args where "tr_args r = Some args" using assms(1) by (cases "tr_args r") (auto simp: arg_def)
  with assms normalize_keys_bools [of args b L] show ?thesis
    by (simp add: normalize_thinking_aliases_def)
qed

lemma apply_aliases_idem:
  assumes "ordered_args r" "arg ''thinking'' (tr_args r) = Some (JBool b)"
    "arg ''enable_thinking'' (tr_args r) = Some (JBool b)"
  shows "apply_normalized_thinking_aliases (Some b) r = r"
  unfolding apply_normalized_thinking_aliases_def option.case
  by (rule set_args_same) (use assms in \<open>auto simp: arg_def split: bind_splits\<close>)

text \<open>
  What a request looks like after normalization, when the result is \<open>Some b\<close> or the M3
  exception has set the mode.
\<close>

lemma aliases_applied:
  assumes "ordered_args r"
  shows "ordered_args (apply_normalized_thinking_aliases (Some b) r)"
    and "arg ''thinking'' (tr_args (apply_normalized_thinking_aliases (Some b) r)) = Some (JBool b)"
    and "arg ''enable_thinking'' (tr_args (apply_normalized_thinking_aliases (Some b) r)) = Some (JBool b)"
    and "key \<notin> {''thinking'', ''enable_thinking''} \<Longrightarrow>
      arg key (tr_args (apply_normalized_thinking_aliases (Some b) r)) = arg key (tr_args r)"
  using assms by (simp_all add: apply_normalized_thinking_aliases_def arg_sets ordered_set_args)

section \<open>Properties\<close>

text \<open>
  Normalizing the thinking controls is idempotent outside the MiniMax M3 family: a second
  normalization of the request changes nothing.  When it decides, both aliases hold the decided
  boolean and every other argument is what it was; when it does not (an adaptive mode, or no
  control at all), the request is untouched.
\<close>

lemma thinking_normalization_idempotent:
  assumes "ordered_args r" "\<not> is_minimax_m3_family p q"
    and "r' = normalize_thinking_arg_with_source L p q c r" "reads_aliases L (tr_args r')"
  shows "normalize_thinking_arg_with_source L p q c r' = r' \<and>
     (case normalize_thinking_aliases L r p of
        None \<Rightarrow> r' = r
      | Some b \<Rightarrow> arg ''thinking'' (tr_args r') = Some (JBool b) \<and> arg ''enable_thinking'' (tr_args r') = Some (JBool b)
          \<and> (\<forall>key. key \<in> {''thinking'', ''enable_thinking''} \<or> arg key (tr_args r') = arg key (tr_args r)))"
proof (cases "normalize_thinking_aliases L r p")
  case None
  then have "r' = r"
    using assms(2,3) by (simp add: normalize_thinking_arg_with_source_def apply_normalized_thinking_aliases_def)
  with None assms(2,3) show ?thesis by simp
next
  case (Some b)
  have r': "r' = apply_normalized_thinking_aliases (Some b) r"
    using assms(2,3) Some by (simp add: normalize_thinking_arg_with_source_def)
  note set = aliases_applied [where b = b, OF assms(1), folded r']
  have "normalize_thinking_aliases L r' p = Some b"
    by (rule normalize_aliases_bools [OF set(2,3) assms(4)])
  then have "normalize_thinking_arg_with_source L p q c r' = r'"
    using assms(2) apply_aliases_idem [OF set(1-3)] by (simp add: normalize_thinking_arg_with_source_def)
  moreover have "key \<in> {''thinking'', ''enable_thinking''} \<or> arg key (tr_args r') = arg key (tr_args r)" for key
    by (rule disjE [OF excluded_middle, rotated], erule disjI1) (rule disjI2, erule set(4))
  ultimately show ?thesis using Some set(2,3) by simp
qed

definition sample_lib :: thinking_lib where
  "sample_lib =
     \<lparr>tl_thinking_bool = (\<lambda>args. Option.bind (arg ''thinking'' args) json_as_bool),
      tl_parse_bool = (\<lambda>_. None), tl_is_truthy = (\<lambda>v. v = ''on'')\<rparr>"

definition sample_think :: think_request where
  "sample_think =
     \<lparr>tr_thinking = None, tr_args = Some [(''thinking'', JString ''on'')], tr_tool_choice = None,
      tr_response_format = None\<rparr>"

lemma sample_lib_reads: "reads_aliases sample_lib args"
  by (auto simp: reads_aliases_def sample_lib_def)

lemma thinking_normalization_idempotent_sample:
  "arg ''enable_thinking'' (tr_args (normalize_thinking_arg_with_source sample_lib None None True sample_think)) =
     Some (JBool True)"
proof -
  have "ordered_args sample_think" "\<not> is_minimax_m3_family None None"
    "normalize_thinking_aliases sample_lib sample_think None = Some True"
    by (simp_all add: ordered_args_def sample_think_def om_ordered_def is_minimax_m3_family_def
        normalize_thinking_aliases_def normalize_key_def om_get_def sample_lib_def)
  with thinking_normalization_idempotent [OF this(1,2) refl sample_lib_reads] show ?thesis by simp
qed

definition switchable_parsers :: "string list" where
  "switchable_parsers =
     [''kimi_k25'', ''kimi_k3'', ''kimi-k3'', ''nemotron_nano'', ''nemotron3'', ''nemotron_v3'', ''deepseek_v3'',
      ''deepseek_v3_1'', ''deepseek_v3_2'', ''deepseek_v4'', ''deepseek-v4'', ''deepseekv4'', ''deepseek_v41'',
      ''minimax_m2'', ''gemma4'', ''gemma-4'', ''mistral'', ''minimax_m3'', ''minimax-m3'']"

lemma gates_agree_each:
  "list_all (\<lambda>p. sglang_effective_reasoning_enabled L (Some p) args =
     (\<not> is_reasoning_disabled_by_request L (Some p) args)) switchable_parsers"
  unfolding switchable_parsers_def list.pred_inject
  by (simp add: sglang_effective_reasoning_enabled_def is_reasoning_disabled_by_request_def
      is_nemotron_force_reasoning_def Let_def split: option.split)

text \<open>
  The two gates agree.  For every reasoning parser that has an off switch in both places,
  guided output waits for the end of reasoning exactly when the response is parsed for
  reasoning, whatever the template arguments are.
\<close>

lemma reasoning_gates_agree:
  assumes "p \<in> set switchable_parsers"
  shows "sglang_effective_reasoning_enabled L (Some p) args \<longleftrightarrow> \<not> is_reasoning_disabled_by_request L (Some p) args"
  using gates_agree_each [of L args] assms by (simp add: list_all_iff)

lemma reasoning_gates_agree_sample:
  "sglang_effective_reasoning_enabled sample_lib (Some ''mistral'') None \<longleftrightarrow>
     \<not> is_reasoning_disabled_by_request sample_lib (Some ''mistral'') None"
  by (rule reasoning_gates_agree) (simp add: switchable_parsers_def)

text \<open>
  DeepSeek R1 is in both gates, and they can disagree: when the request turns thinking off, the
  response is not parsed for reasoning, but guided output still waits for reasoning to end.
\<close>

lemma deepseek_r1_gates_disagree:
  assumes "tl_thinking_bool L args = Some False"
  shows "sglang_effective_reasoning_enabled L (Some ''deepseek_r1'') args"
    and "is_reasoning_disabled_by_request L (Some ''deepseek_r1'') args"
  using assms
  by (simp_all add: sglang_effective_reasoning_enabled_def is_reasoning_disabled_by_request_def
      is_nemotron_force_reasoning_def deepseek_renderer_reasoning_enabled_def)

text \<open>
  The named-tool exception of Kimi K3 reaches every consumer: once a request with a named
  tool has been normalized for a Kimi K3 tool parser, the response is not parsed for reasoning
  and guided output does not wait for it, whatever controls the client had set.
\<close>

lemma kimi_named_tool_disables_reasoning:
  assumes "q \<in> {Some ''kimi_k3'', Some ''kimi-k3''}" "p \<in> {Some ''kimi_k3'', Some ''kimi-k3''}"
    and "tr_tool_choice r = Some (TC_Named f)"
    and "r' = normalize_kimi_k3_named_tool_choice q r" "reads_aliases L (tr_args r')"
  shows "is_reasoning_disabled_by_request L p (tr_args r') \<and> \<not> guided_output_requires_reasoning L p r'"
proof -
  have "r' = set_args [(''thinking'', JBool False), (''enable_thinking'', JBool False)] r"
    using assms(1,3,4) by (auto simp: normalize_kimi_k3_named_tool_choice_def)
  then have "tl_thinking_bool L (tr_args r') = Some False"
    using assms(5) [unfolded reads_aliases_def, THEN spec, of False] by (simp add: arg_sets)
  with assms(2) show ?thesis
    by (auto simp: is_reasoning_disabled_by_request_def guided_output_requires_reasoning_def
        sglang_effective_reasoning_enabled_def Let_def)
qed

lemma kimi_named_tool_disables_reasoning_sample:
  "is_reasoning_disabled_by_request sample_lib (Some ''kimi_k3'')
     (tr_args (normalize_kimi_k3_named_tool_choice (Some ''kimi_k3'') (sample_think\<lparr>tr_tool_choice := Some (TC_Named JNull)\<rparr>)))"
  using kimi_named_tool_disables_reasoning [OF _ _ _ refl sample_lib_reads, of "Some ''kimi_k3''" "Some ''kimi_k3''"
      "sample_think\<lparr>tr_tool_choice := Some (TC_Named JNull)\<rparr>" JNull] by simp

text \<open>
  MiniMax M3 under constraints: when the client set no thinking control and the request
  forces a tool or a response format, the normalized request is rendered with thinking off and
  is not parsed for reasoning; with a control of the client the mode is the client's, made
  canonical unless it is adaptive.
\<close>

lemma minimax_m3_constrained_is_disabled:
  assumes "is_minimax_m3_family p q"
    and "r' = normalize_thinking_arg_with_source L p q c r"
  shows "(if \<not> c \<and> has_minimax_m3_constrained_generation r
          then arg ''thinking_mode'' (tr_args r') = Some (JString ''disabled'')
               \<and> arg ''thinking'' (tr_args r') = Some (JBool False)
               \<and> is_reasoning_disabled_by_request L (Some ''minimax_m3'') (tr_args r')
          else case normalize_thinking_aliases L r p of
            None \<Rightarrow> r' = r
          | Some b \<Rightarrow> arg ''thinking'' (tr_args r') = Some (JBool b)
              \<and> (arg ''thinking_mode'' (tr_args r') = Some (JString (mode_name b))
                 \<or> (\<exists>s. arg ''thinking_mode'' (tr_args r) = Some (JString s) \<and> eq_ignore_ascii_case s ''adaptive''
                       \<and> arg ''thinking_mode'' (tr_args r') = arg ''thinking_mode'' (tr_args r))))"
proof (cases "\<not> c \<and> has_minimax_m3_constrained_generation r")
  case True
  then have "r' = set_args [(''thinking_mode'', JString ''disabled''), (''thinking'', JBool False),
                     (''enable_thinking'', JBool False)] r"
    using assms by (simp add: normalize_thinking_arg_with_source_def normalize_minimax_m3_thinking_mode_def)
  with True show ?thesis
    by (simp add: arg_sets is_reasoning_disabled_by_request_def is_nemotron_force_reasoning_def minimax_mode_def)
next
  case False
  show ?thesis
  proof (cases "normalize_thinking_aliases L r p")
    case None
    with assms show ?thesis
      unfolding if_not_P [OF False]
      by (auto simp: if_not_P [OF False] normalize_thinking_arg_with_source_def normalize_minimax_m3_thinking_mode_def
          apply_normalized_thinking_aliases_def)
  next
    case (Some b)
    let ?a = "is_some_and (\<lambda>s. eq_ignore_ascii_case s ''adaptive'')
      (Option.bind (arg ''thinking_mode'' (tr_args r)) json_as_str)"
    let ?r = "apply_normalized_thinking_aliases (Some b) r"
    have r': "r' = (if ?a then ?r else set_args [(''thinking_mode'', JString (mode_name b))] ?r)"
      using Some assms
      unfolding normalize_thinking_arg_with_source_def normalize_minimax_m3_thinking_mode_def Let_def if_not_P [OF False]
      by simp
    show ?thesis
    proof (cases ?a)
      case True
      then obtain s where "arg ''thinking_mode'' (tr_args r) = Some (JString s)" "eq_ignore_ascii_case s ''adaptive''"
        by (auto simp: is_some_and_iff json_as_str_Some_iff split: bind_splits)
      with True r' Some show ?thesis
        unfolding if_not_P [OF False]
        by (simp add: apply_normalized_thinking_aliases_def arg_sets)
    next
      case a: False
      with r' Some show ?thesis
        unfolding if_not_P [OF False]
        by (simp add: apply_normalized_thinking_aliases_def arg_sets)
    qed
  qed
qed

lemma minimax_m3_constrained_is_disabled_sample:
  "arg ''thinking_mode'' (tr_args (normalize_thinking_arg_with_source sample_lib (Some ''minimax_m3'') None False
      (sample_think\<lparr>tr_tool_choice := Some TC_Required\<rparr>))) = Some (JString ''disabled'')"
proof -
  have "is_minimax_m3_family (Some ''minimax_m3'') None" by (simp add: is_minimax_m3_family_def)
  moreover have "has_minimax_m3_constrained_generation (sample_think\<lparr>tr_tool_choice := Some TC_Required\<rparr>)"
    by (simp add: has_minimax_m3_constrained_generation_def has_guided_tool_choice_def choice_value_def)
  ultimately show ?thesis
    using minimax_m3_constrained_is_disabled [OF _ refl, where L = sample_lib and c = False
        and r = "sample_think\<lparr>tr_tool_choice := Some TC_Required\<rparr>"] by simp
qed

end
