(* ===== verification/Response_Policy.thy ===== *)
theory Response_Policy
  imports Thinking_Control
begin

text \<open>
  Decisions the preprocessor takes per request from the configured parsers
  (\<open>fix/dynamo/preprocessor.rs\<close>): which parser route a response takes, whether tool calls
  are parsed, whether special tokens stay visible, and which stop tokens the engine hides.

  The parser registries are code outside the repository: the family a pair of parser names
  selects, the families the second parser version supports, and the end tokens of a tool parser.
\<close>

section \<open>Routes\<close>

datatype tool_route =
    MuseUnified string
  | Unified string
  | ParserV2 string
  | LegacyJail "string option"
  | PassThrough

fun uses_legacy_jail :: "tool_route \<Rightarrow> bool" where
  "uses_legacy_jail (LegacyJail _) = True"
| "uses_legacy_jail _ = False"

text \<open>
  The parser registries, and the facts about the request that other files compute: whether its
  tool constraint is a structural tag, whether tool calls are parsed, whether it has tools.
\<close>

record parser_registry =
  pr_unified_family :: "string option \<Rightarrow> string option \<Rightarrow> string option"
  pr_selected_family :: "string option \<Rightarrow> string option \<Rightarrow> string option"
  pr_v2_enabled :: bool
  pr_v2_supports :: "string \<Rightarrow> bool"

record route_request =
  ro_tool_choice :: "tool_choice option"
  ro_structural_tag :: bool
  ro_parsing_enabled :: bool
  ro_has_tools :: bool

definition is_kimi_k3 :: "string option \<Rightarrow> bool" where
  "is_kimi_k3 p = (p \<in> {Some ''kimi_k3'', Some ''kimi-k3''})"

definition should_apply_tool_jail :: "string option \<Rightarrow> tool_choice option \<Rightarrow> bool \<Rightarrow> bool" where
  "should_apply_tool_jail parser choice has_tools =
     (if is_kimi_k3 parser then True
      else case (parser, choice, has_tools) of
        (None, Some TC_Required, True) \<Rightarrow> True
      | (None, Some (TC_Named _), True) \<Rightarrow> True
      | (None, Some TC_Auto, True) \<Rightarrow> False
      | (Some _, Some TC_None, _) \<Rightarrow> False
      | (Some _, Some _, True) \<Rightarrow> True
      | (Some _, None, True) \<Rightarrow> True
      | _ \<Rightarrow> False)"

definition effective_tool_call_parser :: "string option \<Rightarrow> string option \<Rightarrow> string option" where
  "effective_tool_call_parser tool_parser reasoning_parser =
     opt_or tool_parser (opt_filter (\<lambda>p. is_kimi_k3 (Some p)) reasoning_parser)"

definition tool_processing_route ::
  "parser_registry \<Rightarrow> string option \<Rightarrow> string option \<Rightarrow> route_request \<Rightarrow> tool_route" where
  "tool_processing_route G tool_parser reasoning_parser r =
     (case (pr_unified_family G tool_parser reasoning_parser,
            \<not> ro_structural_tag r \<and> ro_tool_choice r \<in> {None, Some TC_Auto, Some TC_None}) of
        (Some family, True) \<Rightarrow> MuseUnified family
      | _ \<Rightarrow>
          (case pr_selected_family G tool_parser reasoning_parser of
             Some family \<Rightarrow> Unified family
           | None \<Rightarrow>
               let parser = effective_tool_call_parser tool_parser reasoning_parser;
                   should_jail =
                     (if ro_parsing_enabled r \<or> is_kimi_k3 parser
                      then should_apply_tool_jail parser (ro_tool_choice r) (ro_has_tools r) else False) in
               if \<not> should_jail then PassThrough
               else case parser of
                 Some name \<Rightarrow>
                   if pr_v2_enabled G \<and> pr_v2_supports G name \<and> \<not> ro_structural_tag r
                      \<and> ro_tool_choice r \<in> {None, Some TC_Auto}
                   then ParserV2 name else LegacyJail parser
               | None \<Rightarrow> LegacyJail parser))"

definition guided_tool_streaming_release :: "bool \<Rightarrow> bool \<Rightarrow> bool" where
  "guided_tool_streaming_release installs_guided_json rollback_disabled =
     (installs_guided_json \<and> \<not> rollback_disabled)"

definition choice_specific_fields :: "string list" where
  "choice_specific_fields = [''engine_data'', ''routed_experts'', ''stop_reason'']"

text \<open>\<open>Inl\<close> names the field that is not available with several choices.\<close>

definition validate_legacy_jail_nvext_choice_count ::
  "u8 \<Rightarrow> string list option \<Rightarrow> bool \<Rightarrow> string + unit" where
  "validate_legacy_jail_nvext_choice_count n extra_fields is_legacy_jail =
     (if n \<le> 1 \<or> \<not> is_legacy_jail then Inr ()
      else case Option.bind extra_fields (List.find (\<lambda>f. f \<in> set choice_specific_fields)) of
        Some field \<Rightarrow> Inl field
      | None \<Rightarrow> Inr ())"

section \<open>Special tokens\<close>

definition parser_requires_special_tokens :: "string option \<Rightarrow> string option \<Rightarrow> bool" where
  "parser_requires_special_tokens tool_parser reasoning_parser =
     (tool_parser \<in> {Some ''gemma4'', Some ''gemma-4'', Some ''harmony'', Some ''kimi_k2'', Some ''kimi_k3'',
        Some ''kimi-k3'', Some ''minimax_m3'', Some ''minimax-m3'', Some ''minimax_m3_nom'',
        Some ''minimax-m3-nom'', Some ''inkling'', Some ''muse_glimmer'', Some ''muse'', Some ''deepseek_v41''}
      \<or> reasoning_parser \<in> {Some ''gemma4'', Some ''gemma-4'', Some ''gpt_oss'', Some ''kimi_k25'', Some ''kimi_k3'',
        Some ''kimi-k3'', Some ''mistral'', Some ''minimax_m3'', Some ''minimax-m3'', Some ''inkling'',
        Some ''muse_glimmer'', Some ''muse'', Some ''deepseek_v41''})"

definition special_tokens_will_be_stripped :: "bool option \<Rightarrow> string option \<Rightarrow> string option \<Rightarrow> bool" where
  "special_tokens_will_be_stripped skip tool_parser reasoning_parser =
     (skip = Some True \<and> parser_requires_special_tokens tool_parser reasoning_parser)"

text \<open>The output option the builder forwards, and whether it warns.\<close>

definition resolve_skip_special_tokens ::
  "bool option \<Rightarrow> string option \<Rightarrow> string option \<Rightarrow> bool option \<times> bool" where
  "resolve_skip_special_tokens skip tool_parser reasoning_parser =
     (if skip = None \<and> parser_requires_special_tokens tool_parser reasoning_parser then (Some False, False)
      else if special_tokens_will_be_stripped skip tool_parser reasoning_parser then (skip, True)
      else (skip, False))"

section \<open>Reasoning parsers\<close>

definition is_force_reasoning_parser :: "string option \<Rightarrow> bool" where
  "is_force_reasoning_parser p =
     (p \<in> {Some ''deepseek_r1'', Some ''deepseek_v3'', Some ''deepseek_v3_1'', Some ''deepseek_v3_2'',
           Some ''step3'', Some ''kimi_k25'', Some ''mistral'', Some ''minimax_m2'', Some ''minimax_append_think'',
           Some ''nemotron_nano'', Some ''nemotron3'', Some ''nemotron_v3''})"

definition supports_reasoning_before_guided_json :: "string option \<Rightarrow> bool" where
  "supports_reasoning_before_guided_json p =
     (p \<in> {Some ''deepseek_r1'', Some ''deepseek_v3'', Some ''deepseek_v3_1'', Some ''deepseek_v3_2'',
           Some ''step3'', Some ''kimi_k25'', Some ''mistral'', Some ''minimax_m2'',
           Some ''nemotron_nano'', Some ''nemotron3'', Some ''nemotron_v3''})"

definition guided_json_reasoning_start_token :: "string option \<Rightarrow> string option" where
  "guided_json_reasoning_start_token p = (if p = Some ''mistral'' then Some ''[THINK]'' else None)"

definition skips_guided_json_when_prompt_injected :: "string option \<Rightarrow> bool" where
  "skips_guided_json_when_prompt_injected p =
     (p \<in> {Some ''deepseek_v4'', Some ''deepseek_v41'', Some ''deepseek-v4'', Some ''deepseekv4'',
           Some ''glm45'', Some ''minimax_m3'', Some ''minimax-m3''})"

definition skips_structured_response_when_prompt_injected :: "string option \<Rightarrow> bool" where
  "skips_structured_response_when_prompt_injected p =
     (p \<in> {Some ''qwen3'', Some ''kimi_k3'', Some ''kimi-k3''} \<or> skips_guided_json_when_prompt_injected p)"

definition prompt_injected_reasoning_start :: "string option \<Rightarrow> string option \<Rightarrow> bool" where
  "prompt_injected_reasoning_start p formatted_prompt =
     (case map_option trim_end formatted_prompt of
        None \<Rightarrow> False
      | Some prompt \<Rightarrow>
          if p \<in> {Some ''minimax_m3'', Some ''minimax-m3''} then ends_with prompt ''<mm:think>''
          else if p \<in> {Some ''kimi_k3'', Some ''kimi-k3''} then ends_with prompt ''<|open|>think<|sep|>''
          else ends_with prompt ''<think>'')"

definition prompt_injected_reasoning_ended_arg :: "string option \<Rightarrow> string option \<Rightarrow> bool option" where
  "prompt_injected_reasoning_ended_arg p formatted_prompt =
     (let should_forward = p \<in> {Some ''minimax_m2'', Some ''minimax_m3'', Some ''minimax-m3'', Some ''kimi_k3'',
            Some ''kimi-k3'', Some ''deepseek_v41''} in
      if should_forward \<and> prompt_injected_reasoning_start p formatted_prompt then Some False else None)"

definition wants_reasoning_as_content_when_empty :: "template_args option \<Rightarrow> bool" where
  "wants_reasoning_as_content_when_empty args = (arg ''force_nonempty_content'' args = Some (JBool True))"

definition stream_can_defer_all_output ::
  "parser_registry \<Rightarrow> thinking_lib \<Rightarrow> string option \<Rightarrow> string option \<Rightarrow> template_args option \<Rightarrow> bool" where
  "stream_can_defer_all_output G L tool_parser reasoning_parser args =
     (let has_reasoning_decoder = is_some reasoning_parser \<or> is_some (pr_unified_family G tool_parser reasoning_parser) in
      has_reasoning_decoder \<and> wants_reasoning_as_content_when_empty args
      \<and> \<not> is_reasoning_disabled_by_request L reasoning_parser args)"

section \<open>Stop tokens\<close>

record stop_conditions =
  sc_hidden :: "token_id list option"
  sc_visible :: "token_id list option"
  sc_ignore_eos :: "bool option"

definition push_missing :: "token_id list \<Rightarrow> token_id list \<Rightarrow> token_id list" where
  "push_missing new ts = fold (\<lambda>t acc. if t \<in> set acc then acc else acc @ [t]) new ts"

definition remove_single_token_marker :: "token_id list \<Rightarrow> token_id list \<Rightarrow> token_id list \<times> bool" where
  "remove_single_token_marker hidden marker_ids =
     (case marker_ids of
        [m] \<Rightarrow> (let hidden' = filter (\<lambda>t. t \<noteq> m) hidden in (hidden', length hidden' \<noteq> length hidden))
      | _ \<Rightarrow> (hidden, False))"

definition should_keep_tool_parser_end_tokens_visible :: "bool \<Rightarrow> bool \<Rightarrow> bool" where
  "should_keep_tool_parser_end_tokens_visible has_tools tool_choice_none = (has_tools \<and> \<not> tool_choice_none)"

text \<open>The loop over the end tokens of the parser: hidden stops, visible stops collected.\<close>

fun move_end_tokens ::
  "(string \<Rightarrow> string + token_id list) \<Rightarrow> string list \<Rightarrow> token_id list \<Rightarrow> token_id list \<Rightarrow>
     string + token_id list \<times> token_id list" where
  "move_end_tokens encode [] hidden visible = Inr (hidden, visible)"
| "move_end_tokens encode (t # ts) hidden visible =
     (if t = [] then move_end_tokens encode ts hidden visible
      else case encode t of
        Inl e \<Rightarrow> Inl e
      | Inr ids \<Rightarrow>
          let (hidden', was_hidden) = remove_single_token_marker hidden ids in
          if \<not> was_hidden then move_end_tokens encode ts hidden' visible
          else
            (case ids of
               [m] \<Rightarrow> move_end_tokens encode ts hidden' (if m \<in> set visible then visible else visible @ [m])
             | _ \<Rightarrow> move_end_tokens encode ts hidden' visible))"

definition remove_tool_parser_end_tokens_from_hidden_stops ::
  "(string \<Rightarrow> string list option) \<Rightarrow> (string \<Rightarrow> string + token_id list) \<Rightarrow> string option \<Rightarrow>
     bool \<Rightarrow> json option \<Rightarrow> token_id list \<Rightarrow> string + token_id list \<times> token_id list" where
  "remove_tool_parser_end_tokens_from_hidden_stops end_tokens encode tool_parser has_tools choice hidden =
     (let tool_choice_none = (Option.bind choice json_as_str = Some ''none'') in
      if \<not> should_keep_tool_parser_end_tokens_visible has_tools tool_choice_none then Inr (hidden, [])
      else case opt_filter (\<lambda>p. p \<noteq> []) tool_parser of
        None \<Rightarrow> Inr (hidden, [])
      | Some p \<Rightarrow>
          (case end_tokens p of
             None \<Rightarrow> Inr (hidden, [])
           | Some ts \<Rightarrow> move_end_tokens encode ts hidden []))"

text \<open>
  \<open>request_has_effective_tools\<close>: tools of the request, or of one of its system messages.
\<close>

definition request_has_effective_tools :: "json option \<Rightarrow> nat option list option \<Rightarrow> bool" where
  "request_has_effective_tools tools system_tools =
     ((case tools of
         Some (JArray ts) \<Rightarrow> ts \<noteq> []
       | Some (JObject kvs) \<Rightarrow> kvs \<noteq> []
       | Some (JString s) \<Rightarrow> s \<noteq> []
       | _ \<Rightarrow> False)
      \<or> is_some_and (list_ex (is_some_and (\<lambda>n. n \<noteq> 0))) system_tools)"

text \<open>
  The stop conditions the builder installs, before \<open>apply_ignore_eos\<close>: the end-of-sequence
  ids of the model are hidden stops, and end tokens of the tool parser among them are moved to
  the visible stops.
\<close>

definition build_stop_tokens ::
  "(string \<Rightarrow> string list option) \<Rightarrow> (string \<Rightarrow> string + token_id list) \<Rightarrow> string option \<Rightarrow>
     bool \<Rightarrow> json option \<Rightarrow> token_id list \<Rightarrow> stop_conditions \<Rightarrow> string + stop_conditions" where
  "build_stop_tokens end_tokens encode tool_parser has_tools choice eos sc =
     (let hidden = (case sc_hidden sc of Some ts \<Rightarrow> push_missing eos ts | None \<Rightarrow> eos) in
      case remove_tool_parser_end_tokens_from_hidden_stops end_tokens encode tool_parser has_tools choice hidden of
        Inl e \<Rightarrow> Inl e
      | Inr (hidden', moved) \<Rightarrow>
          Inr (sc\<lparr>sc_hidden := Some hidden',
                  sc_visible := if moved = [] then sc_visible sc
                                else Some (push_missing moved (unwrap_or [] (sc_visible sc)))\<rparr>))"

section \<open>Lemmas\<close>

lemma set_push_missing: "set (push_missing new ts) = set ts \<union> set new"
  unfolding push_missing_def by (induction new arbitrary: ts) auto

lemma remove_marker_Some:
  assumes "remove_single_token_marker hidden ids = (hidden', True)"
  obtains m where "ids = [m]" "m \<in> set hidden" "hidden' = filter (\<lambda>t. t \<noteq> m) hidden"
proof -
  obtain m where m: "ids = [m]" "hidden' = filter (\<lambda>t. t \<noteq> m) hidden" "length hidden' \<noteq> length hidden"
    using assms by (auto simp: remove_single_token_marker_def Let_def split: list.splits)
  have "m \<in> set hidden"
  proof (rule ccontr)
    assume "m \<notin> set hidden"
    then have "filter (\<lambda>t. t \<noteq> m) hidden = hidden" by (intro filter_True) auto
    with m(2,3) show False by simp
  qed
  with m(1,2) show ?thesis using that by blast
qed

lemma remove_marker_False:
  assumes "remove_single_token_marker hidden ids = (hidden', False)"
  shows "hidden' = hidden"
  using assms filter_id_conv
  by (auto simp: remove_single_token_marker_def Let_def split: list.splits)
    (metis (mono_tags, lifting) length_filter_less less_not_refl filter_id_conv)

text \<open>The loop moves tokens from one list to the other, and the two stay apart.\<close>

lemma move_end_tokens_sound:
  assumes "move_end_tokens encode ts hidden visible = Inr (hidden', visible')"
    and "set visible \<inter> set hidden = {}"
  shows "set hidden' \<union> set visible' = set hidden \<union> set visible"
    and "set visible' \<inter> set hidden' = {}" "set visible \<subseteq> set visible'"
proof -
  have "set hidden' \<union> set visible' = set hidden \<union> set visible \<and> set visible' \<inter> set hidden' = {}
      \<and> set visible \<subseteq> set visible'"
    using assms
  proof (induction ts arbitrary: hidden visible)
    case Nil
    then show ?case by auto
  next
    case (Cons t ts)
    show ?case
    proof (cases "t = []")
      case True
      with Cons show ?thesis by simp
    next
      case False
      then obtain ids where ids: "encode t = Inr ids" using Cons.prems(1) by (auto split: sum.splits)
      obtain h was where h: "remove_single_token_marker hidden ids = (h, was)" by force
      show ?thesis
      proof (cases was)
        case True
        then obtain m where m: "ids = [m]" "m \<in> set hidden" "h = filter (\<lambda>t. t \<noteq> m) hidden"
          using h by (auto elim: remove_marker_Some)
        let ?v = "if m \<in> set visible then visible else visible @ [m]"
        have "move_end_tokens encode ts h ?v = Inr (hidden', visible')"
          using Cons.prems(1) False ids h True m(1) by simp
        moreover have "set ?v \<inter> set h = {}" using Cons.prems(2) m by auto
        ultimately have "set hidden' \<union> set visible' = set h \<union> set ?v \<and> set visible' \<inter> set hidden' = {}
            \<and> set ?v \<subseteq> set visible'"
          by (rule Cons.IH)
        moreover have "set h \<union> set ?v = set hidden \<union> set visible" using m by auto
        moreover have "set visible \<subseteq> set ?v" by auto
        ultimately show ?thesis by blast
      next
        case was: False
        then have "h = hidden" using h by (auto dest: remove_marker_False)
        then have "move_end_tokens encode ts hidden visible = Inr (hidden', visible')"
          using Cons.prems(1) False ids h was by simp
        then show ?thesis using Cons.prems(2) by (rule Cons.IH)
      qed
    qed
  qed
  then show "set hidden' \<union> set visible' = set hidden \<union> set visible"
    "set visible' \<inter> set hidden' = {}" "set visible \<subseteq> set visible'" by simp_all
qed

section \<open>Properties\<close>

text \<open>
  No stop token is lost.  Whatever end tokens the tool parser has, the engine still stops
  on every end-of-sequence id of the model and on every token the request stopped on; a token is
  moved from the hidden to the visible stops, never into both; and a visible stop of the request
  stays visible.
\<close>

lemma stop_tokens_preserved:
  assumes "build_stop_tokens end_tokens encode tool_parser has_tools choice eos sc = Inr sc'"
  shows "\<exists>hidden moved. sc_hidden sc' = Some hidden
     \<and> set hidden \<union> set moved = set eos \<union> set (unwrap_or [] (sc_hidden sc)) \<and> set hidden \<inter> set moved = {}
     \<and> set (unwrap_or [] (sc_visible sc')) = set (unwrap_or [] (sc_visible sc)) \<union> set moved
     \<and> sc_ignore_eos sc' = sc_ignore_eos sc"
proof -
  define hidden0 where "hidden0 = (case sc_hidden sc of Some ts \<Rightarrow> push_missing eos ts | None \<Rightarrow> eos)"
  have h0: "set hidden0 = set eos \<union> set (unwrap_or [] (sc_hidden sc))"
    by (auto simp: hidden0_def set_push_missing split: option.split)
  obtain hidden moved where
    run: "remove_tool_parser_end_tokens_from_hidden_stops end_tokens encode tool_parser has_tools choice hidden0
        = Inr (hidden, moved)"
    and sc': "sc' = sc\<lparr>sc_hidden := Some hidden,
      sc_visible := if moved = [] then sc_visible sc else Some (push_missing moved (unwrap_or [] (sc_visible sc)))\<rparr>"
    using assms unfolding build_stop_tokens_def hidden0_def [symmetric] Let_def by (auto split: sum.splits)
  have "set hidden \<union> set moved = set hidden0 \<and> set hidden \<inter> set moved = {}"
    using run move_end_tokens_sound [of encode _ hidden0 "[]" hidden moved]
    by (auto simp: remove_tool_parser_end_tokens_from_hidden_stops_def Let_def split: if_splits option.splits)
  then show ?thesis
    using h0 sc' by (intro exI [of _ hidden] exI [of _ moved]) (simp add: set_push_missing)
qed

definition sample_stops :: stop_conditions where
  "sample_stops = \<lparr>sc_hidden = Some [7], sc_visible = None, sc_ignore_eos = None\<rparr>"

lemma stop_tokens_preserved_sample:
  "\<exists>sc'. build_stop_tokens (\<lambda>_. Some [''<call>'']) (\<lambda>_. Inr [9]) (Some ''harmony'') True None [8, 9] sample_stops = Inr sc'
     \<and> (\<exists>moved. set (unwrap_or [] (sc_visible sc')) = set moved)"
proof -
  have "\<exists>sc'. build_stop_tokens (\<lambda>_. Some [''<call>'']) (\<lambda>_. Inr [9]) (Some ''harmony'') True None [8, 9] sample_stops = Inr sc'"
    by (simp add: build_stop_tokens_def remove_tool_parser_end_tokens_from_hidden_stops_def
        should_keep_tool_parser_end_tokens_visible_def remove_single_token_marker_def sample_stops_def push_missing_def)
  then obtain sc' where sc':
    "build_stop_tokens (\<lambda>_. Some [''<call>'']) (\<lambda>_. Inr [9]) (Some ''harmony'') True None [8, 9] sample_stops = Inr sc'" ..
  from stop_tokens_preserved [OF this] sc' show ?thesis by (auto simp: sample_stops_def)
qed

text \<open>
  A forced tool call is always decoded: when tool calls are parsed, the request has tools
  and requires a call or names a function, the response never takes the pass-through route.  A
  Kimi K3 response is never passed through at all, since its ordinary text is wrapped too.
\<close>

lemma forced_tool_call_is_decoded:
  assumes "ro_parsing_enabled r \<and> ro_has_tools r \<and> (ro_tool_choice r = Some TC_Required \<or> (\<exists>f. ro_tool_choice r = Some (TC_Named f)))
     \<or> is_kimi_k3 (effective_tool_call_parser tool_parser reasoning_parser)"
  shows "tool_processing_route G tool_parser reasoning_parser r \<noteq> PassThrough"
proof -
  let ?p = "effective_tool_call_parser tool_parser reasoning_parser"
  have "(ro_parsing_enabled r \<or> is_kimi_k3 ?p) \<and> should_apply_tool_jail ?p (ro_tool_choice r) (ro_has_tools r)"
    using assms by (cases ?p) (auto simp: should_apply_tool_jail_def)
  then show ?thesis
    unfolding tool_processing_route_def Let_def by (auto split: option.splits if_splits bool.splits)
qed

definition sample_registry :: parser_registry where
  "sample_registry =
     \<lparr>pr_unified_family = (\<lambda>_ _. None), pr_selected_family = (\<lambda>_ _. None), pr_v2_enabled = True, pr_v2_supports = (\<lambda>_. True)\<rparr>"

lemma forced_tool_call_is_decoded_sample:
  "tool_processing_route sample_registry None None
     \<lparr>ro_tool_choice = Some TC_Required, ro_structural_tag = False, ro_parsing_enabled = True, ro_has_tools = True\<rparr> \<noteq> PassThrough"
  by (rule forced_tool_call_is_decoded) simp

text \<open>
  Special tokens: a parser that matches on special tokens loses them only if the client
  asked for it in so many words, and then the builder warns; an omitted option is set to keep
  them, any explicit option is forwarded as it is.
\<close>

lemma special_tokens_kept_for_parsers:
  "(let (skip', warn) = resolve_skip_special_tokens skip tool_parser reasoning_parser in
    special_tokens_will_be_stripped skip' tool_parser reasoning_parser = warn
    \<and> warn = (skip = Some True \<and> parser_requires_special_tokens tool_parser reasoning_parser)
    \<and> skip' = (if skip = None \<and> parser_requires_special_tokens tool_parser reasoning_parser then Some False else skip))"
  by (simp add: resolve_skip_special_tokens_def special_tokens_will_be_stripped_def)

end
