(* ===== verification/Token_Budget.thy ===== *)
theory Token_Budget
  imports Ordered_Map
begin

text \<open>
  The token budget of a request (\<open>fix/dynamo/preprocessor.rs\<close>): when the frontend knows
  the length of the prompt, which requests it rejects under the policy the engine published,
  and the output cap it fills in when the request has none.
\<close>

section \<open>Lengths and limits\<close>

text \<open>\<open>TokenBudget\<close>, and the part of \<open>PreprocessedRequest\<close> the budget looks at.\<close>

record token_budget =
  tb_combined_limit :: u32
  tb_reject_prompt_overflow :: bool
  tb_reject_total_overflow :: bool

record budget_request =
  br_token_ids :: "token_id list"
  br_prompt_embeds :: "string option"
  br_expanded_len :: "nat option"
  br_media :: "(string, string list) omap option"
  br_max_tokens :: "u32 option"

text \<open>
  The rejections, with the public details they carry: the limit and the length of the request.
\<close>

datatype budget_error =
    Prompt_Overflow (err_limit: nat) (err_actual: nat)
  | Total_Overflow (err_limit: nat) (err_actual: nat) (err_prompt: nat) (err_requested: "u32 option")

definition prompt_overflow_error :: "nat \<Rightarrow> nat \<Rightarrow> budget_error" where
  "prompt_overflow_error token_count combined_limit = Prompt_Overflow combined_limit token_count"

definition omitted_max_tokens_default :: "nat \<Rightarrow> u32 option \<Rightarrow> bool \<Rightarrow> u32 option" where
  "omitted_max_tokens_default prompt_len token_limit preserve =
     (if preserve then None
      else map_option (\<lambda>limit. u32_saturating_sub limit (as_u32 prompt_len)) token_limit)"

definition exact_prompt_len ::
  "nat option \<Rightarrow> (string, string list) omap option \<Rightarrow> nat \<Rightarrow> nat option" where
  "exact_prompt_len expanded media token_ids_len =
     (let has_images = is_some_and (\<lambda>items. items \<noteq> [])
            (Option.bind media (\<lambda>m. om_get m ''image_url''));
          has_other_media = is_some_and
            (list_ex (\<lambda>(kind, items). kind \<noteq> ''image_url'' \<and> items \<noteq> [])) media in
      if has_other_media then None
      else case opt_filter (\<lambda>n. 0 < n) expanded of
        Some n \<Rightarrow> Some n
      | None \<Rightarrow> if has_images then None else Some token_ids_len)"

definition validate_requested_token_budget ::
  "nat \<Rightarrow> u32 option \<Rightarrow> token_budget option \<Rightarrow> budget_error + unit" where
  "validate_requested_token_budget prompt_len max_tokens budget =
     (case budget of
        None \<Rightarrow> Inr ()
      | Some tb \<Rightarrow>
          let combined_limit = unat (tb_combined_limit tb) in
          if combined_limit \<le> prompt_len then
            (if \<not> tb_reject_prompt_overflow tb then Inr ()
             else Inl (prompt_overflow_error prompt_len combined_limit))
          else
            let requested = usize_saturating_add prompt_len (unat (unwrap_or 1 max_tokens)) in
            if combined_limit < requested \<and> tb_reject_total_overflow tb
            then Inl (Total_Overflow combined_limit requested prompt_len max_tokens)
            else Inr ())"

definition request_prompt_len :: "budget_request \<Rightarrow> nat option" where
  "request_prompt_len r = exact_prompt_len (br_expanded_len r) (br_media r) (length (br_token_ids r))"

definition validate_preprocessed_token_budget ::
  "budget_request \<Rightarrow> token_budget option \<Rightarrow> budget_error + nat option" where
  "validate_preprocessed_token_budget r budget =
     (if is_some (br_prompt_embeds r) then Inr None
      else case request_prompt_len r of
        None \<Rightarrow> Inr None
      | Some n \<Rightarrow>
          (case validate_requested_token_budget n (br_max_tokens r) budget of
             Inl e \<Rightarrow> Inl e
           | Inr _ \<Rightarrow> Inr (Some n)))"

text \<open>
  The end of \<open>preprocess_request_with_options\<close>: validate, fill in an omitted cap unless
  the backend owns the prompt, and validate the derived budget again.
\<close>

definition settle_max_tokens ::
  "bool \<Rightarrow> token_budget option \<Rightarrow> budget_request \<Rightarrow> budget_error + budget_request" where
  "settle_max_tokens preserve budget r =
     (case validate_preprocessed_token_budget r budget of
        Inl e \<Rightarrow> Inl e
      | Inr None \<Rightarrow> Inr r
      | Inr (Some n) \<Rightarrow>
          if br_max_tokens r = None
             \<and> \<not> is_some_and (\<lambda>tb. unat (tb_combined_limit tb) \<le> n \<and> \<not> tb_reject_prompt_overflow tb) budget
          then
            (case omitted_max_tokens_default n (map_option tb_combined_limit budget) preserve of
               None \<Rightarrow> Inr r
             | Some m \<Rightarrow>
                 let r' = r\<lparr>br_max_tokens := Some m\<rparr> in
                 (case validate_preprocessed_token_budget r' budget of
                    Inl e \<Rightarrow> Inl e
                  | Inr _ \<Rightarrow> Inr r'))
          else Inr r)"

section \<open>Lemmas\<close>

lemma unat_u32_less: "unat (x :: u32) < 2 ^ 32"
  using unsigned_less [of x, where ?'a = nat] by simp

lemma u32_below_usize: "unat (x :: u32) + unat (y :: u32) \<le> usize_max"
proof -
  have "unat x < 2 ^ 32" "unat y < 2 ^ 32"
    by (rule unat_u32_less)+
  then show ?thesis by (simp add: usize_max_def)
qed

lemma saturating_below:
  assumes "p < unat (l :: u32)"
  shows "usize_saturating_add p (unat (m :: u32)) = p + unat m"
  using assms u32_below_usize [of l m] by (simp add: usize_saturating_add_def)

text \<open>The cast of a prompt length that is below a limit loses nothing.\<close>

lemma default_is_rest:
  assumes "p < unat (l :: u32)"
  shows "unat (u32_saturating_sub l (as_u32 p)) = unat l - p"
proof -
  have "p < 2 ^ 32" using assms unat_u32_less [of l] by simp
  then show ?thesis by (simp add: unat_u32_saturating_sub unat_as_u32)
qed

text \<open>A request fits a limit: its prompt with the output it asks for, or with one token.\<close>

definition fits :: "u32 \<Rightarrow> nat \<Rightarrow> u32 option \<Rightarrow> bool" where
  "fits l p m = (p < unat l \<and> p + unat (unwrap_or 1 m) \<le> unat l)"

lemma validate_strict:
  assumes "tb_reject_prompt_overflow tb" "tb_reject_total_overflow tb"
  shows "validate_requested_token_budget p m (Some tb) = Inr () \<longleftrightarrow> fits (tb_combined_limit tb) p m"
  using assms saturating_below [of p "tb_combined_limit tb"]
  by (auto simp: validate_requested_token_budget_def Let_def fits_def)

lemma sum_unit_cases: "(x :: 'e + unit) = Inr () \<or> (\<exists>e. x = Inl e)"
  by (cases x) simp_all

section \<open>Properties\<close>

text \<open>
  C35.  Under a policy that rejects overflows, a request whose prompt length is known is let
  through exactly when it fits: the prompt is shorter than the combined limit, and prompt and
  requested output (one token if none is requested) stay within it.  What is let through keeps
  a requested cap; an omitted one becomes the rest of the limit, to the token, unless omission
  is preserved.  The arithmetic neither wraps nor saturates on the way.
\<close>

theorem settled_request_fits:
  assumes "tb_reject_prompt_overflow tb" "tb_reject_total_overflow tb"
    and "br_prompt_embeds r = None" "request_prompt_len r = Some p"
  shows "settle_max_tokens preserve (Some tb) r =
     (if fits (tb_combined_limit tb) p (br_max_tokens r)
      then Inr (if br_max_tokens r = None \<and> \<not> preserve
                then r\<lparr>br_max_tokens := Some (of_nat (unat (tb_combined_limit tb) - p))\<rparr> else r)
      else Inl (if unat (tb_combined_limit tb) \<le> p
                then Prompt_Overflow (unat (tb_combined_limit tb)) p
                else Total_Overflow (unat (tb_combined_limit tb)) (p + unat (unwrap_or 1 (br_max_tokens r))) p
                       (br_max_tokens r)))"
proof (cases "fits (tb_combined_limit tb) p (br_max_tokens r)")
  case True
  let ?l = "tb_combined_limit tb"
  let ?d = "u32_saturating_sub ?l (as_u32 p)"
  have lt: "p < unat ?l" using True by (simp add: fits_def)
  have d: "?d = of_nat (unat ?l - p)"
    using arg_cong [OF default_is_rest [OF lt], of "of_nat :: nat \<Rightarrow> u32"] by simp
  have "fits ?l p (Some ?d)" using lt default_is_rest [OF lt] by (simp add: fits_def)
  then have v': "validate_requested_token_budget p (Some ?d) (Some tb) = Inr ()"
    using validate_strict [OF assms(1,2)] by simp
  have v: "validate_requested_token_budget p (br_max_tokens r) (Some tb) = Inr ()"
    using validate_strict [OF assms(1,2)] True by simp
  have len: "request_prompt_len (r\<lparr>br_max_tokens := x\<rparr>) = Some p" for x
    using assms(4) by (simp add: request_prompt_len_def)
  show ?thesis
    using True v v' assms(1,3,4) len d
    by (auto simp: settle_max_tokens_def validate_preprocessed_token_budget_def Let_def
        omitted_max_tokens_default_def)
next
  case False
  let ?l = "tb_combined_limit tb"
  have "validate_requested_token_budget p (br_max_tokens r) (Some tb) =
      Inl (if unat ?l \<le> p then Prompt_Overflow (unat ?l) p
           else Total_Overflow (unat ?l) (p + unat (unwrap_or 1 (br_max_tokens r))) p (br_max_tokens r))"
    using False assms(1,2) saturating_below [of p ?l "unwrap_or 1 (br_max_tokens r)"]
    by (auto simp: validate_requested_token_budget_def Let_def fits_def prompt_overflow_error_def)
  with False assms(3,4) show ?thesis
    by (simp add: settle_max_tokens_def validate_preprocessed_token_budget_def)
qed

definition sample_budget :: token_budget where
  "sample_budget = \<lparr>tb_combined_limit = 10, tb_reject_prompt_overflow = True, tb_reject_total_overflow = True\<rparr>"

definition sample_budget_request :: budget_request where
  "sample_budget_request =
     \<lparr>br_token_ids = [1, 2, 3], br_prompt_embeds = None, br_expanded_len = None, br_media = None,
      br_max_tokens = None\<rparr>"

theorem settled_request_fits_witness:
  "settle_max_tokens False (Some sample_budget) sample_budget_request =
     Inr (sample_budget_request\<lparr>br_max_tokens := Some 7\<rparr>)"
proof -
  have "fits 10 3 None" by (simp add: fits_def)
  then show ?thesis
    using settled_request_fits [of sample_budget sample_budget_request 3 False]
    by (simp add: sample_budget_def sample_budget_request_def request_prompt_len_def exact_prompt_len_def)
qed

text \<open>
  Whatever the policy, the frontend never shortens what the client asked for, and it
  never fills in a cap for a request whose prompt length it cannot know: a request with prompt
  embeddings, with images that were not expanded, or with any other media passes unchanged.
\<close>

lemma settle_preserves_request:
  assumes "settle_max_tokens preserve budget r = Inr r'"
  shows "r'\<lparr>br_max_tokens := br_max_tokens r\<rparr> = r
     \<and> (br_max_tokens r \<noteq> None \<or> br_prompt_embeds r \<noteq> None \<or> request_prompt_len r = None \<longrightarrow> r' = r)"
  using assms
  by (auto simp: settle_max_tokens_def validate_preprocessed_token_budget_def is_some_iff Let_def
      split: sum.splits option.splits if_splits)

lemma settle_preserves_request_sample:
  "settle_max_tokens False (Some sample_budget) (sample_budget_request\<lparr>br_max_tokens := Some 2\<rparr>) =
     Inr (sample_budget_request\<lparr>br_max_tokens := Some 2\<rparr>)
   \<and> (sample_budget_request\<lparr>br_max_tokens := Some 2\<rparr>)\<lparr>br_max_tokens := Some 2\<rparr> =
       sample_budget_request\<lparr>br_max_tokens := Some 2\<rparr>"
proof -
  have s: "settle_max_tokens False (Some sample_budget) (sample_budget_request\<lparr>br_max_tokens := Some 2\<rparr>) =
     Inr (sample_budget_request\<lparr>br_max_tokens := Some 2\<rparr>)"
    by (simp add: settle_max_tokens_def validate_preprocessed_token_budget_def request_prompt_len_def
        exact_prompt_len_def validate_requested_token_budget_def sample_budget_def sample_budget_request_def
        usize_saturating_add_def usize_max_def)
  from settle_preserves_request [OF s] s show ?thesis by simp
qed

end
