(* ===== verification/Mm_Routing.thy ===== *)
theory Mm_Routing
  imports Json
begin

text \<open>
  Exact routing of multimodal requests (\<open>fix/dynamo/preprocessor.rs\<close>): the frontend
  predicts the tokens the worker will see once the media placeholders of a prompt are expanded,
  in the form in which the worker reports its cache blocks, so that a request is routed to the
  worker that holds its prefix.

  The tokenizer, the token counter of the image processor, the hash of a medium as a token and
  the normalization of the worker's events are code outside the repository.
\<close>

section \<open>Data\<close>

record image_entry =
  im_hash :: u64
  im_width :: u32
  im_height :: u32

record tracked_replacement =
  mr_hash :: u64
  mr_target :: "token_id list"
  mr_worker :: "token_id list"
  mr_routing :: "token_id list"

datatype routing_entry =
    Image_Entry u64 u32 u32
  | Video_Entry u64 token_id "token_id option" "token_id list" "token_id list"

datatype image_layout =
    RepeatedPad
  | WrappedRepeatedPad token_id token_id
  | KimiK3 token_id token_id token_id

datatype dimension_policy = Encoded | ExifTransposed

datatype prompt_kind = Kind_RepeatedPad | Kind_Nemotron | Kind_KimiK3

record routing_kit =
  rk_encode :: "string \<Rightarrow> string + token_id list"
  rk_encode_segment :: "string \<Rightarrow> bool \<Rightarrow> string + token_id list"
  rk_pad_value :: "u64 \<Rightarrow> token_id"
  rk_normalize_placeholders :: "token_id list \<Rightarrow> token_id option \<Rightarrow> token_id option \<Rightarrow> u64 list \<Rightarrow> token_id list option"
  rk_normalize_runs :: "token_id list \<Rightarrow> token_id \<Rightarrow> u64 list \<Rightarrow> token_id list option"
  rk_image_context :: string
  rk_image_start :: string
  rk_image_end :: string

datatype mm_error =
    Block_Size_Zero
  | Bad_Replacements
  | Capacity_Overflow
  | Placeholder_Order
  | Placeholder_Missing
  | Normalization_Differs

section \<open>Layouts and policies\<close>

definition entry_hash :: "routing_entry \<Rightarrow> u64" where
  "entry_hash e = (case e of Image_Entry h _ _ \<Rightarrow> h | Video_Entry h _ _ _ _ \<Rightarrow> h)"

definition is_video :: "routing_entry \<Rightarrow> bool" where
  "is_video e = (case e of Image_Entry _ _ _ \<Rightarrow> False | Video_Entry _ _ _ _ _ \<Rightarrow> True)"

definition layout_accepts_next_entry :: "bool \<Rightarrow> bool \<Rightarrow> bool \<times> bool" where
  "layout_accepts_next_entry previous_was_video current_is_video =
     (\<not> (previous_was_video \<and> current_is_video), current_is_video)"

fun unambiguous_from :: "bool \<Rightarrow> routing_entry list \<Rightarrow> bool" where
  "unambiguous_from previous [] = True"
| "unambiguous_from previous (e # es) =
     (let (accepted, previous') = layout_accepts_next_entry previous (is_video e) in
      accepted \<and> unambiguous_from previous' es)"

definition entries_are_unambiguous :: "routing_entry list \<Rightarrow> bool" where
  "entries_are_unambiguous es = unambiguous_from False es"

definition routing_bos_to_prepend :: "token_id option \<Rightarrow> bool \<Rightarrow> token_id option" where
  "routing_bos_to_prepend configured has_image = (if has_image then configured else None)"

definition routing_image_dimension_policy :: "bool option \<Rightarrow> bool \<Rightarrow> image_layout option \<Rightarrow> dimension_policy" where
  "routing_image_dimension_policy generate_capability frontend_decoding layout =
     (if unwrap_or False generate_capability \<and> \<not> frontend_decoding
         \<and> (case layout of Some (KimiK3 _ _ _) \<Rightarrow> True | _ \<Rightarrow> False)
      then ExifTransposed else Encoded)"

definition single_id :: "string + token_id list \<Rightarrow> string + token_id" where
  "single_id r =
     (case r of
        Inl e \<Rightarrow> Inl e
      | Inr [t] \<Rightarrow> Inr t
      | Inr _ \<Rightarrow> Inl ''expected exactly one id'')"

definition resolve_routing_image_prompt_layout ::
  "routing_kit \<Rightarrow> prompt_kind \<Rightarrow> token_id option \<Rightarrow> string + image_layout" where
  "resolve_routing_image_prompt_layout K kind expected =
     (case kind of
        Kind_RepeatedPad \<Rightarrow> Inr RepeatedPad
      | Kind_Nemotron \<Rightarrow>
          (case single_id (rk_encode K (rk_image_context K)) of
             Inl e \<Rightarrow> Inl e
           | Inr context \<Rightarrow>
               (case expected of
                  None \<Rightarrow> Inl ''Nemotron image context token id is unavailable''
                | Some t \<Rightarrow>
                    if context \<noteq> t then Inl ''Nemotron tokenizer image-context id does not match config id''
                    else (case single_id (rk_encode K (rk_image_start K)) of
                      Inl e \<Rightarrow> Inl e
                    | Inr s \<Rightarrow> map_sum id (WrappedRepeatedPad s) (single_id (rk_encode K (rk_image_end K))))))
      | Kind_KimiK3 \<Rightarrow>
          (case single_id (rk_encode_segment K ''<|media_begin|>'' True) of
             Inl e \<Rightarrow> Inl e
           | Inr b \<Rightarrow>
               (case single_id (rk_encode_segment K ''<|media_content|>'' True) of
                  Inl e \<Rightarrow> Inl e
                | Inr c \<Rightarrow> map_sum id (KimiK3 b c) (single_id (rk_encode_segment K ''<|media_end|>'' True)))))"

section \<open>Replacements\<close>

text \<open>The decimal form of a number, as \<open>format!\<close> prints it.\<close>

fun show_nat :: "nat \<Rightarrow> string" where
  "show_nat n = (if n < 10 then [char_of (48 + n)] else show_nat (n div 10) @ [char_of (48 + n mod 10)])"

declare show_nat.simps [simp del]

text \<open>What the replacement of one image appends.\<close>

definition mm_routing_replacement_with_fill ::
  "routing_kit \<Rightarrow> image_layout \<Rightarrow> image_entry \<Rightarrow> nat \<Rightarrow> token_id \<Rightarrow> string + token_id list" where
  "mm_routing_replacement_with_fill K layout im n fill =
     (case layout of
        RepeatedPad \<Rightarrow> Inr (replicate n fill)
      | WrappedRepeatedPad s e \<Rightarrow> Inr ([s] @ replicate n fill @ [e])
      | KimiK3 b c e \<Rightarrow>
          map_sum id (\<lambda>dims. [b] @ dims @ [c] @ replicate n fill @ [e])
            (rk_encode_segment K (''image '' @ show_nat (unat (im_width im)) @ ''x'' @ show_nat (unat (im_height im))) False))"

definition mm_routing_replacement :: "routing_kit \<Rightarrow> image_layout \<Rightarrow> image_entry \<Rightarrow> nat \<Rightarrow> string + token_id list" where
  "mm_routing_replacement K layout im n =
     mm_routing_replacement_with_fill K layout im n (rk_pad_value K (im_hash im))"

text \<open>
  The prompt of a request with images only.  The counter gives one count per image, which the
  code asserts, so images and counts are walked together.
\<close>

fun expand_tokens ::
  "routing_kit \<Rightarrow> image_layout \<Rightarrow> token_id \<Rightarrow> (image_entry \<times> nat) list \<Rightarrow> token_id list \<Rightarrow> string + token_id list" where
  "expand_tokens K layout pad images [] = Inr []"
| "expand_tokens K layout pad images (t # ts) =
     (case images of
        (im, n) # rest \<Rightarrow>
          if t = pad then
            (case mm_routing_replacement K layout im n of
               Inl e \<Rightarrow> Inl e
             | Inr r \<Rightarrow> map_sum id (\<lambda>out. r @ out) (expand_tokens K layout pad rest ts))
          else map_sum id (Cons t) (expand_tokens K layout pad images ts)
      | [] \<Rightarrow> map_sum id (Cons t) (expand_tokens K layout pad images ts))"

definition expand_mm_routing_tokens ::
  "routing_kit \<Rightarrow> image_layout \<Rightarrow> token_id option \<Rightarrow> token_id \<Rightarrow> image_entry list \<Rightarrow> nat list \<Rightarrow> token_id list \<Rightarrow>
     string + token_id list \<times> nat" where
  "expand_mm_routing_tokens K layout bos pad images counts toks =
     map_sum id (\<lambda>out. let expanded = (case bos of Some b \<Rightarrow> b # out | None \<Rightarrow> out) in (expanded, length expanded))
       (expand_tokens K layout pad (zip images counts) toks)"

definition try_expand_mm_routing_tokens ::
  "routing_kit \<Rightarrow> image_layout \<Rightarrow> token_id option \<Rightarrow> token_id \<Rightarrow> image_entry list \<Rightarrow> nat list \<Rightarrow> token_id list \<Rightarrow>
     (token_id list \<times> nat) option" where
  "try_expand_mm_routing_tokens K layout bos pad images counts toks =
     (case expand_mm_routing_tokens K layout bos pad images counts toks of Inr r \<Rightarrow> Some r | Inl _ \<Rightarrow> None)"

section \<open>Tracked replacements\<close>

definition distinct_targets :: "tracked_replacement list \<Rightarrow> token_id list list" where
  "distinct_targets rs = fold (\<lambda>r acc. if mr_target r \<in> set acc then acc else acc @ [mr_target r]) rs []"

definition replacement_tokens :: "tracked_replacement list \<Rightarrow> nat option" where
  "replacement_tokens rs =
     fold (\<lambda>r total. Option.bind total (\<lambda>n. usize_checked_add n (length (mr_routing r)))) rs (Some 0)"

definition token_capacity :: "token_id option \<Rightarrow> tracked_replacement list \<Rightarrow> token_id list \<Rightarrow> nat option" where
  "token_capacity bos rs toks =
     Option.bind (replacement_tokens rs) (\<lambda>n.
     Option.bind (usize_checked_add (length toks) n) (\<lambda>m. usize_checked_add m (if is_some bos then 1 else 0)))"

text \<open>
  The scan over the prompt: worker tokens, routing tokens, and the spans of the media in them.
  \<open>start\<close> is the number of tokens produced so far.
\<close>

type_synonym span = "nat \<times> nat \<times> u64"

function place_replacements ::
  "token_id list list \<Rightarrow> tracked_replacement list \<Rightarrow> token_id list \<Rightarrow> nat \<Rightarrow>
     mm_error + token_id list \<times> token_id list \<times> span list" where
  "place_replacements targets rs [] start = (if rs = [] then Inr ([], [], []) else Inl Placeholder_Missing)"
| "place_replacements targets rs (t # ts) start =
     (if rs \<noteq> [] \<and> prefix (mr_target (hd rs)) (t # ts) then
        let r = hd rs; stop = start + length (mr_worker r) in
        map_sum id (\<lambda>(w, rt, spans). (mr_worker r @ w, mr_routing r @ rt, (start, stop, mr_hash r) # spans))
          (place_replacements targets (tl rs) (drop (length (mr_target r)) (t # ts)) stop)
      else if list_ex (\<lambda>target. prefix target (t # ts)) targets then Inl Placeholder_Order
      else map_sum id (\<lambda>(w, rt, spans). (t # w, t # rt, spans)) (place_replacements targets rs ts (Suc start)))"
  by pat_completeness auto
termination
  by (relation "measure (\<lambda>(targets, rs, toks, start). length toks + length rs)") (auto simp: neq_Nil_conv)

definition div_ceil :: "nat \<Rightarrow> nat \<Rightarrow> nat" where
  "div_ceil n b = (n + b - 1) div b"

definition resize :: "nat \<Rightarrow> token_id list \<Rightarrow> token_id list" where
  "resize n xs = take n xs @ replicate (n - length xs) 0"

definition block_of :: "nat \<Rightarrow> nat \<Rightarrow> 'a list \<Rightarrow> 'a list" where
  "block_of b i xs = take b (drop (i * b) xs)"

text \<open>The media a block intersects, and the worker's normal form of the block, if it has one.\<close>

definition block_hashes :: "nat \<Rightarrow> span list \<Rightarrow> nat \<Rightarrow> u64 list" where
  "block_hashes b spans i =
     map (\<lambda>(_, _, h). h) (filter (\<lambda>(s, e, _). s < i * b + b \<and> e > i * b) spans)"

definition normalized_block ::
  "routing_kit \<Rightarrow> token_id option \<Rightarrow> token_id option \<Rightarrow> u64 list \<Rightarrow> token_id list \<Rightarrow> token_id list option" where
  "normalized_block K image_token video_token hashes worker_block =
     (if is_some video_token then rk_normalize_placeholders K worker_block image_token video_token hashes
      else case image_token of
        Some t \<Rightarrow> if t \<in> set worker_block then rk_normalize_runs K worker_block t hashes else None
      | None \<Rightarrow> None)"

text \<open>One pass of the loop over the blocks: the routing block as it is left, and its metadata.\<close>

definition settle_block ::
  "routing_kit \<Rightarrow> token_id option \<Rightarrow> token_id option \<Rightarrow> u64 list \<Rightarrow> token_id list \<Rightarrow> token_id list \<Rightarrow>
     mm_error + token_id list \<times> u64 list option" where
  "settle_block K image_token video_token hashes worker_block routing_block =
     (if hashes = [] then Inr (routing_block, None)
      else case normalized_block K image_token video_token hashes worker_block of
        Some n \<Rightarrow> if n = routing_block then Inr (routing_block, None) else Inl Normalization_Differs
      | None \<Rightarrow> Inr (worker_block, Some hashes))"

fun settle_blocks ::
  "routing_kit \<Rightarrow> token_id option \<Rightarrow> token_id option \<Rightarrow> nat \<Rightarrow> span list \<Rightarrow> token_id list \<Rightarrow> token_id list \<Rightarrow> nat list \<Rightarrow>
     mm_error + (token_id list \<times> u64 list option) list" where
  "settle_blocks K it vt b spans worker routing [] = Inr []"
| "settle_blocks K it vt b spans worker routing (i # rest) =
     (case settle_block K it vt (block_hashes b spans i) (block_of b i worker) (block_of b i routing) of
        Inl e \<Rightarrow> Inl e
      | Inr r \<Rightarrow> map_sum id (Cons r) (settle_blocks K it vt b spans worker routing rest))"

definition apply_tracked_mm_replacements ::
  "routing_kit \<Rightarrow> token_id option \<Rightarrow> tracked_replacement list \<Rightarrow> token_id list \<Rightarrow> nat \<Rightarrow> token_id option \<Rightarrow> token_id option \<Rightarrow>
     mm_error + token_id list \<times> nat \<times> u64 list option list" where
  "apply_tracked_mm_replacements K bos rs toks b image_token video_token =
     (if b = 0 then Inl Block_Size_Zero
      else if \<not> list_all (\<lambda>r. mr_target r \<noteq> [] \<and> length (mr_worker r) = length (mr_routing r)) rs then Inl Bad_Replacements
      else if token_capacity bos rs toks = None then Inl Capacity_Overflow
      else
        let first = (case bos of Some t \<Rightarrow> [t] | None \<Rightarrow> []) in
        case place_replacements (distinct_targets rs) rs toks (length first) of
          Inl e \<Rightarrow> Inl e
        | Inr (w, rt, spans) \<Rightarrow>
            let n = length (first @ rt);
                padded = div_ceil n b * b;
                worker = resize padded (first @ w);
                routing = resize padded (first @ rt) in
            map_sum id (\<lambda>blocks. (concat (map fst blocks), n, map snd blocks))
              (settle_blocks K image_token video_token b spans worker routing [0..<padded div b]))"

section \<open>The routing information of a request\<close>

record image_counter =
  ic_request_budget :: bool
  ic_count_images :: "(u32 \<times> u32) list \<Rightarrow> nat \<Rightarrow> nat \<Rightarrow> string + nat list"
  ic_count :: "u32 \<Rightarrow> u32 \<Rightarrow> nat"

record routing_setup =
  su_counter :: "image_counter option"
  su_image_token :: "token_id option"
  su_layout :: "image_layout option"
  su_block_size :: nat
  su_bos :: "token_id option"
  su_context :: u32

record mm_routing_info =
  mi_tokens :: "token_id list"
  mi_blocks :: "u64 list option list"
  mi_prompt_len :: nat

text \<open>The replacement of an entry in a prompt with several kinds of media; \<open>None\<close> on an error.\<close>

definition entry_replacement ::
  "routing_kit \<Rightarrow> image_counter \<Rightarrow> image_layout \<Rightarrow> token_id \<Rightarrow> routing_entry \<Rightarrow> tracked_replacement option" where
  "entry_replacement K counter layout image_token e =
     (case e of
        Image_Entry h w ht \<Rightarrow>
          let n = ic_count counter w ht; im = \<lparr>im_hash = h, im_width = w, im_height = ht\<rparr> in
          (case mm_routing_replacement K layout im n of
             Inl _ \<Rightarrow> None
           | Inr routing \<Rightarrow>
               (case mm_routing_replacement_with_fill K layout im n image_token of
                  Inl _ \<Rightarrow> None
                | Inr worker \<Rightarrow>
                    Some \<lparr>mr_hash = h, mr_target = [image_token], mr_worker = worker, mr_routing = routing\<rparr>))
      | Video_Entry h placeholder _ target replacement \<Rightarrow>
          Some \<lparr>mr_hash = h, mr_target = target, mr_worker = replacement,
                mr_routing = map (\<lambda>t. if t = placeholder then rk_pad_value K h else t) replacement\<rparr>)"

fun entry_replacements ::
  "routing_kit \<Rightarrow> image_counter \<Rightarrow> image_layout \<Rightarrow> token_id \<Rightarrow> routing_entry list \<Rightarrow> tracked_replacement list option" where
  "entry_replacements K counter layout image_token [] = Some []"
| "entry_replacements K counter layout image_token (e # es) =
     (case entry_replacement K counter layout image_token e of
        None \<Rightarrow> None
      | Some r \<Rightarrow> map_option (Cons r) (entry_replacements K counter layout image_token es))"

definition image_of :: "routing_entry \<Rightarrow> image_entry option" where
  "image_of e = (case e of Image_Entry h w ht \<Rightarrow> Some \<lparr>im_hash = h, im_width = w, im_height = ht\<rparr> | _ \<Rightarrow> None)"

definition event_video_token :: "routing_entry list \<Rightarrow> token_id option" where
  "event_video_token es =
     fold (\<lambda>e acc. case (acc, e) of (None, Video_Entry _ _ t _ _) \<Rightarrow> t | _ \<Rightarrow> acc) es None"

definition expand_images ::
  "routing_kit \<Rightarrow> routing_setup \<Rightarrow> image_counter \<Rightarrow> image_layout \<Rightarrow> token_id \<Rightarrow> routing_entry list \<Rightarrow> token_id list \<Rightarrow>
     nat option \<Rightarrow> (token_id list \<times> nat \<times> u64 list option list) option" where
  "expand_images K su counter layout image_token entries toks text_len =
     (let images = List.map_filter image_of entries in
      if length (filter (\<lambda>t. t = image_token) toks) \<noteq> length images then None
      else
        let dims = map (\<lambda>im. (im_width im, im_height im)) images in
        case (if ic_request_budget counter then text_len else Some (length toks)) of
          None \<Rightarrow> None
        | Some len \<Rightarrow>
            (case ic_count_images counter dims (unat (su_context su)) len of
               Inl _ \<Rightarrow> None
             | Inr counts \<Rightarrow>
                 map_option (\<lambda>(expanded, n). (expanded, n, []))
                   (try_expand_mm_routing_tokens K layout (su_bos su) image_token images counts toks)))"

text \<open>
  In a prompt with videos an image needs its counter, token and layout, which the caller has
  checked; a prompt of videos only uses neither of them.
\<close>

definition expand_mixed ::
  "routing_kit \<Rightarrow> routing_setup \<Rightarrow> routing_entry list \<Rightarrow> token_id list \<Rightarrow>
     (token_id list \<times> nat \<times> u64 list option list) option" where
  "expand_mixed K su entries toks =
     (let has_image = list_ex (\<lambda>e. \<not> is_video e) entries;
          video_token = event_video_token entries;
          no_counter = \<lparr>ic_request_budget = False, ic_count_images = (\<lambda>_ _ _. Inr []), ic_count = (\<lambda>_ _. 0)\<rparr> in
      if has_image \<and> is_some_and ic_request_budget (su_counter su) then None
      else if video_token = None \<and> length entries \<noteq> 1 then None
      else
        case entry_replacements K (unwrap_or no_counter (su_counter su)) (unwrap_or RepeatedPad (su_layout su))
               (unwrap_or 0 (su_image_token su)) entries of
          None \<Rightarrow> None
        | Some rs \<Rightarrow>
            (case apply_tracked_mm_replacements K (routing_bos_to_prepend (su_bos su) has_image) rs toks (su_block_size su)
                    (su_image_token su) video_token of
               Inl _ \<Rightarrow> None
             | Inr r \<Rightarrow> Some r))"

definition build_mm_exact_routing_info ::
  "routing_kit \<Rightarrow> routing_setup \<Rightarrow> routing_entry list \<Rightarrow> token_id list \<Rightarrow> nat option \<Rightarrow> mm_routing_info option" where
  "build_mm_exact_routing_info K su entries toks text_len =
     (let has_image = list_ex (\<lambda>e. \<not> is_video e) entries in
      if entries = [] then None
      else if \<not> entries_are_unambiguous entries then None
      else if has_image \<and> su_counter su = None then None
      else if has_image \<and> su_image_token su = None then None
      else if has_image \<and> su_layout su = None then None
      else if su_block_size su = 0 then None
      else
        map_option (\<lambda>(expanded, n, infos).
            \<lparr>mi_tokens = resize (div_ceil (length expanded) (su_block_size su) * su_block_size su) expanded,
             mi_blocks = infos, mi_prompt_len = n\<rparr>)
          (if list_all (\<lambda>e. \<not> is_video e) entries
           then (case (su_counter su, su_layout su, su_image_token su) of
                   (Some counter, Some layout, Some t) \<Rightarrow> expand_images K su counter layout t entries toks text_len
                 | _ \<Rightarrow> None)
           else expand_mixed K su entries toks))"

section \<open>The reference\<close>

text \<open>A prompt with something between its gaps, and where in it the media are.\<close>

fun weave :: "'a list list \<Rightarrow> 'a list list \<Rightarrow> 'a list" where
  "weave [] xs = concat xs"
| "weave (g # gs) [] = g @ concat gs"
| "weave (g # gs) (x # xs) = g @ x @ weave gs xs"

fun weave_spans :: "nat \<Rightarrow> token_id list list \<Rightarrow> tracked_replacement list \<Rightarrow> span list" where
  "weave_spans start (g # gs) (r # rs) =
     (let s = start + length g; e = s + length (mr_worker r) in (s, e, mr_hash r) # weave_spans e gs rs)"
| "weave_spans start gs rs = []"

text \<open>
  How the worker reports a block: without media as it is; with media in the normal form of the
  event, or, where there is none, as it is and with the media of the block beside it.
\<close>

definition event_block ::
  "routing_kit \<Rightarrow> token_id option \<Rightarrow> token_id option \<Rightarrow> nat \<Rightarrow> span list \<Rightarrow> token_id list \<Rightarrow> nat \<Rightarrow> token_id list \<times> u64 list option" where
  "event_block K it vt b spans worker i =
     (let hashes = block_hashes b spans i; block = block_of b i worker in
      if hashes = [] then (block, None)
      else case normalized_block K it vt hashes block of
        Some n \<Rightarrow> (n, None)
      | None \<Rightarrow> (block, Some hashes))"

section \<open>Lemmas\<close>

lemma map_sum_eq_InrE:
  assumes "map_sum f g x = Inr y"
  obtains z where "x = Inr z" "y = g z"
  using assms by (cases x) auto

lemma place_weaves:
  assumes "place_replacements targets rs toks start = Inr (w, rt, spans)"
    and "list_all (\<lambda>r. mr_target r \<noteq> []) rs"
  shows "\<exists>gaps. length gaps = Suc (length rs) \<and> toks = weave gaps (map mr_target rs) \<and>
     w = weave gaps (map mr_worker rs) \<and> rt = weave gaps (map mr_routing rs) \<and> spans = weave_spans start gaps rs"
  using assms
proof (induction targets rs toks start arbitrary: w rt spans rule: place_replacements.induct)
  case (1 targets rs start)
  then show ?case by (intro exI [of _ "[[]]"]) (auto split: if_splits)
next
  case (2 targets rs t ts start)
  show ?case
  proof (cases "rs \<noteq> [] \<and> prefix (mr_target (hd rs)) (t # ts)")
    case True
    then obtain r rs' where rs: "rs = r # rs'" by (cases rs) auto
    with True obtain rest where rest: "t # ts = mr_target r @ rest" by (auto simp: prefix_def)
    then have "drop (length (mr_target r)) (t # ts) = rest" by simp
    with 2(3) [unfolded place_replacements.simps(2) if_P [OF True] Let_def] rs obtain w' rt' spans' where
      "place_replacements targets rs' rest (start + length (mr_worker r)) = Inr (w', rt', spans')"
      and out: "w = mr_worker r @ w'" "rt = mr_routing r @ rt'"
        "spans = (start, start + length (mr_worker r), mr_hash r) # spans'"
      by (auto elim!: map_sum_eq_InrE)
    with 2(1) [OF True refl refl] 2(4) rs rest obtain gaps where
      "length gaps = Suc (length rs')" "rest = weave gaps (map mr_target rs')" "w' = weave gaps (map mr_worker rs')"
      "rt' = weave gaps (map mr_routing rs')" "spans' = weave_spans (start + length (mr_worker r)) gaps rs'"
      by auto
    then show ?thesis using rs rest out by (intro exI [of _ "[] # gaps"]) (simp add: Let_def)
  next
    case False
    with 2(3) [unfolded place_replacements.simps(2) if_not_P [OF False]] obtain w' rt' where order: "\<not> list_ex (\<lambda>target. prefix target (t # ts)) targets"
      and "place_replacements targets rs ts (Suc start) = Inr (w', rt', spans)" and out: "w = t # w'" "rt = t # rt'"
      by (auto split: if_splits elim!: map_sum_eq_InrE)
    with 2(2) [OF False order] 2(4) obtain gaps where gaps:
      "length gaps = Suc (length rs)" "ts = weave gaps (map mr_target rs)" "w' = weave gaps (map mr_worker rs)"
      "rt' = weave gaps (map mr_routing rs)" "spans = weave_spans (Suc start) gaps rs"
      by blast
    then obtain g gs where "gaps = g # gs" by (cases gaps) auto
    with gaps out show ?thesis by (intro exI [of _ "(t # g) # gs"]) (cases rs; simp add: Let_def)
  qed
qed

lemma weave_agrees_outside:
  assumes "list_all (\<lambda>r. length (mr_worker r) = length (mr_routing r)) rs" "length gaps = Suc (length rs)"
  shows "length (weave gaps (map mr_worker rs)) = length (weave gaps (map mr_routing rs))"
    and "p < length (weave gaps (map mr_worker rs)) \<Longrightarrow>
      \<forall>(s, e, h) \<in> set (weave_spans start gaps rs). \<not> (s \<le> start + p \<and> start + p < e) \<Longrightarrow>
      weave gaps (map mr_worker rs) ! p = weave gaps (map mr_routing rs) ! p"
  using assms
proof (induction start gaps rs arbitrary: p rule: weave_spans.induct)
  case (1 start g gs r rs)
  {
    case 1
    then show ?case using "1.IH"(1) by (simp add: Let_def)
  next
    case 2
    let ?n = "length g" and ?m = "length (mr_worker r)"
    consider "p < ?n" | "?n \<le> p" "p < ?n + ?m" | "?n + ?m \<le> p" by linarith
    then show ?case
    proof cases
      case 3
      have "weave gs (map mr_worker rs) ! (p - ?n - ?m) = weave gs (map mr_routing rs) ! (p - ?n - ?m)"
        by (rule "1.IH"(2) [OF refl refl]) (use 2 3 in \<open>auto simp: Let_def\<close>)
      moreover have "\<not> p < ?n" "\<not> p - ?n < ?m" using 3 by simp_all
      ultimately show ?thesis using 2 by (simp add: nth_append)
    qed (use 2 in \<open>auto simp: nth_append Let_def\<close>)
  }
qed auto

lemma div_ceil_bounds:
  assumes "0 < b"
  shows "n \<le> div_ceil n b * b" "div_ceil n b * b < n + b"
proof -
  have "(n + b - 1) div b * b + (n + b - 1) mod b = n + b - 1" "(n + b - 1) mod b < b"
    using assms by simp_all
  then show "n \<le> div_ceil n b * b" "div_ceil n b * b < n + b"
    using assms unfolding div_ceil_def by linarith+
qed

lemma div_ceil_mult: "0 < b \<Longrightarrow> div_ceil (k * b) b = k"
proof -
  assume b: "0 < b"
  then have "(k * b + b - 1) div b = ((b - 1) + k * b) div b" by (simp add: add.commute)
  also have "\<dots> = k" using b by (subst div_mult_self1) auto
  finally show ?thesis by (simp add: div_ceil_def)
qed

lemma length_resize [simp]: "length (resize n xs) = n"
  by (simp add: resize_def)

lemma resize_nth: "length xs \<le> n \<Longrightarrow> p < n \<Longrightarrow> resize n xs ! p = (if p < length xs then xs ! p else 0)"
  by (simp add: resize_def nth_append)

lemma concat_blocks:
  assumes "length xs = k * b"
  shows "concat (map (\<lambda>i. block_of b i xs) [0..<k]) = xs"
  using assms
proof (induction k arbitrary: xs)
  case 0
  then show ?case by simp
next
  case (Suc k)
  have "block_of b i xs = block_of b i (take (k * b) xs)" if "i < k" for i
  proof -
    have "i * b + b \<le> k * b" using that by (metis Suc_leI add.commute mult_Suc mult_le_mono1)
    then show ?thesis by (simp add: block_of_def drop_take min_def)
  qed
  then have eq: "map (\<lambda>i. block_of b i xs) [0..<k] = map (\<lambda>i. block_of b i (take (k * b) xs)) [0..<k]"
    by simp
  have "length (take (k * b) xs) = k * b" using Suc.prems by simp
  then have "concat (map (\<lambda>i. block_of b i xs) [0..<k]) = take (k * b) xs"
    unfolding eq by (rule Suc.IH)
  moreover have "block_of b k xs = drop (k * b) xs" using Suc.prems by (simp add: block_of_def)
  ultimately show ?case by simp
qed

lemma settle_blocks_events:
  assumes "settle_blocks K it vt b spans worker routing is = Inr blocks"
    and "\<And>i. i \<in> set is \<Longrightarrow> block_hashes b spans i = [] \<Longrightarrow> block_of b i routing = block_of b i worker"
  shows "blocks = map (event_block K it vt b spans worker) is"
  using assms
proof (induction "is" arbitrary: blocks)
  case Nil
  then show ?case by simp
next
  case (Cons i rest)
  then obtain r bs where r: "settle_block K it vt (block_hashes b spans i) (block_of b i worker) (block_of b i routing) = Inr r"
    and bs: "settle_blocks K it vt b spans worker routing rest = Inr bs" and blocks: "blocks = r # bs"
    by (auto split: sum.splits elim!: map_sum_eq_InrE)
  have "r = event_block K it vt b spans worker i"
    using r Cons.prems(2) [of i] by (auto simp: settle_block_def event_block_def Let_def split: if_splits option.splits)
  moreover have "bs = map (event_block K it vt b spans worker) rest"
    by (rule Cons.IH [OF bs]) (simp add: Cons.prems(2))
  ultimately show ?case by (simp add: blocks)
qed

lemma block_outside_spans:
  assumes "block_hashes b spans i = []" "p < b" "(s, e, h) \<in> set spans"
  shows "\<not> (s \<le> i * b + p \<and> i * b + p < e)"
  using assms by (fastforce simp: block_hashes_def filter_empty_conv)

lemma block_agrees:
  assumes "block_hashes b (weave_spans (length first) gaps rs) i = []" "Suc i * b \<le> padded"
    and "list_all (\<lambda>r. length (mr_worker r) = length (mr_routing r)) rs" "length gaps = Suc (length rs)"
    and "length (first @ weave gaps (map mr_worker rs)) \<le> padded"
  shows "block_of b i (resize padded (first @ weave gaps (map mr_routing rs))) =
         block_of b i (resize padded (first @ weave gaps (map mr_worker rs)))"
proof (rule nth_equalityI)
  let ?w = "weave gaps (map mr_worker rs)" and ?r = "weave gaps (map mr_routing rs)"
  note len = weave_agrees_outside(1) [OF assms(3,4)]
  show "length (block_of b i (resize padded (first @ ?r))) = length (block_of b i (resize padded (first @ ?w)))"
    by (simp add: block_of_def)
  fix p
  assume "p < length (block_of b i (resize padded (first @ ?r)))"
  then have p: "p < b" "i * b + p < padded" using assms(2) by (auto simp: block_of_def)
  have "?w ! (i * b + p - length first) = ?r ! (i * b + p - length first)"
    if "length first \<le> i * b + p" "i * b + p < length first + length ?w"
  proof (rule weave_agrees_outside(2) [OF assms(3,4)])
    show "i * b + p - length first < length ?w" using that by linarith
    show "\<forall>(s, e, h) \<in> set (weave_spans (length first) gaps rs).
        \<not> (s \<le> length first + (i * b + p - length first) \<and> length first + (i * b + p - length first) < e)"
      using block_outside_spans [OF assms(1) p(1)] that by auto
  qed
  then have "resize padded (first @ ?r) ! (i * b + p) = resize padded (first @ ?w) ! (i * b + p)"
    using p(2) assms(5) len by (auto simp: resize_nth nth_append)
  then show "block_of b i (resize padded (first @ ?r)) ! p = block_of b i (resize padded (first @ ?w)) ! p"
    using p by (simp add: block_of_def)
qed

section \<open>Properties\<close>


definition sample_routing_kit :: routing_kit where
  "sample_routing_kit =
     \<lparr>rk_encode = (\<lambda>_. Inr [1]), rk_encode_segment = (\<lambda>_ _. Inr [1]), rk_pad_value = (\<lambda>_. 9),
      rk_normalize_placeholders = (\<lambda>block _ _ _. Some (map (\<lambda>t. if t = 7 then 9 else t) block)),
      rk_normalize_runs = (\<lambda>_ _ _. None),
      rk_image_context = ''<image>'', rk_image_start = ''<img>'', rk_image_end = ''</img>''\<rparr>"

definition sample_replacement :: tracked_replacement where
  "sample_replacement = \<lparr>mr_hash = 5, mr_target = [7], mr_worker = [7, 7], mr_routing = [9, 9]\<rparr>"

lemma sample_routing:
  "apply_tracked_mm_replacements sample_routing_kit None [sample_replacement] [1, 7, 2] 2 None (Some 7) =
     Inr ([1, 9, 9, 2], 4, [None, None])"
proof -
  have cap: "token_capacity None [sample_replacement] [1, 7, 2] = Some 5"
    by (simp add: token_capacity_def replacement_tokens_def sample_replacement_def usize_checked_add_def usize_max_def)
  have place: "place_replacements (distinct_targets [sample_replacement]) [sample_replacement] [1, 7, 2] 0 =
      Inr ([1, 7, 7, 2], [1, 9, 9, 2], [(1, 3, 5)])"
    by (simp add: sample_replacement_def distinct_targets_def Let_def)
  have upt: "[0..<2] = [0, Suc 0]" by (simp add: upt_rec)
  have wf: "list_all (\<lambda>r. mr_target r \<noteq> [] \<and> length (mr_worker r) = length (mr_routing r)) [sample_replacement]"
    by (simp add: sample_replacement_def)
  have two: "div_ceil (Suc (Suc (Suc (Suc 0)))) 2 = 2" by (simp add: div_ceil_def)
  show ?thesis
    unfolding apply_tracked_mm_replacements_def cap
    using wf place
    by (simp add: Let_def two upt resize_def block_of_def
        block_hashes_def settle_block_def normalized_block_def sample_routing_kit_def del: place_replacements.simps)
qed


lemma settle_blocks_length:
  assumes "settle_blocks K it vt b spans worker routing is = Inr blocks" "length worker = length routing"
    and "\<And>i. i \<in> set is \<Longrightarrow> Suc i * b \<le> length routing"
  shows "length blocks = length is" "length (concat (map fst blocks)) = length is * b"
  using assms
proof (induction "is" arbitrary: blocks)
  case Nil
  {
    case 1
    then show ?case by simp
  next
    case 2
    then show ?case by simp
  }
next
  case (Cons i rest)
  have step: "length (fst r) = b" if "settle_block K it vt (block_hashes b spans i) (block_of b i worker) (block_of b i routing) = Inr r"
    "length worker = length routing" "Suc i * b \<le> length routing" for r
    using that by (auto simp: settle_block_def block_of_def split: if_splits option.splits)
  {
    case 1
    then show ?case using Cons.IH(1) by (auto split: sum.splits elim!: map_sum_eq_InrE)
  next
    case 2
    then show ?case using Cons.IH(2) step by (auto split: sum.splits elim!: map_sum_eq_InrE)
  }
qed

lemma tracked_aligned:
  assumes "apply_tracked_mm_replacements K bos rs toks b it vt = Inr (routing, n, infos)"
  shows "length routing = div_ceil n b * b" "length infos = div_ceil n b"
proof -
  let ?first = "case bos of Some t \<Rightarrow> [t] | None \<Rightarrow> []"
  have b: "0 < b" using assms by (auto simp: apply_tracked_mm_replacements_def split: if_splits)
  from assms obtain w rt spans blocks where
    settle: "settle_blocks K it vt b spans (resize (div_ceil n b * b) (?first @ w))
      (resize (div_ceil n b * b) (?first @ rt)) [0..<div_ceil n b * b div b] = Inr blocks"
    and out: "routing = concat (map fst blocks)" "infos = map snd blocks"
    by (auto simp: apply_tracked_mm_replacements_def Let_def split: if_splits sum.splits elim!: map_sum_eq_InrE)
  have bound: "Suc i * b \<le> length (resize (div_ceil n b * b) (?first @ rt))" if "i \<in> set [0..<div_ceil n b * b div b]" for i
    using that b by (simp del: mult_Suc)
  from settle_blocks_length [OF settle _ bound] b out
  show "length routing = div_ceil n b * b" "length infos = div_ceil n b" by simp_all
qed

lemma unambiguous_no_adjacent:
  assumes "unambiguous_from prev es"
  shows "\<not> (prev \<and> es \<noteq> [] \<and> is_video (hd es))" "\<And>xs x y ys. es = xs @ x # y # ys \<Longrightarrow> \<not> (is_video x \<and> is_video y)"
proof -
  show "\<not> (prev \<and> es \<noteq> [] \<and> is_video (hd es))"
    using assms by (cases es) (auto simp: layout_accepts_next_entry_def)
  show "\<not> (is_video x \<and> is_video y)" if "es = xs @ x # y # ys" for xs x y ys
    using assms that
    by (induction xs arbitrary: prev es) (auto simp: layout_accepts_next_entry_def)
qed

lemma expand_images_aligned:
  assumes "expand_images K su c l t entries toks text_len = Some (expanded, n, infos)"
  shows "length expanded = n" "infos = []"
  using assms
  by (auto simp: expand_images_def Let_def try_expand_mm_routing_tokens_def expand_mm_routing_tokens_def
      split: if_splits option.splits sum.splits elim!: map_sum_eq_InrE)

lemma expand_mixed_aligned:
  assumes "expand_mixed K su entries toks = Some (expanded, n, infos)"
  shows "length expanded = div_ceil n (su_block_size su) * su_block_size su" "length infos = div_ceil n (su_block_size su)"
proof -
  from assms obtain bos rs it vt where
    "apply_tracked_mm_replacements K bos rs toks (su_block_size su) it vt = Inr (expanded, n, infos)"
    unfolding expand_mixed_def Let_def by (simp split: if_splits option.splits sum.splits; blast)
  from tracked_aligned [OF this]
  show "length expanded = div_ceil n (su_block_size su) * su_block_size su" "length infos = div_ceil n (su_block_size su)" .
qed

lemma routing_info_source:
  assumes "build_mm_exact_routing_info K su entries toks text_len = Some info"
  obtains expanded n infos where
    "0 < su_block_size su" "entries_are_unambiguous entries"
    "info = \<lparr>mi_tokens = resize (div_ceil (length expanded) (su_block_size su) * su_block_size su) expanded,
       mi_blocks = infos, mi_prompt_len = n\<rparr>"
    "length expanded = n \<and> infos = [] \<or>
     length expanded = div_ceil n (su_block_size su) * su_block_size su \<and> length infos = div_ceil n (su_block_size su)"
proof -
  from assms have guards: "0 < su_block_size su" "entries_are_unambiguous entries"
    by (auto simp: build_mm_exact_routing_info_def Let_def split: if_splits)
  from assms obtain expanded n infos where
    info: "info = \<lparr>mi_tokens = resize (div_ceil (length expanded) (su_block_size su) * su_block_size su) expanded,
       mi_blocks = infos, mi_prompt_len = n\<rparr>"
    and src: "(\<exists>c l t. expand_images K su c l t entries toks text_len = Some (expanded, n, infos)) \<or>
      expand_mixed K su entries toks = Some (expanded, n, infos)"
    unfolding build_mm_exact_routing_info_def Let_def
    by (fastforce split: if_splits option.splits)
  from src that [OF guards info] show thesis
    using expand_images_aligned expand_mixed_aligned by metis
qed

text \<open>
  Routing information is well formed.  Whenever it is attached to a request, its tokens
  fill whole cache blocks and cover the expanded prompt with less than one block of padding; the
  metadata is absent or has one entry per block; and no two videos are adjacent in the request.
\<close>

lemma routing_info_aligned:
  assumes "build_mm_exact_routing_info K su entries toks text_len = Some info"
  shows "length (mi_tokens info) = div_ceil (mi_prompt_len info) (su_block_size su) * su_block_size su
     \<and> mi_prompt_len info \<le> length (mi_tokens info) \<and> length (mi_tokens info) < mi_prompt_len info + su_block_size su
     \<and> (mi_blocks info = [] \<or> length (mi_blocks info) * su_block_size su = length (mi_tokens info))
     \<and> (\<nexists>xs x y ys. entries = xs @ x # y # ys \<and> is_video x \<and> is_video y)"
proof -
  let ?b = "su_block_size su"
  from routing_info_source [OF assms] obtain expanded n infos where b: "0 < ?b"
    and un: "entries_are_unambiguous entries"
    and info: "info = \<lparr>mi_tokens = resize (div_ceil (length expanded) ?b * ?b) expanded, mi_blocks = infos, mi_prompt_len = n\<rparr>"
    and len: "length expanded = n \<and> infos = [] \<or> length expanded = div_ceil n ?b * ?b \<and> length infos = div_ceil n ?b" .
  from len have "length (mi_tokens info) = div_ceil n ?b * ?b" "infos = [] \<or> length infos = div_ceil n ?b"
    using b by (auto simp: info div_ceil_mult)
  moreover have "\<nexists>xs x y ys. entries = xs @ x # y # ys \<and> is_video x \<and> is_video y"
    using unambiguous_no_adjacent(2) un unfolding entries_are_unambiguous_def by blast
  moreover note div_ceil_bounds [OF b, of n]
  ultimately show ?thesis by (auto simp: info)
qed

definition sample_routing_setup :: routing_setup where
  "sample_routing_setup =
     \<lparr>su_counter = None, su_image_token = None, su_layout = None, su_block_size = 2, su_bos = Some 3, su_context = 100\<rparr>"

definition sample_video :: routing_entry where
  "sample_video = Video_Entry 5 7 (Some 7) [7] [7, 7]"

lemma sample_routing_info:
  "build_mm_exact_routing_info sample_routing_kit sample_routing_setup [sample_video] [1, 7, 2] None =
     Some \<lparr>mi_tokens = [1, 9, 9, 2], mi_blocks = [None, None], mi_prompt_len = 4\<rparr>"
proof -
  have r: "entry_replacement sample_routing_kit c l t sample_video = Some sample_replacement" for c l t
    by (simp add: entry_replacement_def sample_video_def sample_replacement_def sample_routing_kit_def)
  have v: "is_video sample_video" "event_video_token [sample_video] = Some 7"
    by (simp_all add: sample_video_def is_video_def event_video_token_def)
  have "expand_mixed sample_routing_kit sample_routing_setup [sample_video] [1, 7, 2] = Some ([1, 9, 9, 2], 4, [None, None])"
    unfolding expand_mixed_def Let_def
    using sample_routing by (simp add: r v sample_routing_setup_def routing_bos_to_prepend_def)
  then show ?thesis
    by (simp add: build_mm_exact_routing_info_def Let_def v entries_are_unambiguous_def layout_accepts_next_entry_def
        sample_routing_setup_def div_ceil_def resize_def)
qed

lemma routing_info_aligned_sample:
  "length [1, 9, 9, 2 :: token_id] = div_ceil 4 2 * 2
     \<and> (\<nexists>xs x y ys. [sample_video] = xs @ x # y # ys \<and> is_video x \<and> is_video y)"
  using routing_info_aligned [OF sample_routing_info] by (simp add: sample_routing_setup_def)

end
