(* ===== verification/Request_Builder.thy ===== *)
theory Request_Builder
  imports Response_Policy Token_Budget Mm_Routing
begin

text \<open>
  Building the request for the backend (\<open>fix/dynamo/preprocessor.rs\<close>): the builder with its
  stop conditions, routing hints and passed-through arguments, the rendered prompt, and its
  tokens.

  The protocol types' readers, the renderer, the tokenizer and the parser registries are code
  outside the repository: the request record holds what the readers return, and the record
  \<open>build_lib\<close> the functions.
\<close>

section \<open>Requests\<close>

datatype request_error =
    Invalid_Argument string
  | Internal_Error string
  | Over_Budget budget_error

record agent_hints =
  ah_priority :: "int option"
  ah_latency_sensitivity :: "rat option"
  ah_strict_priority :: "u32 option"
  ah_osl :: "u32 option"
  ah_speculative_prefill :: "bool option"

record nv_ext =
  nx_extra_fields :: "string list option"
  nx_metadata_upload :: "json option"
  nx_token_data :: "token_id list option"
  nx_agent_hints :: "agent_hints option"
  nx_request_timestamp :: "u64 option"
  nx_backend_instance :: "u64 option"
  nx_prefill_worker :: "u64 option"
  nx_decode_worker :: "u64 option"
  nx_dp_rank :: "u32 option"
  nx_prefill_dp_rank :: "u32 option"
  nx_routing_constraints :: "json option"
  nx_router :: "json option"
  nx_use_raw_prompt :: "bool option"

datatype token_input = Tokens_Single "token_id list" | Tokens_Batch "token_id list list"
datatype text_input = Text_Single string | Text_Batch "string list"
datatype prompt_input = Input_Tokens | Input_Text

record media_part =
  mp_type :: string
  mp_url :: "string option"
  mp_uuid :: "string option"

record build_request =
  bq_model :: string
  bq_think :: think_request
  bq_tools :: "json option"
  bq_system_tools :: "nat option list option"
  bq_stop :: "request_error + stop_conditions"
  bq_max_tokens :: "u32 option"
  bq_sampling :: "request_error + json"
  bq_skip_special :: "request_error + bool option"
  bq_annotations :: "string list option"
  bq_nvext :: "nv_ext option"
  bq_cache_salt :: "string option"
  bq_unsupported :: "(string, json) omap option"
  bq_mm_kwargs :: "json option"
  bq_media_io :: "json option"
  bq_input :: prompt_input
  bq_tokens :: "token_input option"
  bq_text :: "text_input option"
  bq_raw_prompt :: "string option"
  bq_continue_final :: "bool option"
  bq_messages :: json
  bq_parts :: "media_part list list option"

text \<open>A rendered prompt: its text and, where control tokens are kept apart, its segments.\<close>

record rendered_prompt =
  rp_text :: string
  rp_segments :: "(string \<times> bool) list option"

record build_lib =
  bl_end_tokens :: "string \<Rightarrow> string list option"
  bl_encode :: "string \<Rightarrow> string + token_id list"
  bl_encode_segments :: "(string \<times> bool) list \<Rightarrow> string + token_id list"
  bl_thinking :: thinking_lib
  bl_apply_ignore_eos :: "stop_conditions \<Rightarrow> stop_conditions"
  bl_constraints :: "json \<Rightarrow> json"
  bl_render :: "json \<Rightarrow> build_request \<Rightarrow> string + rendered_prompt"
  bl_normalize_arguments :: "json \<Rightarrow> json"
  bl_append_final_tag :: "json \<Rightarrow> json"
  bl_continue_final :: "rendered_prompt \<Rightarrow> string + rendered_prompt"
  bl_show_tokens :: "token_id list \<Rightarrow> string"

text \<open>The fields of \<open>OpenAIPreprocessor\<close> the builder reads.\<close>

record deployment =
  dp_eos :: "token_id list"
  dp_tool_parser :: "string option"
  dp_reasoning_parser :: "string option"
  dp_lora :: "string option"
  dp_mdcsum :: string
  dp_media_loader :: bool
  dp_budget :: "token_budget option"
  dp_normalize_tool_call_args :: bool

record routing_hints =
  rh_backend_instance :: "u64 option"
  rh_prefill_worker :: "u64 option"
  rh_decode_worker :: "u64 option"
  rh_dp_rank :: "u32 option"
  rh_prefill_dp_rank :: "u32 option"
  rh_expected_output :: "u32 option"
  rh_priority_jump :: "rat option"
  rh_strict_priority :: "u32 option"
  rh_priority :: "int option"
  rh_lora :: "string option"
  rh_cache_namespace :: "string option"
  rh_constraints :: "json option"

definition default_hints :: routing_hints where
  "default_hints =
     \<lparr>rh_backend_instance = None, rh_prefill_worker = None, rh_decode_worker = None, rh_dp_rank = None,
      rh_prefill_dp_rank = None, rh_expected_output = None, rh_priority_jump = None, rh_strict_priority = None,
      rh_priority = None, rh_lora = None, rh_cache_namespace = None, rh_constraints = None\<rparr>"

text \<open>
  The media of a request: still a URL, a cache identity of the client, or decoded.  A descriptor
  of decoded media is read through its shape, its hash, and for a video its dimensions, sampling
  and hash.
\<close>

record descriptor =
  de_shape :: "nat list"
  de_content_hash :: "u64 option"
  de_video_dimensions :: "string + nat \<times> nat \<times> nat"
  de_video_metadata :: "string + rat \<times> rat list"
  de_video_hash :: "string + u64"

datatype media_data = Media_Url string | Media_Uuid string | Media_Decoded descriptor

text \<open>What the builder sets; \<open>None\<close> is a field left to its default.\<close>

record built_request =
  bt_model :: string
  bt_stop :: stop_conditions
  bt_max_tokens :: "u32 option"
  bt_eos :: "token_id list option"
  bt_sampling :: json
  bt_skip_special :: "bool option"
  bt_annotations :: "string list"
  bt_mdc_sum :: "string option"
  bt_timestamp :: "u64 option"
  bt_routing :: "routing_hints option"
  bt_extra_args :: "json option"
  bt_require_reasoning :: bool
  bt_mm_kwargs :: "json option"
  bt_media_io :: "json option"
  bt_tokens :: "token_id list"
  bt_prompt_embeds :: "string option"
  bt_router :: "json option"
  bt_media :: "(string, media_data list) omap option"
  bt_uuids :: "(string, string option list) omap option"
  bt_routing_info :: "mm_routing_info option"

section \<open>Passed-through arguments\<close>

definition routing_priorities :: "agent_hints option \<Rightarrow> rat option \<times> u32 option \<times> int option" where
  "routing_priorities hints =
     (let jump = Option.bind hints (\<lambda>h.
            case ah_priority h of
              Some p \<Rightarrow> Some (of_int (max p 0))
            | None \<Rightarrow> ah_latency_sensitivity h) in
      (jump, Option.bind hints ah_strict_priority, Option.bind hints ah_priority))"

definition insert_some :: "string \<Rightarrow> json option \<Rightarrow> (string, json) omap \<Rightarrow> (string, json) omap" where
  "insert_some k v m = (case v of Some x \<Rightarrow> om_insert k x m | None \<Rightarrow> m)"

definition non_empty :: "(string, json) omap \<Rightarrow> (string, json) omap option" where
  "non_empty m = (if m = [] then None else Some m)"

definition nvext_passthrough_args :: "build_request \<Rightarrow> (string, json) omap option" where
  "nvext_passthrough_args r =
     (let from_nvext = (case bq_nvext r of
            None \<Rightarrow> []
          | Some nx \<Rightarrow>
              insert_some ''token_in'' (if is_some (nx_token_data nx) then Some (JBool True) else None)
                (insert_some ''metadata_upload'' (nx_metadata_upload nx)
                  (insert_some ''extra_fields'' (map_option (\<lambda>fs. JArray (map JString fs)) (nx_extra_fields nx)) []))) in
      non_empty (insert_some ''cache_salt'' (map_option JString (bq_cache_salt r)) from_nvext))"

definition sampling_keys :: "string list" where
  "sampling_keys = [''detokenize'', ''allowed_token_ids'', ''bad_words_token_ids'', ''logprob_token_ids'']"

definition sampling_passthrough_args :: "build_request \<Rightarrow> (string, json) omap option" where
  "sampling_passthrough_args r =
     non_empty (case bq_unsupported r of
        None \<Rightarrow> []
      | Some given \<Rightarrow> fold (\<lambda>k. insert_some k (om_get given k)) sampling_keys [])"

definition backend_extra_args :: "build_request \<Rightarrow> bool \<Rightarrow> bool option \<Rightarrow> json option" where
  "backend_extra_args r reasoning_parser_configured reasoning_ended =
     map_option JObject (non_empty
       (insert_some ''reasoning_ended'' (if reasoning_parser_configured then map_option JBool reasoning_ended else None)
         (insert_some ''reasoning_parser_kwargs''
            (if reasoning_parser_configured
             then map_option (\<lambda>args. JObject [(''chat_template_kwargs'', JObject args)]) (tr_args (bq_think r)) else None)
           (insert_some ''sampling_options'' (map_option JObject (sampling_passthrough_args r))
             (insert_some ''nvext'' (map_option JObject (nvext_passthrough_args r)) [])))))"

section \<open>The builder\<close>

definition request_routing :: "build_lib \<Rightarrow> deployment \<Rightarrow> build_request \<Rightarrow> string option \<Rightarrow> routing_hints option" where
  "request_routing L D r lora_override =
     (let lora = (case dp_lora D of Some l \<Rightarrow> Some l | None \<Rightarrow> lora_override);
          namespace = bq_cache_salt r in
      case bq_nvext r of
        Some nx \<Rightarrow>
          let (jump, strict, priority) = routing_priorities (nx_agent_hints nx) in
          Some \<lparr>rh_backend_instance = nx_backend_instance nx, rh_prefill_worker = nx_prefill_worker nx,
            rh_decode_worker = nx_decode_worker nx, rh_dp_rank = nx_dp_rank nx, rh_prefill_dp_rank = nx_prefill_dp_rank nx,
            rh_expected_output = Option.bind (nx_agent_hints nx) ah_osl, rh_priority_jump = jump,
            rh_strict_priority = strict, rh_priority = priority, rh_lora = lora, rh_cache_namespace = namespace,
            rh_constraints = map_option (bl_constraints L) (nx_routing_constraints nx)\<rparr>
      | None \<Rightarrow>
          if is_some lora \<or> is_some namespace
          then Some (default_hints\<lparr>rh_lora := lora, rh_cache_namespace := namespace\<rparr>) else None)"

definition request_stops :: "build_lib \<Rightarrow> deployment \<Rightarrow> build_request \<Rightarrow> request_error + stop_conditions" where
  "request_stops L D r =
     (case bq_stop r of
        Inl e \<Rightarrow> Inl e
      | Inr sc \<Rightarrow>
          map_sum Internal_Error (bl_apply_ignore_eos L)
            (build_stop_tokens (bl_end_tokens L) (bl_encode L) (dp_tool_parser D)
               (request_has_effective_tools (bq_tools r) (bq_system_tools r)) (choice_value (bq_think r)) (dp_eos D) sc))"

definition builder_with_lora ::
  "build_lib \<Rightarrow> deployment \<Rightarrow> build_request \<Rightarrow> string option \<Rightarrow> request_error + built_request" where
  "builder_with_lora L D r lora_override =
     (case request_stops L D r of
        Inl e \<Rightarrow> Inl e
      | Inr sc \<Rightarrow>
          (case bq_sampling r of
             Inl e \<Rightarrow> Inl e
           | Inr sampling \<Rightarrow>
               (case bq_skip_special r of
                  Inl e \<Rightarrow> Inl e
                | Inr skip \<Rightarrow>
                    Inr \<lparr>bt_model = bq_model r, bt_stop = sc, bt_max_tokens = bq_max_tokens r,
                      bt_eos = (if unwrap_or False (sc_ignore_eos sc) then None else Some (dp_eos D)),
                      bt_sampling = sampling,
                      bt_skip_special = fst (resolve_skip_special_tokens skip (dp_tool_parser D) (dp_reasoning_parser D)),
                      bt_annotations = unwrap_or [] (bq_annotations r), bt_mdc_sum = Some (dp_mdcsum D),
                      bt_timestamp = Option.bind (bq_nvext r) nx_request_timestamp,
                      bt_routing = request_routing L D r lora_override,
                      bt_extra_args = backend_extra_args r (is_some (dp_reasoning_parser D)) None,
                      bt_require_reasoning =
                        guided_output_requires_reasoning (bl_thinking L) (dp_reasoning_parser D) (bq_think r),
                      bt_mm_kwargs = bq_mm_kwargs r,
                      bt_media_io = (if dp_media_loader D then None else bq_media_io r),
                      bt_tokens = [], bt_prompt_embeds = None, bt_router = None, bt_media = None, bt_uuids = None, bt_routing_info = None\<rparr>)))"

section \<open>The prompt\<close>

text \<open>\<open>NormalizedArgsRequest::messages\<close>: the messages the template sees.\<close>

definition template_messages :: "build_lib \<Rightarrow> bool \<Rightarrow> bool \<Rightarrow> json \<Rightarrow> json" where
  "template_messages L norm_args continue_final messages =
     (let m = (if norm_args then bl_normalize_arguments L messages else messages) in
      if continue_final then bl_append_final_tag L m else m)"

definition apply_template_inner ::
  "build_lib \<Rightarrow> json \<Rightarrow> build_request \<Rightarrow> request_error + rendered_prompt option" where
  "apply_template_inner L messages r =
     (case (bq_input r, bq_text r) of
        (Input_Text, Some (Text_Single _)) \<Rightarrow>
          let render = map_sum Invalid_Argument Some (bl_render L messages r) in
          if is_some_and (\<lambda>nx. unwrap_or False (nx_use_raw_prompt nx)) (bq_nvext r) then
            (case bq_raw_prompt r of
               Some p \<Rightarrow> Inr (Some \<lparr>rp_text = p, rp_segments = None\<rparr>)
             | None \<Rightarrow> render)
          else render
      | _ \<Rightarrow> Inr None)"

definition apply_template :: "build_lib \<Rightarrow> deployment \<Rightarrow> build_request \<Rightarrow> request_error + rendered_prompt option" where
  "apply_template L D r =
     (let continue_final = (bq_continue_final r = Some True) in
      case apply_template_inner L
             (if dp_normalize_tool_call_args D \<or> continue_final
              then template_messages L (dp_normalize_tool_call_args D) continue_final (bq_messages r)
              else bq_messages r) r of
        Inl e \<Rightarrow> Inl e
      | Inr None \<Rightarrow> Inr None
      | Inr (Some p) \<Rightarrow>
          if \<not> continue_final then Inr (Some p)
          else map_sum Invalid_Argument Some (bl_continue_final L p))"

section \<open>Tokens\<close>

definition encode_with_timing :: "build_lib \<Rightarrow> string \<Rightarrow> string + token_id list" where
  "encode_with_timing L prompt = bl_encode L (remove_nul prompt)"

definition encode_prompt_with_timing ::
  "build_lib \<Rightarrow> rendered_prompt option \<Rightarrow> string \<Rightarrow> string + token_id list" where
  "encode_prompt_with_timing L formatted raw =
     (case Option.bind formatted rp_segments of
        Some segments \<Rightarrow> bl_encode_segments L segments
      | None \<Rightarrow> encode_with_timing L (case formatted of Some p \<Rightarrow> rp_text p | None \<Rightarrow> raw))"

definition has_annotation :: "build_request \<Rightarrow> string \<Rightarrow> bool" where
  "has_annotation r a = is_some_and (\<lambda>as. a \<in> set as) (bq_annotations r)"

definition capture_prompt_token_ids :: "build_request \<Rightarrow> bool \<Rightarrow> token_id list \<Rightarrow> token_id list option" where
  "capture_prompt_token_ids r tracked toks =
     (let requested = is_some_and (\<lambda>names. ''prompt_token_ids'' \<in> set names)
            (Option.bind (bq_nvext r) nx_extra_fields) in
      if requested \<and> tracked then Some toks else None)"

type_synonym annotation_map = "(string, string) omap"

text \<open>A single text: supplied tokens are used as they are, otherwise the prompt is encoded.\<close>

definition single_text_tokens ::
  "build_lib \<Rightarrow> build_request \<Rightarrow> rendered_prompt option \<Rightarrow> string \<Rightarrow> request_error + token_id list \<times> annotation_map" where
  "single_text_tokens L r formatted raw =
     (let prompt_note = (case formatted of
            Some p \<Rightarrow> if has_annotation r ''formatted_prompt'' then [(''formatted_prompt'', rp_text p)] else []
          | None \<Rightarrow> []) in
      case Option.bind (bq_nvext r) nx_token_data of
        Some toks \<Rightarrow> Inr (toks, prompt_note)
      | None \<Rightarrow>
          map_sum Internal_Error (\<lambda>toks. (toks,
              if has_annotation r ''token_ids'' then om_insert ''token_ids'' (bl_show_tokens L toks) prompt_note
              else prompt_note))
            (encode_prompt_with_timing L formatted raw))"

definition gather_tokens ::
  "build_lib \<Rightarrow> build_request \<Rightarrow> rendered_prompt option \<Rightarrow> request_error + token_id list \<times> annotation_map" where
  "gather_tokens L r formatted =
     (case bq_input r of
        Input_Tokens \<Rightarrow>
          (case bq_tokens r of
             None \<Rightarrow> Inr ([], [])
           | Some (Tokens_Single toks) \<Rightarrow> Inr (toks, [])
           | Some (Tokens_Batch [toks]) \<Rightarrow> Inr (toks, [])
           | Some (Tokens_Batch _) \<Rightarrow> Inl (Internal_Error ''Batch token input not supported''))
      | Input_Text \<Rightarrow>
          (case bq_text r of
             None \<Rightarrow> Inr ([], [])
           | Some (Text_Single raw) \<Rightarrow> single_text_tokens L r formatted raw
           | Some (Text_Batch [t]) \<Rightarrow> map_sum Internal_Error (\<lambda>toks. (toks, [])) (encode_with_timing L t)
           | Some (Text_Batch _) \<Rightarrow> Inl (Internal_Error ''Batch text input not supported'')))"

section \<open>Lemmas\<close>

lemma get_insert_some [simp]: "om_get (insert_some k v m) k' = (if k' = k \<and> v \<noteq> None then v else om_get m k')"
  by (cases v) (auto simp: insert_some_def)

lemma ordered_insert_some [simp]: "om_ordered m \<Longrightarrow> om_ordered (insert_some k v m)"
  by (simp add: insert_some_def split: option.split)

lemma insert_some_eq_Nil [simp]: "insert_some k v m = [] \<longleftrightarrow> v = None \<and> m = []"
  by (simp add: insert_some_def split: option.split)

lemma get_non_empty: "Option.bind (non_empty m) (\<lambda>m. om_get m k) = om_get m k"
  by (simp add: non_empty_def)

text \<open>The arguments of the backend are an object, if there are any, with these members.\<close>

lemma backend_extra_args_object:
  assumes "backend_extra_args r configured ended = Some v"
  obtains m where "v = JObject m" "om_ordered m" "m \<noteq> []"
    "\<And>k. k \<notin> {''nvext'', ''sampling_options'', ''reasoning_parser_kwargs'', ''reasoning_ended''} \<Longrightarrow> om_get m k = None"
    "om_get m ''nvext'' = map_option JObject (nvext_passthrough_args r)"
    "om_get m ''sampling_options'' = map_option JObject (sampling_passthrough_args r)"
    "om_get m ''reasoning_ended'' = (if configured then map_option JBool ended else None)"
  using assms that unfolding backend_extra_args_def non_empty_def
  by (fastforce split: if_splits)

lemma cache_salt_forwarded:
  "Option.bind (nvext_passthrough_args r) (\<lambda>m. om_get m ''cache_salt'') = map_option JString (bq_cache_salt r)"
  by (simp add: nvext_passthrough_args_def Let_def get_non_empty split: option.split)

section \<open>A sample request\<close>

definition sample_stops :: stop_conditions where
  "sample_stops = \<lparr>sc_hidden = None, sc_visible = None, sc_ignore_eos = None\<rparr>"

definition sample_build_request :: build_request where
  "sample_build_request =
     \<lparr>bq_model = ''m'',
      bq_think = \<lparr>tr_thinking = None, tr_args = None, tr_tool_choice = None, tr_response_format = None\<rparr>,
      bq_tools = None, bq_system_tools = None, bq_stop = Inr sample_stops,
      bq_max_tokens = Some 8, bq_sampling = Inr (JObject []), bq_skip_special = Inr None, bq_annotations = None,
      bq_nvext = None, bq_cache_salt = Some ''tenant'', bq_unsupported = None, bq_mm_kwargs = None, bq_media_io = None,
      bq_input = Input_Text, bq_tokens = None, bq_text = Some (Text_Single ''hi''), bq_raw_prompt = None,
      bq_continue_final = None, bq_messages = JArray [], bq_parts = None\<rparr>"

definition sample_build_lib :: build_lib where
  "sample_build_lib =
     \<lparr>bl_end_tokens = (\<lambda>_. None), bl_encode = (\<lambda>_. Inr [1, 7, 2]), bl_encode_segments = (\<lambda>_. Inr [1, 7, 2]),
      bl_thinking = \<lparr>tl_thinking_bool = (\<lambda>_. None), tl_parse_bool = (\<lambda>_. None), tl_is_truthy = (\<lambda>_. False)\<rparr>,
      bl_apply_ignore_eos = (\<lambda>sc. sc), bl_constraints = (\<lambda>c. c),
      bl_render = (\<lambda>_ _. Inr \<lparr>rp_text = ''<think>'', rp_segments = None\<rparr>),
      bl_normalize_arguments = (\<lambda>m. m), bl_append_final_tag = (\<lambda>m. m), bl_continue_final = Inr,
      bl_show_tokens = (\<lambda>_. [])\<rparr>"

definition sample_deployment :: deployment where
  "sample_deployment =
     \<lparr>dp_eos = [2], dp_tool_parser = None, dp_reasoning_parser = Some ''minimax_m2'', dp_lora = None, dp_mdcsum = ''sum'',
      dp_media_loader = True, dp_budget = None, dp_normalize_tool_call_args = False\<rparr>"

definition sample_built :: built_request where
  "sample_built =
     \<lparr>bt_model = ''m'', bt_stop = sample_stops\<lparr>sc_hidden := Some [2]\<rparr>, bt_max_tokens = Some 8, bt_eos = Some [2],
      bt_sampling = JObject [], bt_skip_special = None, bt_annotations = [], bt_mdc_sum = Some ''sum'', bt_timestamp = None,
      bt_routing = Some (default_hints\<lparr>rh_cache_namespace := Some ''tenant''\<rparr>),
      bt_extra_args = Some (JObject [(''nvext'', JObject [(''cache_salt'', JString ''tenant'')])]),
      bt_require_reasoning = False, bt_mm_kwargs = None, bt_media_io = None, bt_tokens = [], bt_prompt_embeds = None, bt_router = None,
      bt_media = None, bt_uuids = None, bt_routing_info = None\<rparr>"

lemma sample_builds:
  "builder_with_lora sample_build_lib sample_deployment sample_build_request None = Inr sample_built"
  by code_simp

end
