(* ===== verification/Media_Gather.thy ===== *)
theory Media_Gather
  imports Request_Builder
begin

text \<open>
  Gathering the media of a request (\<open>gather_multi_modal_data_with_image_tokens\<close> in
  \<open>fix/dynamo/preprocessor.rs\<close>): one slot per media part in request order, the results of
  the fetches written back into their slots, and, all or nothing, the routing information
  together with the hashes the worker gets.  The model is that of a build with the features
  \<open>mm-routing\<close> and \<open>media-ffmpeg\<close>.

  Fetching and decoding, the hash of a URL, the token counts and the video processor are code
  outside the repository or input and output: they are the functions of \<open>media_env\<close>.  What
  all fetches return is given by a function of the part, so the order in which the concurrent
  fetches end does not matter, as in the code, which zips tasks with results.
\<close>

section \<open>Small functions\<close>

definition checked_add_image_tokens :: "nat option \<Rightarrow> nat \<Rightarrow> nat option" where
  "checked_add_image_tokens so_far n = Option.bind so_far (\<lambda>t. usize_checked_add t n)"

definition has_mm_processor_override :: "json option \<Rightarrow> bool" where
  "has_mm_processor_override v =
     is_some_and (\<lambda>j. case j of JNull \<Rightarrow> False | JObject kvs \<Rightarrow> kvs \<noteq> [] | _ \<Rightarrow> True) v"

definition exact_mm_routing_preconditions_met :: "bool \<Rightarrow> nat \<Rightarrow> nat \<Rightarrow> bool \<Rightarrow> bool" where
  "exact_mm_routing_preconditions_met has_user_uuid resolved expected has_override =
     (\<not> has_user_uuid \<and> \<not> has_override \<and> resolved = expected)"

definition should_hash_decoded_video :: "bool \<Rightarrow> bool \<Rightarrow> bool \<Rightarrow> bool \<Rightarrow> bool" where
  "should_hash_decoded_video eligible has_user_uuid has_override has_processor =
     (eligible \<and> \<not> has_user_uuid \<and> \<not> has_override \<and> has_processor)"

definition exact_mm_routing_supports_modality :: "string \<Rightarrow> bool \<Rightarrow> bool" where
  "exact_mm_routing_supports_modality modality frontend_decoding =
     (modality = ''image_url'' \<or> (modality = ''video_url'' \<and> frontend_decoding))"

definition aggregate_image_tokens :: "nat option \<Rightarrow> nat \<Rightarrow> nat \<Rightarrow> bool \<Rightarrow> nat option" where
  "aggregate_image_tokens image_tokens resolved expected has_override =
     (if expected = 0 \<or> has_override \<or> resolved \<noteq> expected then None else image_tokens)"

text \<open>\<open>{:016x}\<close>: sixteen hexadecimal digits.\<close>

definition hex_digit :: "nat \<Rightarrow> char" where
  "hex_digit n = (if n < 10 then char_of (48 + n) else char_of (87 + n))"

definition hex16 :: "u64 \<Rightarrow> string" where
  "hex16 h = map (\<lambda>i. hex_digit (unat (drop_bit (4 * i) h) mod 16)) (rev [0..<16])"

text \<open>Inline data is blanked in the messages that go to the worker.\<close>

definition set_member :: "string \<Rightarrow> json \<Rightarrow> json \<Rightarrow> json" where
  "set_member k x v = (case v of JObject kvs \<Rightarrow> JObject (om_insert k x kvs) | _ \<Rightarrow> v)"

definition strip_media :: "string \<Rightarrow> json \<Rightarrow> json" where
  "strip_media key part =
     (case json_get key part of
        None \<Rightarrow> part
      | Some media \<Rightarrow>
          (case Option.bind (json_get ''url'' media) json_as_str of
             Some s \<Rightarrow> if prefix ''data:'' s then set_member key (set_member ''url'' (JString []) media) part else part
           | None \<Rightarrow> part))"

definition strip_part :: "json \<Rightarrow> json" where
  "strip_part part = fold strip_media [''image_url'', ''video_url'', ''audio_url''] part"

definition strip_message :: "json \<Rightarrow> json" where
  "strip_message msg =
     (case Option.bind (json_get ''content'' msg) json_as_array of
        Some parts \<Rightarrow> set_member ''content'' (JArray (map strip_part parts)) msg
      | None \<Rightarrow> msg)"

definition strip_inline_data_urls :: "json \<Rightarrow> json" where
  "strip_inline_data_urls messages =
     (case json_as_array messages of Some arr \<Rightarrow> JArray (map strip_message arr) | None \<Rightarrow> messages)"

section \<open>The environment\<close>

record video_routing =
  vr_placeholder :: token_id
  vr_event :: "token_id option"
  vr_target :: "token_id list"
  vr_replacement :: "token_id list"

record media_env =
  me_message_order :: "build_request \<Rightarrow> nat list option"
  me_decoder :: "json \<Rightarrow> string + json"
  me_fetch :: "media_part \<Rightarrow> json option \<Rightarrow> bool \<Rightarrow> request_error + descriptor"
  me_url_hash :: "string \<Rightarrow> u64"
  me_fetch_dims :: "u64 \<Rightarrow> string \<Rightarrow> dimension_policy \<Rightarrow> (bool \<times> string) + u32 \<times> u32"
  me_dimension_policy :: dimension_policy
  me_video_processor :: "(nat \<times> nat \<times> nat \<Rightarrow> rat \<times> rat list \<Rightarrow> string + video_routing) option"
  me_text_len :: "string option \<Rightarrow> nat \<Rightarrow> nat option"
  me_kit :: routing_kit
  me_setup :: routing_setup

section \<open>The scan over the messages\<close>

record media_task =
  mk_modality :: string
  mk_slot :: nat
  mk_part :: media_part

record media_scan =
  ms_media :: "(string, media_data list) omap"
  ms_uuids :: "(string, string option list) omap"
  ms_has_uuid :: bool
  ms_tasks :: "media_task list"
  ms_total_images :: nat
  ms_eligible :: bool
  ms_previous_video :: bool
  ms_passthrough :: "(u64 \<times> string) list"

definition empty_scan :: media_scan where
  "empty_scan =
     \<lparr>ms_media = [], ms_uuids = [], ms_has_uuid = False, ms_tasks = [], ms_total_images = 0, ms_eligible = True,
      ms_previous_video = False, ms_passthrough = []\<rparr>"

definition note_routing :: "bool \<Rightarrow> media_part \<Rightarrow> media_scan \<Rightarrow> media_scan" where
  "note_routing loader p st =
     (let supports = exact_mm_routing_supports_modality (mp_type p) loader;
          (accepts, previous) = layout_accepts_next_entry (ms_previous_video st) (mp_type p = ''video_url'') in
      st\<lparr>ms_total_images := (if mp_type p = ''image_url'' then Suc (ms_total_images st) else ms_total_images st),
         ms_previous_video := (if supports then previous else ms_previous_video st),
         ms_eligible := (supports \<and> accepts \<and> ms_eligible st)\<rparr>)"

text \<open>The slot a part reserves.\<close>

definition reserved_slot :: "media_part \<Rightarrow> request_error + media_data" where
  "reserved_slot p =
     (case (mp_url p, mp_uuid p) of
        (Some url, _) \<Rightarrow> Inr (Media_Url url)
      | (None, Some uuid) \<Rightarrow>
          if mp_type p = ''image_url'' then Inr (Media_Uuid uuid)
          else Inl (Invalid_Argument ''UUID-only cache reuse is not supported'')
      | (None, None) \<Rightarrow> Inl (Invalid_Argument ''part has neither `url` nor `uuid`''))"

definition scan_part :: "media_env \<Rightarrow> bool \<Rightarrow> media_part \<Rightarrow> media_scan \<Rightarrow> request_error + media_scan" where
  "scan_part E loader p st =
     (if mp_uuid p = Some [] then Inl (Invalid_Argument ''uuid must be a non-empty string'')
      else case reserved_slot p of
        Inl e \<Rightarrow> Inl e
      | Inr slot \<Rightarrow>
          let st1 = note_routing loader p st;
              slots = unwrap_or [] (om_get (ms_media st1) (mp_type p));
              ids = unwrap_or [] (om_get (ms_uuids st1) (mp_type p)) in
          Inr (st1\<lparr>ms_media := om_insert (mp_type p) (slots @ [slot]) (ms_media st1),
                   ms_uuids := om_insert (mp_type p) (ids @ [mp_uuid p]) (ms_uuids st1),
                   ms_has_uuid := (ms_has_uuid st1 \<or> is_some (mp_uuid p)),
                   ms_tasks := (if is_some (mp_url p) \<and> loader
                                then ms_tasks st1 @ [\<lparr>mk_modality = mp_type p, mk_slot = length slots, mk_part = p\<rparr>]
                                else ms_tasks st1),
                   ms_passthrough := (case mp_url p of
                      Some url \<Rightarrow> if \<not> loader \<and> mp_type p = ''image_url''
                        then ms_passthrough st1 @ [(me_url_hash E url, url)] else ms_passthrough st1
                    | None \<Rightarrow> ms_passthrough st1)\<rparr>))"

fun scan_parts :: "media_env \<Rightarrow> bool \<Rightarrow> media_part list \<Rightarrow> media_scan \<Rightarrow> request_error + media_scan" where
  "scan_parts E loader [] st = Inr st"
| "scan_parts E loader (p # ps) st =
     (case scan_part E loader p st of Inl e \<Rightarrow> Inl e | Inr st' \<Rightarrow> scan_parts E loader ps st')"

text \<open>The messages in the order of the renderer; an index outside the messages panics.\<close>

definition ordered_parts :: "nat list option \<Rightarrow> media_part list list \<Rightarrow> request_error + media_part list" where
  "ordered_parts order msgs =
     (case order of
        None \<Rightarrow> Inr (concat msgs)
      | Some ord \<Rightarrow>
          if length ord < length msgs \<or> list_ex (\<lambda>i. length msgs \<le> i) (take (length msgs) ord)
          then Inl (Internal_Error ''index out of bounds'')
          else Inr (concat (map (\<lambda>i. msgs ! i) (take (length msgs) ord))))"

section \<open>Fetched media\<close>

record fetch_state =
  fs_media :: "(string, media_data list) omap"
  fs_entries :: "routing_entry list"
  fs_image_tokens :: "nat option"
  fs_eligible :: bool

definition plain_counter :: "routing_setup \<Rightarrow> image_counter option" where
  "plain_counter su = opt_filter (\<lambda>c. \<not> ic_request_budget c) (su_counter su)"

definition budget_counter :: "routing_setup \<Rightarrow> image_counter option" where
  "budget_counter su = opt_filter ic_request_budget (su_counter su)"

definition count_image :: "routing_setup \<Rightarrow> u32 \<Rightarrow> u32 \<Rightarrow> nat option \<Rightarrow> nat option" where
  "count_image su w h image_tokens =
     (case plain_counter su of
        Some c \<Rightarrow> checked_add_image_tokens image_tokens (ic_count c w h)
      | None \<Rightarrow> image_tokens)"

definition push_image :: "routing_setup \<Rightarrow> u64 \<Rightarrow> u32 \<Rightarrow> u32 \<Rightarrow> fetch_state \<Rightarrow> fetch_state" where
  "push_image su hash w h st =
     st\<lparr>fs_image_tokens := count_image su w h (fs_image_tokens st),
        fs_entries := fs_entries st @ [Image_Entry hash w h]\<rparr>"

definition video_entry :: "media_env \<Rightarrow> bool \<Rightarrow> descriptor \<Rightarrow> routing_entry option" where
  "video_entry E has_override d =
     (case me_video_processor E of
        None \<Rightarrow> None
      | Some processor \<Rightarrow>
          if has_override then None
          else case (de_video_dimensions d, de_video_metadata d, de_video_hash d) of
            (Inr dims, Inr meta, Inr hash) \<Rightarrow>
              (case processor dims meta of
                 Inl _ \<Rightarrow> None
               | Inr v \<Rightarrow> Some (Video_Entry hash (vr_placeholder v) (vr_event v) (vr_target v) (vr_replacement v)))
          | _ \<Rightarrow> None)"

definition note_fetched ::
  "media_env \<Rightarrow> bool \<Rightarrow> media_task \<Rightarrow> descriptor \<Rightarrow> fetch_state \<Rightarrow> request_error + fetch_state" where
  "note_fetched E has_override k d st =
     (if mk_modality k = ''image_url'' then
        (case de_shape d of
           h # w # _ \<Rightarrow>
             (case (de_content_hash d, mp_url (mk_part k)) of
                (Some hash, _) \<Rightarrow> Inr (push_image (me_setup E) hash (of_nat w) (of_nat h) st)
              | (None, Some url) \<Rightarrow> Inr (push_image (me_setup E) (me_url_hash E url) (of_nat w) (of_nat h) st)
              | (None, None) \<Rightarrow> Inl (Invalid_Argument ''image_url task must contain an image URL''))
         | _ \<Rightarrow> Inr st)
      else if mk_modality k = ''video_url'' then
        (case video_entry E has_override d of
           Some e \<Rightarrow> Inr (st\<lparr>fs_entries := fs_entries st @ [e]\<rparr>)
         | None \<Rightarrow> Inr (st\<lparr>fs_eligible := False\<rparr>))
      else Inr st)"

definition replace_reserved_media_slot ::
  "string \<Rightarrow> nat \<Rightarrow> media_data \<Rightarrow> (string, media_data list) omap \<Rightarrow> request_error + (string, media_data list) omap" where
  "replace_reserved_media_slot modality i d media =
     (case om_get media modality of
        None \<Rightarrow> Inl (Internal_Error ''missing reserved multimodal slot'')
      | Some slots \<Rightarrow>
          if i < length slots then Inr (om_insert modality (slots[i := d]) media)
          else Inl (Internal_Error ''missing reserved multimodal slot''))"

fun fetch_media ::
  "media_env \<Rightarrow> bool \<Rightarrow> json option \<Rightarrow> bool \<Rightarrow> media_task list \<Rightarrow> fetch_state \<Rightarrow> request_error + fetch_state" where
  "fetch_media E has_override io hash_video [] st = Inr st"
| "fetch_media E has_override io hash_video (k # ks) st =
     (case me_fetch E (mk_part k) io hash_video of
        Inl e \<Rightarrow> Inl e
      | Inr d \<Rightarrow>
          (case note_fetched E has_override k d st of
             Inl e \<Rightarrow> Inl e
           | Inr st1 \<Rightarrow>
               (case replace_reserved_media_slot (mk_modality k) (mk_slot k) (Media_Decoded d) (fs_media st1) of
                  Inl e \<Rightarrow> Inl e
                | Inr media \<Rightarrow> fetch_media E has_override io hash_video ks (st1\<lparr>fs_media := media\<rparr>))))"

fun passthrough_images :: "media_env \<Rightarrow> (u64 \<times> string) list \<Rightarrow> fetch_state \<Rightarrow> request_error + fetch_state" where
  "passthrough_images E [] st = Inr st"
| "passthrough_images E ((hash, url) # rest) st =
     (case me_fetch_dims E hash url (me_dimension_policy E) of
        Inr (w, h) \<Rightarrow> passthrough_images E rest (push_image (me_setup E) hash w h st)
      | Inl (True, e) \<Rightarrow> Inl (Invalid_Argument e)
      | Inl (False, _) \<Rightarrow> passthrough_images E rest st)"

text \<open>Both ways of resolving the media, after the scan.\<close>

definition resolve_media ::
  "media_env \<Rightarrow> build_request \<Rightarrow> media_scan \<Rightarrow> request_error + fetch_state" where
  "resolve_media E r sc =
     (let has_override = has_mm_processor_override (bq_mm_kwargs r);
          hash_video = should_hash_decoded_video (ms_eligible sc) (ms_has_uuid sc) has_override
                         (is_some (me_video_processor E));
          st = \<lparr>fs_media = ms_media sc, fs_entries = [],
                fs_image_tokens = (case su_counter (me_setup E) of
                   Some c \<Rightarrow> if ic_request_budget c then None else Some 0
                 | None \<Rightarrow> None),
                fs_eligible = ms_eligible sc\<rparr>;
          fetched =
            (if ms_tasks sc = [] then Inr st
             else case bq_media_io r of
               None \<Rightarrow> fetch_media E has_override None hash_video (ms_tasks sc) st
             | Some io \<Rightarrow>
                 (case me_decoder E io of
                    Inl e \<Rightarrow> Inl (Invalid_Argument e)
                  | Inr dec \<Rightarrow> fetch_media E has_override (Some dec) hash_video (ms_tasks sc) st)) in
      case fetched of
        Inl e \<Rightarrow> Inl e
      | Inr st1 \<Rightarrow>
          if \<not> ms_has_uuid sc \<and> ms_passthrough sc \<noteq> [] then passthrough_images E (ms_passthrough sc) st1
          else Inr st1)"

section \<open>Routing information and hashes\<close>

definition image_count :: "routing_entry list \<Rightarrow> nat" where
  "image_count es = length (filter (\<lambda>e. \<not> is_video e) es)"

definition hash_values :: "routing_entry list \<Rightarrow> json" where
  "hash_values es = JArray (map (\<lambda>e. JString (hex16 (entry_hash e))) es)"

text \<open>The members the worker gets beside routing information.\<close>

definition worker_hashes :: "routing_entry list \<Rightarrow> string \<times> json" where
  "worker_hashes es =
     (if list_all (\<lambda>e. \<not> is_video e) es then (''mm_hashes'', hash_values es)
      else
        let images = filter (\<lambda>e. \<not> is_video e) es; videos = filter is_video es;
            g1 = (if images = [] then [] else om_insert ''image'' (hash_values images) []);
            g2 = (if videos = [] then g1 else om_insert ''video'' (hash_values videos) g1) in
        (''mm_hashes_by_modality'', JObject g2))"

definition exact_text_len ::
  "media_env \<Rightarrow> bool \<Rightarrow> string option \<Rightarrow> nat \<Rightarrow> nat option" where
  "exact_text_len E ready prompt resolved =
     (if ready \<and> is_some (budget_counter (me_setup E)) then me_text_len E prompt resolved else None)"

definition budgeted_image_tokens ::
  "media_env \<Rightarrow> nat option \<Rightarrow> routing_entry list \<Rightarrow> nat option \<Rightarrow> nat option" where
  "budgeted_image_tokens E text_len es image_tokens =
     (case budget_counter (me_setup E) of
        None \<Rightarrow> image_tokens
      | Some c \<Rightarrow>
          Option.bind text_len (\<lambda>len.
            case ic_count_images c (map (\<lambda>im. (im_width im, im_height im)) (List.map_filter image_of es))
                   (unat (su_context (me_setup E))) len of
              Inl _ \<Rightarrow> None
            | Inr counts \<Rightarrow> fold (\<lambda>n acc. Option.bind acc (\<lambda>t. usize_checked_add t n)) counts (Some 0)))"

definition media_extra_args :: "deployment \<Rightarrow> build_request \<Rightarrow> string option \<Rightarrow> (string, json) omap" where
  "media_extra_args D r prompt =
     (let base = [(''messages'', strip_inline_data_urls (bq_messages r))];
          with_prompt = insert_some ''formatted_prompt'' (map_option JString prompt) base in
      case backend_extra_args r (is_some (dp_reasoning_parser D))
             (prompt_injected_reasoning_ended_arg (dp_reasoning_parser D) prompt) of
        Some (JObject kvs) \<Rightarrow> fold (\<lambda>(k, v). om_insert k v) kvs with_prompt
      | _ \<Rightarrow> with_prompt)"

text \<open>Everything after the media are resolved: the builder, the entries and the metric.\<close>

definition install_media ::
  "media_env \<Rightarrow> deployment \<Rightarrow> build_request \<Rightarrow> string option \<Rightarrow> token_id list \<Rightarrow> media_scan \<Rightarrow> fetch_state \<Rightarrow>
     built_request \<Rightarrow> built_request \<times> routing_entry list \<times> nat option" where
  "install_media E D r prompt toks sc st b =
     (let has_override = has_mm_processor_override (bq_mm_kwargs r) in
      if fs_media st = [] then (b, fs_entries st, fs_image_tokens st)
      else
        let es = (if ms_has_uuid sc then [] else fs_entries st);
            resolved = image_count es;
            ready = fs_eligible st
              \<and> exact_mm_routing_preconditions_met (ms_has_uuid sc) resolved (ms_total_images sc) has_override;
            text_len = exact_text_len E ready prompt resolved;
            info = (if ready then build_mm_exact_routing_info (me_kit E) (me_setup E) es toks text_len else None);
            args = media_extra_args D r prompt;
            args' = (if is_some info then (case worker_hashes es of (k, v) \<Rightarrow> om_insert k v args) else args) in
        (b\<lparr>bt_media := Some (fs_media st),
           bt_uuids := (if ms_has_uuid sc then Some (ms_uuids sc) else bt_uuids b),
           bt_extra_args := Some (JObject args'),
           bt_routing_info := (case info of Some i \<Rightarrow> Some i | None \<Rightarrow> bt_routing_info b)\<rparr>,
         es, budgeted_image_tokens E text_len es (fs_image_tokens st)))"

definition gather_multi_modal_data_with_image_tokens ::
  "media_env \<Rightarrow> deployment \<Rightarrow> build_request \<Rightarrow> string option \<Rightarrow> token_id list \<Rightarrow> built_request \<Rightarrow>
     request_error + built_request \<times> routing_entry list \<times> nat option" where
  "gather_multi_modal_data_with_image_tokens E D r prompt toks b =
     (case bq_parts r of
        None \<Rightarrow> Inr (b, [], None)
      | Some msgs \<Rightarrow>
          (case ordered_parts (me_message_order E r) msgs of
             Inl e \<Rightarrow> Inl e
           | Inr ps \<Rightarrow>
               (case scan_parts E (dp_media_loader D) ps empty_scan of
                  Inl e \<Rightarrow> Inl e
                | Inr sc \<Rightarrow>
                    map_sum id (\<lambda>st.
                        let (b', es, image_tokens) = install_media E D r prompt toks sc st b in
                        (b', es, aggregate_image_tokens image_tokens (image_count es) (ms_total_images sc)
                                   (has_mm_processor_override (bq_mm_kwargs r))))
                      (resolve_media E r sc))))"

text \<open>The public surface: images only, and routing information for given images.\<close>

definition gather_multi_modal_data ::
  "media_env \<Rightarrow> deployment \<Rightarrow> build_request \<Rightarrow> string option \<Rightarrow> token_id list \<Rightarrow> built_request \<Rightarrow>
     request_error + built_request \<times> image_entry list" where
  "gather_multi_modal_data E D r prompt toks b =
     map_sum id (\<lambda>(b', es, _). (b', List.map_filter image_of es))
       (gather_multi_modal_data_with_image_tokens E D r prompt toks b)"

definition entry_of_image :: "image_entry \<Rightarrow> routing_entry" where
  "entry_of_image i = Image_Entry (im_hash i) (im_width i) (im_height i)"

definition gather_mm_exact_routing_info ::
  "media_env \<Rightarrow> image_entry list \<Rightarrow> token_id list \<Rightarrow> built_request \<Rightarrow> built_request" where
  "gather_mm_exact_routing_info E images toks b =
     (case build_mm_exact_routing_info (me_kit E) (me_setup E) (map entry_of_image images) toks None of
        Some info \<Rightarrow> b\<lparr>bt_routing_info := Some info\<rparr>
      | None \<Rightarrow> b)"

text \<open>
  Entries without a video pass the public surface unchanged, so the routing information built from
  them is the one request preprocessing would build without a text length.
\<close>

lemma image_entries_roundtrip:
  "list_all (\<lambda>e. \<not> is_video e) es \<Longrightarrow> map entry_of_image (List.map_filter image_of es) = es"
  by (induction es) (auto simp: map_filter_simps image_of_def entry_of_image_def is_video_def split: routing_entry.splits)

lemma public_routing_info:
  assumes "list_all (\<lambda>e. \<not> is_video e) es" "bt_routing_info b = None"
  shows "bt_routing_info (gather_mm_exact_routing_info E (List.map_filter image_of es) toks b) =
    build_mm_exact_routing_info (me_kit E) (me_setup E) es toks None"
  using assms by (simp add: gather_mm_exact_routing_info_def image_entries_roundtrip split: option.split)

section \<open>The reference: one slot per part\<close>

text \<open>The parts of a modality, and what its slot holds at the end.\<close>

definition parts_of :: "string \<Rightarrow> media_part list \<Rightarrow> media_part list" where
  "parts_of m ps = filter (\<lambda>p. mp_type p = m) ps"

definition final_slot :: "media_env \<Rightarrow> bool \<Rightarrow> json option \<Rightarrow> bool \<Rightarrow> media_part \<Rightarrow> media_data" where
  "final_slot E loader io hash_video p =
     (case mp_url p of
        Some url \<Rightarrow>
          if loader then (case me_fetch E p io hash_video of Inr d \<Rightarrow> Media_Decoded d | Inl _ \<Rightarrow> Media_Url url)
          else Media_Url url
      | None \<Rightarrow> Media_Uuid (unwrap_or [] (mp_uuid p)))"

definition first_slot :: "media_part \<Rightarrow> media_data" where
  "first_slot p = (case mp_url p of Some url \<Rightarrow> Media_Url url | None \<Rightarrow> Media_Uuid (unwrap_or [] (mp_uuid p)))"

definition slot_map :: "(media_part \<Rightarrow> 'a) \<Rightarrow> media_part list \<Rightarrow> string \<Rightarrow> 'a list option" where
  "slot_map f ps m = (if parts_of m ps = [] then None else Some (map f (parts_of m ps)))"

text \<open>The tasks the scan creates: the parts with a URL, with their position in the modality.\<close>

fun tasks_from :: "media_part list \<Rightarrow> media_part list \<Rightarrow> media_task list" where
  "tasks_from before [] = []"
| "tasks_from before (p # ps) =
     (if is_some (mp_url p)
      then \<lparr>mk_modality = mp_type p, mk_slot = length (parts_of (mp_type p) before), mk_part = p\<rparr> #
           tasks_from (before @ [p]) ps
      else tasks_from (before @ [p]) ps)"

section \<open>The scan\<close>

definition part_ok :: "media_part \<Rightarrow> bool" where
  "part_ok p = (mp_uuid p \<noteq> Some [] \<and> (is_some (mp_url p) \<or> is_some (mp_uuid p) \<and> mp_type p = ''image_url''))"

definition scan_ok :: "media_env \<Rightarrow> bool \<Rightarrow> media_part list \<Rightarrow> media_scan \<Rightarrow> bool" where
  "scan_ok E loader seen st =
     ((\<forall>m. om_get (ms_media st) m = slot_map first_slot seen m)
      \<and> (\<forall>m. om_get (ms_uuids st) m = slot_map mp_uuid seen m)
      \<and> ms_has_uuid st = list_ex (\<lambda>p. is_some (mp_uuid p)) seen
      \<and> ms_tasks st = (if loader then tasks_from [] seen else [])
      \<and> ms_total_images st = length (parts_of ''image_url'' seen)
      \<and> (ms_eligible st \<longrightarrow> list_all (\<lambda>p. exact_mm_routing_supports_modality (mp_type p) loader) seen)
      \<and> ms_passthrough st = (if loader then []
            else map (\<lambda>p. (me_url_hash E (the (mp_url p)), the (mp_url p)))
                   (filter (\<lambda>p. is_some (mp_url p)) (parts_of ''image_url'' seen)))
      \<and> list_all part_ok seen)"

lemma parts_of_simps [simp]:
  "parts_of m [] = []"
  "parts_of m (p # ps) = (if mp_type p = m then p # parts_of m ps else parts_of m ps)"
  "parts_of m (ps @ qs) = parts_of m ps @ parts_of m qs"
  by (simp_all add: parts_of_def)

lemma tasks_from_append: "tasks_from before (ps @ qs) = tasks_from before ps @ tasks_from (before @ ps) qs"
  by (induction ps arbitrary: before) simp_all

lemma scan_empty: "scan_ok E loader [] empty_scan"
  by (simp add: scan_ok_def empty_scan_def slot_map_def)

lemma reserved_first:
  "reserved_slot p = Inr d \<Longrightarrow> d = first_slot p \<and> (is_some (mp_url p) \<or> is_some (mp_uuid p) \<and> mp_type p = ''image_url'')"
  by (auto simp: reserved_slot_def first_slot_def split: option.splits if_splits)

lemma scan_part_ok:
  assumes "scan_part E loader p st = Inr st'" "scan_ok E loader seen st"
  shows "scan_ok E loader (seen @ [p]) st'"
proof -
  from assms(1) obtain d where d: "reserved_slot p = Inr d" "mp_uuid p \<noteq> Some []"
    by (auto simp: scan_part_def split: if_splits sum.splits)
  from reserved_first [OF d(1)] d(2) have ok: "d = first_slot p" "part_ok p" by (auto simp: part_ok_def)
  from assms(2) have
    media: "\<And>m. om_get (ms_media st) m = slot_map first_slot seen m"
    and uuids: "\<And>m. om_get (ms_uuids st) m = slot_map mp_uuid seen m"
    and rest: "ms_has_uuid st = list_ex (\<lambda>p. is_some (mp_uuid p)) seen"
      "ms_tasks st = (if loader then tasks_from [] seen else [])"
      "ms_total_images st = length (parts_of ''image_url'' seen)"
      "ms_eligible st \<Longrightarrow> list_all (\<lambda>p. exact_mm_routing_supports_modality (mp_type p) loader) seen"
      "ms_passthrough st = (if loader then []
            else map (\<lambda>p. (me_url_hash E (the (mp_url p)), the (mp_url p)))
                   (filter (\<lambda>p. is_some (mp_url p)) (parts_of ''image_url'' seen)))"
      "list_all part_ok seen"
    by (simp_all add: scan_ok_def)
  have slots: "unwrap_or [] (slot_map f seen m) = map f (parts_of m seen)" for f :: "media_part \<Rightarrow> 'x" and m
    by (simp add: slot_map_def)
  show ?thesis
    using assms(1) d
    apply (simp add: scan_part_def note_routing_def layout_accepts_next_entry_def Let_def)
    apply (drule sym)
    apply (unfold scan_ok_def)
    apply (intro conjI allI)
    subgoal by (auto simp: media slots slot_map_def ok(1))
    subgoal by (auto simp: uuids slots slot_map_def)
    subgoal by (auto simp: rest)
    subgoal by (auto simp: rest tasks_from_append media slots)
    subgoal by (auto simp: rest)
    subgoal by (auto simp: rest)
    subgoal by (auto simp: rest split: option.split)
    subgoal by (simp add: rest ok)
    done
qed

lemma scan_parts_ok:
  "scan_parts E loader ps st = Inr st' \<Longrightarrow> scan_ok E loader seen st \<Longrightarrow> scan_ok E loader (seen @ ps) st'"
proof (induction ps arbitrary: st seen)
  case Nil
  then show ?case by simp
next
  case (Cons p ps)
  from Cons.prems(1) obtain st1 where st1: "scan_part E loader p st = Inr st1" "scan_parts E loader ps st1 = Inr st'"
    by (auto split: sum.splits)
  from Cons.IH [OF st1(2) scan_part_ok [OF st1(1) Cons.prems(2)]] show ?case by simp
qed

section \<open>The slots after the fetches\<close>

definition mid_slots ::
  "media_env \<Rightarrow> json option \<Rightarrow> bool \<Rightarrow> media_part list \<Rightarrow> media_part list \<Rightarrow> string \<Rightarrow> media_data list option" where
  "mid_slots E io hv before ps m =
     (if parts_of m (before @ ps) = [] then None
      else Some (map (final_slot E True io hv) (parts_of m before) @ map first_slot (parts_of m ps)))"

lemma note_fetched_media: "note_fetched E ov k d st = Inr st' \<Longrightarrow> fs_media st' = fs_media st"
  by (auto simp: note_fetched_def push_image_def split: if_splits list.splits option.splits)

lemma fetch_media_slots:
  assumes "fetch_media E ov io hv (tasks_from before ps) st = Inr st'"
    and "\<And>m. om_get (fs_media st) m = mid_slots E io hv before ps m"
  shows "(\<forall>m. om_get (fs_media st') m = mid_slots E io hv (before @ ps) [] m)
    \<and> (\<forall>p \<in> set ps. is_some (mp_url p) \<longrightarrow> (\<exists>d. me_fetch E p io hv = Inr d))"
  using assms
proof (induction ps arbitrary: before st)
  case Nil
  then show ?case by simp
next
  case (Cons p ps)
  show ?case
  proof (cases "mp_url p")
    case None
    then have "mid_slots E io hv before (p # ps) = mid_slots E io hv (before @ [p]) ps"
      by (auto simp: mid_slots_def fun_eq_iff final_slot_def first_slot_def)
    with Cons.IH [of "before @ [p]" st] Cons.prems None show ?thesis by simp
  next
    case (Some url)
    with Cons.prems(1) obtain d st1 media where
      d: "me_fetch E p io hv = Inr d"
      and st1: "note_fetched E ov \<lparr>mk_modality = mp_type p, mk_slot = length (parts_of (mp_type p) before), mk_part = p\<rparr> d st = Inr st1"
      and media: "replace_reserved_media_slot (mp_type p) (length (parts_of (mp_type p) before)) (Media_Decoded d) (fs_media st1) = Inr media"
      and rest: "fetch_media E ov io hv (tasks_from (before @ [p]) ps) (st1\<lparr>fs_media := media\<rparr>) = Inr st'"
      by (auto split: sum.splits)
    have slots: "om_get (fs_media st1) m = mid_slots E io hv before (p # ps) m" for m
      using note_fetched_media [OF st1] Cons.prems(2) by simp
    have "om_get media m = mid_slots E io hv (before @ [p]) ps m" for m
      using media slots [of "mp_type p"] slots [of m] d Some
      by (auto simp: replace_reserved_media_slot_def mid_slots_def final_slot_def list_update_append
          split: option.splits if_splits)
    with Cons.IH [OF rest] d show ?thesis by simp
  qed
qed

lemma passthrough_keeps: "passthrough_images E us st = Inr st' \<Longrightarrow> fs_media st' = fs_media st \<and> fs_eligible st' = fs_eligible st"
  by (induction E us st rule: passthrough_images.induct)
    (auto simp: push_image_def split: sum.splits prod.splits bool.splits)

text \<open>What a successful resolution did: the fetches with one decoder, then the passthrough images.\<close>

lemma resolve_mediaE:
  assumes "resolve_media E r sc = Inr st"
  obtains io hv st0 st1 where
    "fs_media st0 = ms_media sc" "fs_entries st0 = []" "fs_eligible st0 = ms_eligible sc"
    "fetch_media E (has_mm_processor_override (bq_mm_kwargs r)) io hv (ms_tasks sc) st0 = Inr st1"
    "if \<not> ms_has_uuid sc \<and> ms_passthrough sc \<noteq> [] then passthrough_images E (ms_passthrough sc) st1 = Inr st
     else st = st1"
proof -
  define st0 where "st0 = \<lparr>fs_media = ms_media sc, fs_entries = [],
      fs_image_tokens = (case su_counter (me_setup E) of
         Some c \<Rightarrow> if ic_request_budget c then None else Some 0 | None \<Rightarrow> None),
      fs_eligible = ms_eligible sc\<rparr>"
  have st0: "fs_media st0 = ms_media sc" "fs_entries st0 = []" "fs_eligible st0 = ms_eligible sc"
    by (simp_all add: st0_def)
  from assms obtain io hv st1 where
    "fetch_media E (has_mm_processor_override (bq_mm_kwargs r)) io hv (ms_tasks sc) st0 = Inr st1"
    "if \<not> ms_has_uuid sc \<and> ms_passthrough sc \<noteq> [] then passthrough_images E (ms_passthrough sc) st1 = Inr st
     else st = st1"
    unfolding resolve_media_def Let_def st0_def [symmetric]
    by (fastforce split: if_splits sum.splits option.splits)
  with st0 show thesis by (rule that)
qed

lemma gatherE:
  assumes "gather_multi_modal_data_with_image_tokens E D r prompt toks b = Inr (b', es, n)"
    and "bq_parts r = Some msgs" "ordered_parts (me_message_order E r) msgs = Inr ps"
  obtains sc st tokens where
    "scan_ok E (dp_media_loader D) ps sc" "resolve_media E r sc = Inr st"
    "install_media E D r prompt toks sc st b = (b', es, tokens)"
proof -
  from assms obtain sc st where
    scan: "scan_parts E (dp_media_loader D) ps empty_scan = Inr sc"
    and st: "resolve_media E r sc = Inr st"
    and out: "(let (b', es, image_tokens) = install_media E D r prompt toks sc st b in
       (b', es, aggregate_image_tokens image_tokens (image_count es) (ms_total_images sc)
          (has_mm_processor_override (bq_mm_kwargs r)))) = (b', es, n)"
    unfolding gather_multi_modal_data_with_image_tokens_def
    by (auto split: sum.splits elim!: map_sum_eq_InrE)
  have ok: "scan_ok E (dp_media_loader D) ps sc"
    using scan_parts_ok [OF scan scan_empty] by simp
  from out obtain tokens where "install_media E D r prompt toks sc st b = (b', es, tokens)"
    by (auto split: prod.splits)
  with ok st show thesis by (rule that)
qed

lemma slot_map_Nil: "(\<forall>m. slot_map f ps m = None) \<longleftrightarrow> ps = []"
proof
  assume none: "\<forall>m. slot_map f ps m = None"
  show "ps = []"
  proof (cases ps)
    case (Cons p qs)
    with none [rule_format, of "mp_type p"] show ?thesis by (simp add: slot_map_def)
  qed simp
qed (simp add: slot_map_def)

lemma om_empty_iff: "(\<forall>k. om_get m k = None) \<longleftrightarrow> m = []"
proof
  assume none: "\<forall>k. om_get m k = None"
  show "m = []"
  proof (cases m)
    case (Cons e m')
    with none [rule_format, of "fst e"] show ?thesis by (simp add: om_get_Cons)
  qed simp
qed simp

lemma resolved_slots:
  assumes "scan_ok E loader ps sc" "resolve_media E r sc = Inr st"
  shows "\<exists>io hv. (\<forall>m. om_get (fs_media st) m = slot_map (final_slot E loader io hv) ps m)
    \<and> (loader \<longrightarrow> (\<forall>p \<in> set ps. is_some (mp_url p) \<longrightarrow> (\<exists>d. me_fetch E p io hv = Inr d)))"
proof -
  from resolve_mediaE [OF assms(2)] obtain io hv st0 st1 where
    st0: "fs_media st0 = ms_media sc" "fs_entries st0 = []" "fs_eligible st0 = ms_eligible sc"
    and fetch: "fetch_media E (has_mm_processor_override (bq_mm_kwargs r)) io hv (ms_tasks sc) st0 = Inr st1"
    and pass: "if \<not> ms_has_uuid sc \<and> ms_passthrough sc \<noteq> [] then passthrough_images E (ms_passthrough sc) st1 = Inr st
     else st = st1" .
  have media: "fs_media st = fs_media st1" using pass passthrough_keeps by (auto split: if_splits)
  have scan: "\<And>m. om_get (ms_media sc) m = slot_map first_slot ps m"
    and tasks: "ms_tasks sc = (if loader then tasks_from [] ps else [])"
    using assms(1) by (simp_all add: scan_ok_def)
  show ?thesis
  proof (cases loader)
    case True
    have start: "om_get (fs_media st0) m = mid_slots E io hv [] ps m" for m
      by (simp add: st0 scan slot_map_def mid_slots_def)
    have "fetch_media E (has_mm_processor_override (bq_mm_kwargs r)) io hv (tasks_from [] ps) st0 = Inr st1"
      using fetch tasks True by simp
    from fetch_media_slots [OF this start] True show ?thesis
      by (auto simp: media mid_slots_def slot_map_def)
  next
    case False
    then have "fs_media st = ms_media sc" using fetch tasks st0 media by simp
    moreover have "final_slot E False io hv = first_slot"
      by (simp add: fun_eq_iff final_slot_def first_slot_def split: option.split)
    ultimately show ?thesis using False scan by (intro exI [of _ io] exI [of _ hv]) simp
  qed
qed

section \<open>The routing entries\<close>

text \<open>An entry is of the kind of its part.\<close>

definition entry_kind :: "string \<Rightarrow> routing_entry \<Rightarrow> bool" where
  "entry_kind m e = (m = (if is_video e then ''video_url'' else ''image_url''))"

text \<open>
  What tasks of modalities \<open>ms\<close> add to the entries, in their order: each an entry of its
  kind or nothing, and nothing for a video only if the request is no longer eligible.
\<close>

definition adds_entries :: "bool \<Rightarrow> string list \<Rightarrow> routing_entry option list \<Rightarrow> bool" where
  "adds_entries eligible ms os =
     list_all2 (\<lambda>m e. case e of Some e \<Rightarrow> entry_kind m e | None \<Rightarrow> m = ''video_url'' \<longrightarrow> \<not> eligible) ms os"

lemma note_fetched_adds:
  assumes "note_fetched E ov k d st = Inr st'"
  obtains e where "fs_entries st' = fs_entries st @ (case e of Some e \<Rightarrow> [e] | None \<Rightarrow> [])"
    "case e of Some e \<Rightarrow> entry_kind (mk_modality k) e | None \<Rightarrow> mk_modality k = ''video_url'' \<longrightarrow> \<not> fs_eligible st'"
    "fs_eligible st' \<Longrightarrow> fs_eligible st"
proof (cases "mk_modality k = ''image_url''")
  case True
  show thesis
  proof (cases "\<exists>e. fs_entries st' = fs_entries st @ [e] \<and> \<not> is_video e")
    case img: True
    then obtain e where "fs_entries st' = fs_entries st @ [e]" "\<not> is_video e" by blast
    moreover have "fs_eligible st' = fs_eligible st"
      using assms True by (auto simp: note_fetched_def push_image_def split: list.splits option.splits)
    ultimately show thesis using True by (intro that [of "Some e"]) (simp_all add: entry_kind_def)
  next
    case False
    then have "st' = st"
      using assms True by (auto simp: note_fetched_def push_image_def is_video_def split: list.splits option.splits)
    then show thesis using True by (intro that [of None]) simp_all
  qed
next
  case False
  have video: "is_video e" if "video_entry E ov d = Some e" for e
    using that by (auto simp: video_entry_def is_video_def split: option.splits if_splits sum.splits)
  show thesis
    using assms False video
    by (cases "video_entry E ov d")
      (auto simp: note_fetched_def entry_kind_def split: if_splits intro: that [of None] that [of "video_entry E ov d"])
qed

lemma fetch_media_adds:
  assumes "fetch_media E ov io hv ks st = Inr st'"
  shows "\<exists>os. fs_entries st' = fs_entries st @ concat (map (\<lambda>e. case e of Some e \<Rightarrow> [e] | None \<Rightarrow> []) os)
    \<and> adds_entries (fs_eligible st') (map mk_modality ks) os \<and> (fs_eligible st' \<longrightarrow> fs_eligible st)"
  using assms
proof (induction ks arbitrary: st)
  case Nil
  then show ?case by (intro exI [of _ "[]"]) (simp add: adds_entries_def)
next
  case (Cons k ks)
  from Cons.prems obtain d st1 media where st1: "note_fetched E ov k d st = Inr st1"
    and rest: "fetch_media E ov io hv ks (st1\<lparr>fs_media := media\<rparr>) = Inr st'"
    by (auto split: sum.splits)
  from note_fetched_adds [OF st1] obtain e where
    e: "fs_entries st1 = fs_entries st @ (case e of Some e \<Rightarrow> [e] | None \<Rightarrow> [])"
      "case e of Some e \<Rightarrow> entry_kind (mk_modality k) e | None \<Rightarrow> mk_modality k = ''video_url'' \<longrightarrow> \<not> fs_eligible st1"
      "fs_eligible st1 \<Longrightarrow> fs_eligible st" by blast
  from Cons.IH [OF rest] obtain os where
    os: "fs_entries st' = fs_entries st1 @ concat (map (\<lambda>e. case e of Some e \<Rightarrow> [e] | None \<Rightarrow> []) os)"
      "adds_entries (fs_eligible st') (map mk_modality ks) os" "fs_eligible st' \<longrightarrow> fs_eligible st1" by auto
  from e os show ?case
    by (intro exI [of _ "e # os"]) (auto simp: adds_entries_def split: option.splits)
qed

lemma passthrough_adds:
  assumes "passthrough_images E us st = Inr st'"
  shows "\<exists>os. fs_entries st' = fs_entries st @ concat (map (\<lambda>e. case e of Some e \<Rightarrow> [e] | None \<Rightarrow> []) os)
    \<and> adds_entries (fs_eligible st') (map (\<lambda>_. ''image_url'') us) os"
  using assms
proof (induction us arbitrary: st)
  case Nil
  then show ?case by (intro exI [of _ "[]"]) (simp add: adds_entries_def)
next
  case (Cons u rest)
  obtain hash url where u: "u = (hash, url)" by (cases u)
  show ?case
  proof (cases "me_fetch_dims E hash url (me_dimension_policy E)")
    case (Inr wh)
    obtain w h where wh: "wh = (w, h)" by (cases wh)
    with Cons.prems u Inr have "passthrough_images E rest (push_image (me_setup E) hash w h st) = Inr st'" by simp
    from Cons.IH [OF this] obtain os where
      "fs_entries st' = fs_entries st @ [Image_Entry hash w h] @ concat (map (\<lambda>e. case e of Some e \<Rightarrow> [e] | None \<Rightarrow> []) os)"
      "adds_entries (fs_eligible st') (map (\<lambda>_. ''image_url'') rest) os" by (auto simp: push_image_def)
    then show ?thesis
      by (intro exI [of _ "Some (Image_Entry hash w h) # os"]) (simp add: adds_entries_def entry_kind_def is_video_def)
  next
    case (Inl e)
    obtain policy msg where e: "e = (policy, msg)" by (cases e)
    from Cons.prems u Inl e have "\<not> policy" by (cases policy) auto
    with Cons.prems u Inl e have "passthrough_images E rest st = Inr st'" by simp
    from Cons.IH [OF this] obtain os where
      "fs_entries st' = fs_entries st @ concat (map (\<lambda>e. case e of Some e \<Rightarrow> [e] | None \<Rightarrow> []) os)"
      "adds_entries (fs_eligible st') (map (\<lambda>_. ''image_url'') rest) os" by auto
    then show ?thesis by (intro exI [of _ "None # os"]) (simp add: adds_entries_def)
  qed
qed

text \<open>If no image is missing and the request is eligible, the entries match the parts one by one.\<close>

lemma image_count_le:
  assumes "adds_entries eligible ms os"
  shows "image_count (concat (map (\<lambda>e. case e of Some e \<Rightarrow> [e] | None \<Rightarrow> []) os)) \<le> length (filter (\<lambda>m. m = ''image_url'') ms)"
  using assms unfolding adds_entries_def
  by (induction rule: list_all2_induct) (auto simp: image_count_def entry_kind_def split: option.splits)

lemma entries_complete:
  assumes "adds_entries True ms os" "list_all (\<lambda>m. m = ''image_url'' \<or> m = ''video_url'') ms"
    and "image_count (concat (map (\<lambda>e. case e of Some e \<Rightarrow> [e] | None \<Rightarrow> []) os)) = length (filter (\<lambda>m. m = ''image_url'') ms)"
  shows "list_all2 entry_kind ms (concat (map (\<lambda>e. case e of Some e \<Rightarrow> [e] | None \<Rightarrow> []) os))"
  using assms
proof (induction ms arbitrary: os)
  case Nil
  then show ?case by (simp add: adds_entries_def)
next
  case (Cons m ms)
  from Cons.prems(1) obtain e os' where os: "os = e # os'" "adds_entries True ms os'"
    "case e of Some e \<Rightarrow> entry_kind m e | None \<Rightarrow> m \<noteq> ''video_url''"
    by (auto simp: adds_entries_def list_all2_Cons1 split: option.splits)
  note le = image_count_le [OF os(2)]
  show ?case
  proof (cases e)
    case None
    with os(3) Cons.prems(2) have "m = ''image_url''" by auto
    with Cons.prems(3) None os(1) le show ?thesis by simp
  next
    case (Some x)
    with os(3) have kind: "entry_kind m x" by simp
    then have "image_count (concat (map (\<lambda>e. case e of Some e \<Rightarrow> [e] | None \<Rightarrow> []) os')) = length (filter (\<lambda>m. m = ''image_url'') ms)"
      using Cons.prems(3) Some os(1) by (auto simp: image_count_def entry_kind_def split: if_splits)
    with Cons.IH [OF os(2)] Cons.prems(2) kind Some os(1) show ?thesis by simp
  qed
qed

section \<open>A sample request with a video\<close>

definition sample_part :: media_part where
  "sample_part = \<lparr>mp_type = ''video_url'', mp_url = Some ''http://v'', mp_uuid = None\<rparr>"

definition sample_descriptor :: descriptor where
  "sample_descriptor =
     \<lparr>de_shape = [], de_content_hash = None, de_video_dimensions = Inr (1, 2, 2), de_video_metadata = Inr (1, []),
      de_video_hash = Inr 5\<rparr>"

definition sample_media_env :: media_env where
  "sample_media_env =
     \<lparr>me_message_order = (\<lambda>_. None), me_decoder = Inr, me_fetch = (\<lambda>_ _ _. Inr sample_descriptor), me_url_hash = (\<lambda>_. 0),
      me_fetch_dims = (\<lambda>_ _ _. Inr (1, 1)), me_dimension_policy = Encoded,
      me_video_processor = Some (\<lambda>_ _. Inr \<lparr>vr_placeholder = 7, vr_event = Some 7, vr_target = [7], vr_replacement = [7, 7]\<rparr>),
      me_text_len = (\<lambda>_ _. None), me_kit = sample_routing_kit, me_setup = sample_routing_setup\<rparr>"

definition sample_media_request :: build_request where
  "sample_media_request = sample_build_request\<lparr>bq_parts := Some [[sample_part]]\<rparr>"

lemma sample_ordered:
  "bq_parts sample_media_request = Some [[sample_part]]"
  "ordered_parts (me_message_order sample_media_env sample_media_request) [[sample_part]] = Inr [sample_part]"
  by (simp_all add: sample_media_request_def sample_media_env_def ordered_parts_def)

lemma sample_scan_resolve:
  "\<exists>sc st. scan_parts sample_media_env True [sample_part] empty_scan = Inr sc \<and> \<not> ms_has_uuid sc \<and> ms_total_images sc = 0
     \<and> resolve_media sample_media_env sample_media_request sc = Inr st \<and> fs_entries st = [sample_video]
     \<and> fs_eligible st \<and> fs_media st \<noteq> []"
  by (simp add: scan_part_def reserved_slot_def note_routing_def layout_accepts_next_entry_def empty_scan_def Let_def
      exact_mm_routing_supports_modality_def resolve_media_def sample_media_request_def sample_build_request_def
      has_mm_processor_override_def sample_part_def sample_media_env_def sample_routing_setup_def note_fetched_def
      video_entry_def sample_descriptor_def replace_reserved_media_slot_def sample_video_def om_get_Cons)

lemma sample_gathers:
  "\<exists>b' n. gather_multi_modal_data_with_image_tokens sample_media_env sample_deployment sample_media_request None [1, 7, 2]
     sample_built = Inr (b', [sample_video], n)
   \<and> bt_routing_info b' = Some \<lparr>mi_tokens = [1, 9, 9, 2], mi_blocks = [None, None], mi_prompt_len = 4\<rparr>"
proof -
  obtain sc st where sc: "scan_parts sample_media_env True [sample_part] empty_scan = Inr sc" "\<not> ms_has_uuid sc"
    "ms_total_images sc = 0" "resolve_media sample_media_env sample_media_request sc = Inr st"
    "fs_entries st = [sample_video]" "fs_eligible st" "fs_media st \<noteq> []"
    using sample_scan_resolve by (elim exE conjE)
  have env: "me_kit sample_media_env = sample_routing_kit" "me_setup sample_media_env = sample_routing_setup"
    "dp_media_loader sample_deployment" "budget_counter sample_routing_setup = None" "bq_mm_kwargs sample_media_request = None"
    "image_count [sample_video] = 0" "bt_routing_info sample_built = None"
    by (simp_all add: sample_media_env_def sample_deployment_def budget_counter_def sample_routing_setup_def
        sample_media_request_def sample_build_request_def image_count_def sample_video_def is_video_def sample_built_def)
  show ?thesis
    unfolding gather_multi_modal_data_with_image_tokens_def install_media_def Let_def
    using sc sample_ordered sample_routing_info
    by (simp add: env exact_mm_routing_preconditions_met_def has_mm_processor_override_def exact_text_len_def)
qed

section \<open>Properties\<close>

text \<open>
  C25.  One slot per media part, in request order.  If gathering succeeds on a request whose
  media parts are \<open>ps\<close> in the order of the renderer, the media of every modality are its
  parts, in order, each with its own medium: with a loader the result of its own fetch (all of
  which succeeded), without one its URL, and a cache identity where there is no URL; the cache
  identities are sent, part by part, exactly if the client gave one.  Without media the request
  is not touched.
\<close>

theorem media_slots_in_order:
  assumes "gather_multi_modal_data_with_image_tokens E D r prompt toks b = Inr (b', es, n)"
    and "bq_parts r = Some msgs" "ordered_parts (me_message_order E r) msgs = Inr ps"
  shows "(ps = [] \<longrightarrow> b' = b) \<and>
    (ps \<noteq> [] \<longrightarrow> (\<exists>io hv media. bt_media b' = Some media
       \<and> (\<forall>m. om_get media m = slot_map (final_slot E (dp_media_loader D) io hv) ps m)
       \<and> (dp_media_loader D \<longrightarrow> (\<forall>p \<in> set ps. is_some (mp_url p) \<longrightarrow> (\<exists>d. me_fetch E p io hv = Inr d))))
     \<and> (if list_ex (\<lambda>p. is_some (mp_uuid p)) ps
        then \<exists>u. bt_uuids b' = Some u \<and> (\<forall>m. om_get u m = slot_map mp_uuid ps m)
        else bt_uuids b' = bt_uuids b))"
proof -
  from gatherE [OF assms] obtain sc st tokens where
    sc: "scan_ok E (dp_media_loader D) ps sc" and st: "resolve_media E r sc = Inr st"
    and out: "install_media E D r prompt toks sc st b = (b', es, tokens)" .
  from resolved_slots [OF sc st] obtain io hv where
    slots: "\<forall>m. om_get (fs_media st) m = slot_map (final_slot E (dp_media_loader D) io hv) ps m"
    and fetched: "dp_media_loader D \<longrightarrow> (\<forall>p \<in> set ps. is_some (mp_url p) \<longrightarrow> (\<exists>d. me_fetch E p io hv = Inr d))"
    by blast
  have none: "fs_media st = [] \<longleftrightarrow> ps = []"
    using om_empty_iff [of "fs_media st"] slot_map_Nil [of "final_slot E (dp_media_loader D) io hv" ps] slots by simp
  have uuid: "ms_has_uuid sc = list_ex (\<lambda>p. is_some (mp_uuid p)) ps" "\<And>m. om_get (ms_uuids sc) m = slot_map mp_uuid ps m"
    using sc by (simp_all add: scan_ok_def)
  from out none have "ps = [] \<Longrightarrow> b' = b" "ps \<noteq> [] \<Longrightarrow> bt_media b' = Some (fs_media st)"
    "ps \<noteq> [] \<Longrightarrow> bt_uuids b' = (if ms_has_uuid sc then Some (ms_uuids sc) else bt_uuids b)"
    by (auto simp: install_media_def Let_def)
  with slots fetched uuid show ?thesis by auto
qed

theorem media_slots_in_order_witness:
  "\<exists>(b' :: built_request) media d. bt_media b' = Some media \<and> om_get media ''video_url'' = Some [Media_Decoded d]
     \<and> me_fetch sample_media_env sample_part None True = Inr d"
proof -
  obtain b' n where g: "gather_multi_modal_data_with_image_tokens sample_media_env sample_deployment sample_media_request None
      [1, 7, 2] sample_built = Inr (b', [sample_video], n)"
    using sample_gathers by blast
  have fetch: "me_fetch sample_media_env sample_part io hv = Inr sample_descriptor" for io hv
    by (simp add: sample_media_env_def)
  have loader: "dp_media_loader sample_deployment = True" by (simp add: sample_deployment_def)
  from media_slots_in_order [OF g sample_ordered, unfolded loader] obtain io hv media where
    media: "bt_media b' = Some media" "\<forall>m. om_get media m = slot_map (final_slot sample_media_env True io hv) [sample_part] m"
    by (simp only: list.distinct simp_thms) (elim exE conjE, rule that)
  have "slot_map (final_slot sample_media_env True io hv) [sample_part] ''video_url'' = Some [Media_Decoded sample_descriptor]"
    using fetch [of io hv] by (simp add: slot_map_def final_slot_def sample_part_def)
  with media have "om_get media ''video_url'' = Some [Media_Decoded sample_descriptor]" by simp
  with media(1) fetch show ?thesis
    by (intro exI [of _ b'] exI [of _ media] exI [of _ sample_descriptor] conjI)
qed

lemma media_extra_args_keys:
  assumes "k \<in> {''mm_hashes'', ''mm_hashes_by_modality''}"
  shows "om_get (media_extra_args D r prompt) k = None"
proof -
  have fold_get: "om_get (fold (\<lambda>(k, v). om_insert k v) kvs m) k = None"
    if "om_get m k = None" "om_get kvs k = None" for kvs m :: "(string, json) omap"
    using that by (induction kvs arbitrary: m) (auto simp: om_get_Cons split: if_splits)
  have "om_get kvs k = None" if "backend_extra_args r c e = Some (JObject kvs)" for c e kvs
    using backend_extra_args_object [OF that] assms by fastforce
  moreover have "om_get (insert_some ''formatted_prompt'' v [(''messages'', x)]) k = None" for v x
    using assms by (auto simp: om_get_Cons)
  ultimately show ?thesis
    unfolding media_extra_args_def Let_def
    by (simp add: fold_get del: get_insert_some split: option.split json.split)
qed

lemma no_loader_types:
  "list_all (\<lambda>p. exact_mm_routing_supports_modality (mp_type p) False) ps \<Longrightarrow> list_all (\<lambda>p. is_some (mp_url p)) ps \<Longrightarrow>
     map mp_type ps = map (\<lambda>_. ''image_url'') (filter (\<lambda>p. is_some (mp_url p)) (parts_of ''image_url'' ps))"
  by (induction ps) (auto simp: exact_mm_routing_supports_modality_def)

lemma all_urls: "list_all part_ok ps \<Longrightarrow> \<not> list_ex (\<lambda>p. is_some (mp_uuid p)) ps \<Longrightarrow> list_all (\<lambda>p. is_some (mp_url p)) ps"
  by (auto simp: list_all_iff list_ex_iff part_ok_def)

lemma tasks_all: "list_all (\<lambda>p. is_some (mp_url p)) ps \<Longrightarrow> map mk_modality (tasks_from before ps) = map mp_type ps"
  by (induction ps arbitrary: before) simp_all

lemma resolved_entries:
  assumes "scan_ok E loader ps sc" "resolve_media E r sc = Inr st" "\<not> ms_has_uuid sc" "fs_eligible st"
    and "image_count (fs_entries st) = ms_total_images sc"
  shows "list_all2 (\<lambda>p e. entry_kind (mp_type p) e) ps (fs_entries st)"
proof -
  let ?cat = "\<lambda>os :: routing_entry option list. concat (map (\<lambda>e. case e of Some e \<Rightarrow> [e] | None \<Rightarrow> []) os)"
  from resolve_mediaE [OF assms(2)] obtain io hv st0 st1 where
    st0: "fs_media st0 = ms_media sc" "fs_entries st0 = []" "fs_eligible st0 = ms_eligible sc"
    and fetch: "fetch_media E (has_mm_processor_override (bq_mm_kwargs r)) io hv (ms_tasks sc) st0 = Inr st1"
    and pass: "if \<not> ms_has_uuid sc \<and> ms_passthrough sc \<noteq> [] then passthrough_images E (ms_passthrough sc) st1 = Inr st
     else st = st1" .
  from assms(1) have sc: "ms_tasks sc = (if loader then tasks_from [] ps else [])"
    "ms_total_images sc = length (parts_of ''image_url'' ps)"
    "ms_eligible sc \<Longrightarrow> list_all (\<lambda>p. exact_mm_routing_supports_modality (mp_type p) loader) ps"
    "ms_passthrough sc = (if loader then []
       else map (\<lambda>p. (me_url_hash E (the (mp_url p)), the (mp_url p))) (filter (\<lambda>p. is_some (mp_url p)) (parts_of ''image_url'' ps)))"
    and urls: "list_all (\<lambda>p. is_some (mp_url p)) ps"
    using assms(3) all_urls by (simp_all add: scan_ok_def)
  from fetch_media_adds [OF fetch] obtain os where os: "fs_entries st1 = ?cat os"
    "adds_entries (fs_eligible st1) (map mk_modality (ms_tasks sc)) os" "fs_eligible st1 \<longrightarrow> ms_eligible sc"
    using st0 by auto
  have el: "fs_eligible st1" using pass passthrough_keeps assms(4) by (auto split: if_splits)
  have count: "length (parts_of ''image_url'' ps) = length (filter (\<lambda>m. m = ''image_url'') (map mp_type ps))"
    by (simp add: parts_of_def filter_map o_def)
  have kinds: "list_all (\<lambda>p. exact_mm_routing_supports_modality (mp_type p) loader) ps" using sc(3) os(3) el by simp
  obtain os' where os': "fs_entries st = ?cat os'" "adds_entries True (map mp_type ps) os'"
  proof (cases loader)
    case True
    then have "st = st1" using pass sc(4) by (simp split: if_splits)
    then show thesis using that [of os] os el True sc(1) tasks_all [OF urls, of "[]"] by simp
  next
    case False
    then have one: "map mp_type ps = map (\<lambda>_. ''image_url'') (ms_passthrough sc)"
      using no_loader_types [of ps] kinds urls sc(4) by (simp add: o_def)
    have "os = []" "fs_entries st1 = []" using os False sc(1) by (simp_all add: adds_entries_def)
    then show thesis
      using that [of "[]"] that passthrough_adds [of E "ms_passthrough sc" st1 st] pass assms(3,4) one
      by (cases "ms_passthrough sc = []") (auto simp: adds_entries_def)
  qed
  have "list_all (\<lambda>m. m = ''image_url'' \<or> m = ''video_url'') (map mp_type ps)"
    using kinds by (auto simp: list_all_iff exact_mm_routing_supports_modality_def)
  from entries_complete [OF os'(2) this] show ?thesis
    using assms(5) sc(2) count os'(1) by (simp add: list_all2_map1)
qed

text \<open>
  C24.  Exact keys, all or nothing.  If routing information is attached to a request with media,
  the worker gets the hashes with it, in the member for its kind of request and in no other;
  the entries behind both are one per media part, in request order and of its modality; the
  client gave no cache identity and no processor override; and the routing information is the
  one built from these entries.  If none is attached, the worker gets no hashes either.
\<close>

theorem exact_keys_all_or_nothing:
  assumes "gather_multi_modal_data_with_image_tokens E D r prompt toks b = Inr (b', es, n)"
    and "bq_parts r = Some msgs" "ordered_parts (me_message_order E r) msgs = Inr ps" "ps \<noteq> []"
    and "bt_routing_info b = None"
  shows "\<exists>args. bt_extra_args b' = Some (JObject args) \<and>
    (case bt_routing_info b' of
       Some info \<Rightarrow>
         om_get args (fst (worker_hashes es)) = Some (snd (worker_hashes es))
         \<and> (\<forall>k \<in> {''mm_hashes'', ''mm_hashes_by_modality''}. k \<noteq> fst (worker_hashes es) \<longrightarrow> om_get args k = None)
         \<and> list_all2 (\<lambda>p e. entry_kind (mp_type p) e) ps es
         \<and> \<not> list_ex (\<lambda>p. is_some (mp_uuid p)) ps \<and> \<not> has_mm_processor_override (bq_mm_kwargs r)
         \<and> (\<exists>len. build_mm_exact_routing_info (me_kit E) (me_setup E) es toks len = Some info)
     | None \<Rightarrow> \<forall>k \<in> {''mm_hashes'', ''mm_hashes_by_modality''}. om_get args k = None)"
proof -
  from gatherE [OF assms(1-3)] obtain sc st tokens where
    sc: "scan_ok E (dp_media_loader D) ps sc" and st: "resolve_media E r sc = Inr st"
    and out: "install_media E D r prompt toks sc st b = (b', es, tokens)" .
  have uuid: "ms_has_uuid sc = list_ex (\<lambda>p. is_some (mp_uuid p)) ps" using sc by (simp add: scan_ok_def)
  from resolved_slots [OF sc st] have media: "fs_media st \<noteq> []"
    using om_empty_iff [of "fs_media st"] slot_map_Nil assms(4) by metis
  define es0 where "es0 = (if ms_has_uuid sc then [] else fs_entries st)"
  define ready where "ready = (fs_eligible st \<and> exact_mm_routing_preconditions_met (ms_has_uuid sc) (image_count es0)
    (ms_total_images sc) (has_mm_processor_override (bq_mm_kwargs r)))"
  define len where "len = exact_text_len E ready prompt (image_count es0)"
  define info where "info = (if ready then build_mm_exact_routing_info (me_kit E) (me_setup E) es0 toks len else None)"
  define args where "args = (if is_some info then (case worker_hashes es0 of (k, v) \<Rightarrow> om_insert k v (media_extra_args D r prompt))
    else media_extra_args D r prompt)"
  have res: "es = es0" "bt_extra_args b' = Some (JObject args)" "bt_routing_info b' = info"
    using out media assms(5)
    by (auto simp: install_media_def Let_def es0_def ready_def len_def info_def args_def split: option.split)
  show ?thesis
  proof (cases info)
    case None
    then show ?thesis using res media_extra_args_keys by (simp add: args_def)
  next
    case (Some i)
    then have "ready" and built: "build_mm_exact_routing_info (me_kit E) (me_setup E) es0 toks len = Some i"
      by (auto simp: info_def split: if_splits)
    then have no: "\<not> ms_has_uuid sc" "\<not> has_mm_processor_override (bq_mm_kwargs r)" "fs_eligible st"
      "image_count es0 = ms_total_images sc"
      by (auto simp: ready_def exact_mm_routing_preconditions_met_def)
    then have "es0 = fs_entries st" by (simp add: es0_def)
    with resolved_entries [OF sc st no(1,3)] no(4) have "list_all2 (\<lambda>p e. entry_kind (mp_type p) e) ps es0" by simp
    then show ?thesis
      using res Some no built uuid media_extra_args_keys [of _ D r prompt]
      by (auto simp: args_def split: prod.splits)
  qed
qed

theorem exact_keys_all_or_nothing_witness:
  "\<exists>(b' :: built_request) args. bt_extra_args b' = Some (JObject args) \<and> bt_routing_info b' \<noteq> None
     \<and> om_get args (fst (worker_hashes [sample_video])) = Some (snd (worker_hashes [sample_video]))
     \<and> list_all2 (\<lambda>p e. entry_kind (mp_type p) e) [sample_part] [sample_video]"
proof -
  obtain b' n where g: "gather_multi_modal_data_with_image_tokens sample_media_env sample_deployment sample_media_request None
      [1, 7, 2] sample_built = Inr (b', [sample_video], n)" and info: "bt_routing_info b' \<noteq> None"
    using sample_gathers by (elim exE conjE) simp
  have none: "bt_routing_info sample_built = None" by (simp add: sample_built_def)
  from info obtain i where i: "bt_routing_info b' = Some i" by blast
  from exact_keys_all_or_nothing [OF g sample_ordered list.simps(3) none] i
  obtain args where args: "bt_extra_args b' = Some (JObject args)"
    "om_get args (fst (worker_hashes [sample_video])) = Some (snd (worker_hashes [sample_video]))"
    "list_all2 (\<lambda>p e. entry_kind (mp_type p) e) [sample_part] [sample_video]"
    by (simp only: option.case) (elim exE conjE, simp)
  show ?thesis
    by (rule exI [of _ b'], rule exI [of _ args]) (use args info in \<open>intro conjI\<close>)
qed

end
