(* ===== verification/Effects.thy ===== *)
theory Effects
  imports Prelude
begin

text \<open>
  Sequences of calls on code outside the repository.  A step takes a state and returns a result,
  which may be an error, and the state after it.  A history is the list of the calls made so far,
  newest first, each with its success; what a call answers may depend on the history.
\<close>

type_synonym ('s, 'e, 'a) eff = "'s \<Rightarrow> ('e + 'a) \<times> 's"

type_synonym 'k history = "('k \<times> bool) list"

text \<open>The operator \<open>?\<close>: an error ends the sequence.\<close>

definition and_then :: "('s, 'e, 'a) eff \<Rightarrow> ('a \<Rightarrow> ('s, 'e, 'b) eff) \<Rightarrow> ('s, 'e, 'b) eff" where
  "and_then m f w = (case m w of (Inl e, w') \<Rightarrow> (Inl e, w') | (Inr a, w') \<Rightarrow> f a w')"

definition fails_with :: "'e \<Rightarrow> ('s, 'e, 'a) eff" where
  "fails_with e w = (Inl e, w)"

definition made :: "'k \<Rightarrow> 'k history \<Rightarrow> bool" where
  "made k l \<longleftrightarrow> (k, True) \<in> set l \<or> (k, False) \<in> set l"

lemma and_then_cases:
  assumes "and_then m f w = (r, w')"
  obtains (fails) e where "m w = (Inl e, w')" "r = Inl e"
  | (continues) a w1 where "m w = (Inr a, w1)" "f a w1 = (r, w')"
  using assms by (auto simp: and_then_def split: prod.splits sum.splits)

lemma and_then_assoc: "and_then (and_then m f) g = and_then m (\<lambda>a. and_then (f a) g)"
  by (rule ext) (auto simp: and_then_def split: prod.splits sum.splits)

lemma made_simps [simp]: "\<not> made k []" "made k ((k', ok) # l) \<longleftrightarrow> k' = k \<or> made k l"
  "made k (l @ l') \<longleftrightarrow> made k l \<or> made k l'"
  by (cases ok) (auto simp: made_def)

text \<open>A step extends the history by calls that all satisfy \<open>P\<close>.\<close>

definition extends_by :: "('k \<Rightarrow> bool) \<Rightarrow> ('s \<Rightarrow> 'k history) \<Rightarrow> ('s, 'e, 'a) eff \<Rightarrow> bool" where
  "extends_by P hist m \<longleftrightarrow>
     (\<forall>w r w'. m w = (r, w') \<longrightarrow> (\<exists>pre. hist w' = pre @ hist w \<and> list_all (\<lambda>e. P (fst e)) pre))"

lemma extends_byI:
  assumes "\<And>w r w'. m w = (r, w') \<Longrightarrow> \<exists>pre. hist w' = pre @ hist w \<and> list_all (\<lambda>e. P (fst e)) pre"
  shows "extends_by P hist m"
  using assms by (auto simp: extends_by_def)

lemma extends_byE:
  assumes "extends_by P hist m" "m w = (r, w')"
  obtains pre where "hist w' = pre @ hist w" "list_all (\<lambda>e. P (fst e)) pre"
  using assms unfolding extends_by_def by blast

lemma extends_by_and_then:
  assumes "extends_by P hist m" "\<And>a. extends_by P hist (f a)"
  shows "extends_by P hist (and_then m f)"
proof (rule extends_byI)
  fix w r w'
  assume "and_then m f w = (r, w')"
  then show "\<exists>pre. hist w' = pre @ hist w \<and> list_all (\<lambda>e. P (fst e)) pre"
  proof (cases rule: and_then_cases)
    case (fails e)
    then show ?thesis by (auto elim: extends_byE [OF assms(1)])
  next
    case (continues a w1)
    from extends_byE [OF assms(1) continues(1)] obtain p where "hist w1 = p @ hist w" "list_all (\<lambda>e. P (fst e)) p" .
    moreover from extends_byE [OF assms(2) continues(2)] obtain q
      where "hist w' = q @ hist w1" "list_all (\<lambda>e. P (fst e)) q" .
    ultimately show ?thesis by (intro exI [of _ "q @ p"]) simp
  qed
qed

lemma extends_by_same: "(\<And>w. hist (snd (m w)) = hist w) \<Longrightarrow> extends_by P hist m"
  by (rule extends_byI) (metis append_Nil list.pred_inject(1) snd_conv)

lemma extends_by_return: "extends_by P hist (Pair r)"
  by (rule extends_by_same) simp

end
