(* ===== verification/Image_Dims.thy ===== *)
theory Image_Dims
  imports Mm_Routing Text_Search Effects
begin

text \<open>
  The dimensions of an image given by URL (\<open>fetch_image_dims\<close>,
  \<open>fetch_image_dims_uncached\<close> and \<open>dimensions_from_image_bytes\<close> in
  \<open>fix/dynamo/preprocessor.rs\<close>): a \<open>data:\<close> URI is decoded locally, any other image is
  looked at through the first bytes of it, and results are kept in a cache that the requests share.

  The image reader, the base64 decoder, the HTTP client, the policy of the media fetcher and the
  cache are code outside the repository: the functions of \<open>dim_kit\<close>.  A text and a byte string
  are the same type here, as everywhere in the development.
\<close>

section \<open>Data\<close>

datatype orientation =
    NoTransforms | Rotate90 | Rotate180 | Rotate270 | FlipHorizontal | FlipVertical | Rotate90FlipH | Rotate270FlipH

datatype dim_error =
    Data_Uri_Without_Comma
  | Base64_Invalid string
  | Unsupported_Scheme string
  | Url_Invalid string
  | Url_Refused string
  | Request_Failed string
  | Not_Partial_Content nat
  | Body_Failed string
  | Image_Unreadable string
  | Header_Unreadable dim_error

record 'i image_kit =
  ik_reader :: "string \<Rightarrow> string + 'i"
  ik_into_dimensions :: "'i \<Rightarrow> string + u32 \<times> u32"
  ik_into_decoder :: "'i \<Rightarrow> string + (u32 \<times> u32) \<times> (string + orientation)"

record 'i dim_kit = "'i image_kit" +
  dk_base64 :: "string \<Rightarrow> string + string"
  dk_parse_url :: "string \<Rightarrow> string option"
  dk_url_allowed :: "string \<Rightarrow> string option"
  dk_get :: "string \<Rightarrow> nat \<Rightarrow> string + nat \<times> (string + string)"
  dk_policy_rejection :: "dim_error \<Rightarrow> bool"
  dk_show :: "dim_error \<Rightarrow> string"

section \<open>Reading the dimensions\<close>

definition swaps_axes :: "orientation \<Rightarrow> bool" where
  "swaps_axes r = (r \<in> {Rotate90, Rotate270, Rotate90FlipH, Rotate270FlipH})"

definition dimensions_from_image_bytes ::
  "('i, 'x) image_kit_scheme \<Rightarrow> string \<Rightarrow> dimension_policy \<Rightarrow> dim_error + u32 \<times> u32" where
  "dimensions_from_image_bytes K bytes policy =
     (case ik_reader K bytes of
        Inl e \<Rightarrow> Inl (Image_Unreadable e)
      | Inr reader \<Rightarrow>
          if policy = Encoded then map_sum Image_Unreadable id (ik_into_dimensions K reader)
          else
            (case ik_into_decoder K reader of
               Inl e \<Rightarrow> Inl (Image_Unreadable e)
             | Inr ((width, height), orientation) \<Rightarrow>
                 (case orientation of
                    Inl e \<Rightarrow> Inl (Image_Unreadable e)
                  | Inr r \<Rightarrow> Inr (if swaps_axes r then (height, width) else (width, height)))))"

section \<open>Fetching\<close>

text \<open>What the fetch does outside the process: the check of a URL and the range requests, newest first.\<close>

datatype dim_call = Check_Url string | Get_Range string nat

definition small_range :: nat where
  "small_range = 4 * 1024 - 1"

definition large_range :: nat where
  "large_range = 64 * 1024 - 1"

function fetch_ranges ::
  "'i dim_kit \<Rightarrow> string \<Rightarrow> dimension_policy \<Rightarrow> nat \<Rightarrow> (dim_call history, dim_error, u32 \<times> u32) eff" where
  "fetch_ranges K url policy range_end l =
     (let c = Get_Range url range_end in
      case dk_get K url range_end of
        Inl e \<Rightarrow> (Inl (Request_Failed e), (c, False) # l)
      | Inr (status, body) \<Rightarrow>
          if status \<noteq> 206 then (Inl (Not_Partial_Content status), (c, True) # l)
          else
            (case body of
               Inl e \<Rightarrow> (Inl (Body_Failed e), (c, True) # l)
             | Inr bytes \<Rightarrow>
                 (case dimensions_from_image_bytes K bytes policy of
                    Inr d \<Rightarrow> (Inr d, (c, True) # l)
                  | Inl e \<Rightarrow>
                      if range_end < large_range then fetch_ranges K url policy large_range ((c, True) # l)
                      else (Inl (Header_Unreadable e), (c, True) # l))))"
  by pat_completeness auto
termination
  by (relation "measure (\<lambda>(K, url, policy, range_end, l). large_range - range_end)") auto

declare fetch_ranges.simps [simp del]

definition data_uri_bytes :: "'i dim_kit \<Rightarrow> string \<Rightarrow> dim_error + string" where
  "data_uri_bytes K rest =
     (case split_once '','' rest of
        None \<Rightarrow> Inl Data_Uri_Without_Comma
      | Some (pre, payload) \<Rightarrow>
          if contains_sub '';base64'' pre then map_sum Base64_Invalid id (dk_base64 K payload)
          else Inr payload)"

definition fetch_image_dims_uncached ::
  "'i dim_kit \<Rightarrow> string \<Rightarrow> dimension_policy \<Rightarrow> (dim_call history, dim_error, u32 \<times> u32) eff" where
  "fetch_image_dims_uncached K url policy l =
     (case strip_prefix ''data:'' url of
        Some rest \<Rightarrow>
          (case data_uri_bytes K rest of
             Inl e \<Rightarrow> (Inl e, l)
           | Inr bytes \<Rightarrow> (dimensions_from_image_bytes K bytes policy, l))
      | None \<Rightarrow>
          if \<not> (prefix ''http://'' url \<or> prefix ''https://'' url) then (Inl (Unsupported_Scheme url), l)
          else
            (case dk_parse_url K url of
               Some e \<Rightarrow> (Inl (Url_Invalid e), l)
             | None \<Rightarrow>
                 (case dk_url_allowed K url of
                    Some e \<Rightarrow> (Inl (Url_Refused e), (Check_Url url, False) # l)
                  | None \<Rightarrow> fetch_ranges K url policy small_range ((Check_Url url, True) # l))))"

section \<open>The shared cache\<close>

text \<open>Preserves terminal versus recoverable failures when the cache shares a fetch among callers.\<close>

datatype image_dim_fetch_failure = Dim_Invalid_Argument string | Dim_Recoverable string

definition failure_from_error :: "'i dim_kit \<Rightarrow> dim_error \<Rightarrow> image_dim_fetch_failure" where
  "failure_from_error K e =
     (if dk_policy_rejection K e then Dim_Invalid_Argument (dk_show K e) else Dim_Recoverable (dk_show K e))"

text \<open>An error of the caller: whether it is terminal for the request, and its message.\<close>

definition failure_to_error :: "image_dim_fetch_failure \<Rightarrow> bool \<times> string" where
  "failure_to_error f =
     (case f of
        Dim_Invalid_Argument m \<Rightarrow> (True, m)
      | Dim_Recoverable m \<Rightarrow> (False, ''fetch_image_dims failed: '' @ m))"

type_synonym dim_key = "u64 \<times> dimension_policy"

record 'c dim_cache =
  dc_get :: "'c \<Rightarrow> dim_key \<Rightarrow> (u32 \<times> u32) option"
  dc_insert :: "dim_key \<Rightarrow> u32 \<times> u32 \<Rightarrow> 'c \<Rightarrow> 'c"

definition fetch_image_dims ::
  "'i dim_kit \<Rightarrow> 'c dim_cache \<Rightarrow> u64 \<Rightarrow> string \<Rightarrow> dimension_policy \<Rightarrow>
     ('c \<times> dim_call history, bool \<times> string, u32 \<times> u32) eff" where
  "fetch_image_dims K C mm_hash url policy s =
     (let (c, l) = s;
          key = (mm_hash, policy) in
      case dc_get C c key of
        Some d \<Rightarrow> (Inr d, (c, l))
      | None \<Rightarrow>
          (case fetch_image_dims_uncached K url policy l of
             (Inr d, l') \<Rightarrow> (Inr d, (dc_insert C key d c, l'))
           | (Inl e, l') \<Rightarrow> (Inl (failure_to_error (failure_from_error K e)), (c, l'))))"

text \<open>A run of requests on one cache, which may drop entries between them.\<close>

inductive cache_run ::
  "'i dim_kit \<Rightarrow> 'c dim_cache \<Rightarrow> (string \<Rightarrow> u64) \<Rightarrow> 'c \<Rightarrow> string list \<Rightarrow> 'c \<Rightarrow> bool" for K C hash c0 where
  fresh: "cache_run K C hash c0 [] c0"
| requested: "cache_run K C hash c0 urls c \<Longrightarrow> fetch_image_dims K C (hash url) url policy (c, l) = (r, (c', l'))
    \<Longrightarrow> cache_run K C hash c0 (url # urls) c'"
| evicted: "cache_run K C hash c0 urls c \<Longrightarrow> (\<And>k d. dc_get C c' k = Some d \<Longrightarrow> dc_get C c k = Some d)
    \<Longrightarrow> cache_run K C hash c0 urls c'"

section \<open>Lemmas\<close>

text \<open>The result of a fetch and the calls it adds do not depend on the history before it.\<close>

lemma fetch_ranges_large:
  "fetch_ranges K url policy large_range l =
     (case dk_get K url large_range of
        Inl e \<Rightarrow> (Inl (Request_Failed e), (Get_Range url large_range, False) # l)
      | Inr (status, body) \<Rightarrow>
          (if status \<noteq> 206 then Inl (Not_Partial_Content status)
           else case body of
             Inl e \<Rightarrow> Inl (Body_Failed e)
           | Inr bytes \<Rightarrow> map_sum Header_Unreadable id (dimensions_from_image_bytes K bytes policy),
           (Get_Range url large_range, True) # l))"
  by (subst fetch_ranges.simps) (simp add: Let_def split: sum.split prod.split)

definition small_unreadable :: "'i dim_kit \<Rightarrow> string \<Rightarrow> dimension_policy \<Rightarrow> bool" where
  "small_unreadable K url policy =
     (\<exists>bytes e. dk_get K url small_range = Inr (206, Inr bytes) \<and> dimensions_from_image_bytes K bytes policy = Inl e)"

lemma small_below_large: "small_range < large_range"
  by (simp add: small_range_def large_range_def)

lemma fetch_ranges_small:
  "fetch_ranges K url policy small_range l =
     (if small_unreadable K url policy then fetch_ranges K url policy large_range ((Get_Range url small_range, True) # l)
      else case dk_get K url small_range of
        Inl e \<Rightarrow> (Inl (Request_Failed e), (Get_Range url small_range, False) # l)
      | Inr (status, body) \<Rightarrow>
          (if status \<noteq> 206 then Inl (Not_Partial_Content status)
           else case body of
             Inl e \<Rightarrow> Inl (Body_Failed e)
           | Inr bytes \<Rightarrow> dimensions_from_image_bytes K bytes policy,
           (Get_Range url small_range, True) # l))"
  by (subst fetch_ranges.simps)
    (simp add: Let_def small_unreadable_def small_below_large split: sum.split prod.split)

lemma fetch_ranges_history:
  "fst (fetch_ranges K url policy small_range l) = fst (fetch_ranges K url policy small_range l')"
  by (simp add: fetch_ranges_small fetch_ranges_large split: sum.split prod.split)

lemma uncached_history: "fst (fetch_image_dims_uncached K url policy l) = fst (fetch_image_dims_uncached K url policy l')"
proof -
  have "fst (fetch_ranges K url policy small_range ((Check_Url url, True) # l))
      = fst (fetch_ranges K url policy small_range ((Check_Url url, True) # l'))"
    by (rule fetch_ranges_history)
  then show ?thesis by (simp add: fetch_image_dims_uncached_def split: option.split sum.split)
qed

definition image_dims :: "'i dim_kit \<Rightarrow> string \<Rightarrow> dimension_policy \<Rightarrow> dim_error + u32 \<times> u32" where
  "image_dims K url policy = fst (fetch_image_dims_uncached K url policy [])"

lemma uncached_result: "fst (fetch_image_dims_uncached K url policy l) = image_dims K url policy"
  unfolding image_dims_def by (rule uncached_history)

lemma fetch_image_dims_cases:
  assumes "fetch_image_dims K C hash url policy (c, l) = (r, (c', l'))"
  obtains (hit) d where "dc_get C c (hash, policy) = Some d" "r = Inr d" "c' = c" "l' = l"
  | (fetched) d where "dc_get C c (hash, policy) = None" "image_dims K url policy = Inr d" "r = Inr d"
      "c' = dc_insert C (hash, policy) d c"
  | (failed) e where "dc_get C c (hash, policy) = None" "image_dims K url policy = Inl e"
      "r = Inl (failure_to_error (failure_from_error K e))" "c' = c"
  using assms uncached_result [of K url policy l]
  by (auto simp: fetch_image_dims_def Let_def simp del: split_paired_All split_paired_Ex
      split: option.splits sum.splits prod.splits)

text \<open>What the cache promises: an entry it returns was inserted.\<close>

definition cache_law :: "'c dim_cache \<Rightarrow> bool" where
  "cache_law C \<longleftrightarrow>
     (\<forall>c k d k' d'. dc_get C (dc_insert C k d c) k' = Some d' \<longrightarrow> k' = k \<and> d' = d \<or> dc_get C c k' = Some d')"

definition cache_exact :: "'i dim_kit \<Rightarrow> 'c dim_cache \<Rightarrow> (string \<Rightarrow> u64) \<Rightarrow> string list \<Rightarrow> 'c \<Rightarrow> bool" where
  "cache_exact K C hash urls c \<longleftrightarrow>
     (\<forall>k d. dc_get C c k = Some d \<longrightarrow> (\<exists>url \<in> set urls. hash url = fst k \<and> image_dims K url (snd k) = Inr d))"

lemma cache_exactD:
  "cache_exact K C hash urls c \<Longrightarrow> dc_get C c k = Some d \<Longrightarrow>
     \<exists>url \<in> set urls. hash url = fst k \<and> image_dims K url (snd k) = Inr d"
  unfolding cache_exact_def by blast

lemma requested_exact:
  assumes "cache_law C" "cache_exact K C hash urls c"
    and "fetch_image_dims K C (hash url) url policy (c, l) = (r, (c', l'))"
  shows "cache_exact K C hash (url # urls) c'"
  using assms(3)
proof (cases rule: fetch_image_dims_cases)
  case (fetched d)
  show ?thesis
    unfolding cache_exact_def
  proof (intro allI impI)
    fix k d'
    assume "dc_get C c' k = Some d'"
    with assms(1) fetched(4) have "k = (hash url, policy) \<and> d' = d \<or> dc_get C c k = Some d'"
      unfolding cache_law_def by blast
    with fetched(2) cache_exactD [OF assms(2)]
    show "\<exists>v \<in> set (url # urls). hash v = fst k \<and> image_dims K v (snd k) = Inr d'" by fastforce
  qed
qed (use assms(2) in \<open>auto simp: cache_exact_def\<close>)

lemma run_exact:
  assumes "cache_law C" "\<And>k. dc_get C c0 k = None"
  shows "cache_run K C hash c0 urls c \<Longrightarrow> cache_exact K C hash urls c"
proof (induction rule: cache_run.induct)
  case fresh
  then show ?case using assms(2) by (simp add: cache_exact_def)
next
  case (requested urls c url policy l r c' l')
  then show ?case using requested_exact [OF assms(1)] by blast
next
  case (evicted urls c c')
  then show ?case by (fastforce simp: cache_exact_def)
qed

text \<open>
  The shared cache is transparent.  As long as no two requested URLs have the same hash, a
  request for the dimensions of an image gives what a fetch without the cache gives.
\<close>

definition pure_dims :: "'i dim_kit \<Rightarrow> string \<Rightarrow> dimension_policy \<Rightarrow> bool \<times> string + u32 \<times> u32" where
  "pure_dims K url policy = map_sum (\<lambda>e. failure_to_error (failure_from_error K e)) id (image_dims K url policy)"

lemma cached_dims_are_exact:
  assumes "cache_exact K C hash urls c" "inj_on hash (insert url (set urls))"
    and "fetch_image_dims K C (hash url) url policy (c, l) = (r, s')"
  shows "r = pure_dims K url policy"
proof -
  obtain c' l' where s': "s' = (c', l')" by fastforce
  show ?thesis
    using assms(3) [unfolded s']
  proof (cases rule: fetch_image_dims_cases)
    case (hit d)
    with cache_exactD [OF assms(1) hit(1)]
    obtain v where "v \<in> set urls" "hash v = hash url" "image_dims K v policy = Inr d" by auto
    moreover from this assms(2) have "v = url" by (auto simp: inj_on_def)
    ultimately show ?thesis using hit by (simp add: pure_dims_def)
  qed (simp_all add: pure_dims_def)
qed

text \<open>Only the rejections of the fetch policy are terminal for the request.\<close>

lemma terminal_failures:
  "pure_dims K url policy = Inl (t, msg) \<Longrightarrow> \<exists>e. image_dims K url policy = Inl e \<and> t = dk_policy_rejection K e"
  by (cases "image_dims K url policy") (auto simp: pure_dims_def failure_to_error_def failure_from_error_def split: if_splits)

lemma range_calls:
  assumes "fetch_ranges K url policy small_range l = (r, l')"
  shows "\<exists>ok. l' = (Get_Range url small_range, ok) # l
    \<or> l' = (Get_Range url large_range, ok) # (Get_Range url small_range, True) # l \<and> small_unreadable K url policy"
  using assms
  by (auto simp: fetch_ranges_small fetch_ranges_large split: if_splits sum.splits prod.splits)

text \<open>
  C21. Looking at an image is bounded and obeys the fetch policy.  A fetch adds at most a check of the
  URL and two range requests, in this order: nothing for a \<open>data:\<close> URI or another scheme, no
  request unless the check has allowed the URL, the second and larger request only when the first
  delivered a partial body without readable dimensions.
\<close>

theorem dim_fetch_bounded_and_allowed:
  assumes "fetch_image_dims_uncached K url policy l = (r, l')"
  shows "l' = l
    \<or> \<not> prefix ''data:'' url \<and> (prefix ''http://'' url \<or> prefix ''https://'' url)
      \<and> (l' = (Check_Url url, False) # l \<and> dk_url_allowed K url \<noteq> None
         \<or> dk_url_allowed K url = None
           \<and> (\<exists>ok. l' = [(Get_Range url 4095, ok), (Check_Url url, True)] @ l
                \<or> l' = [(Get_Range url 65535, ok), (Get_Range url 4095, True), (Check_Url url, True)] @ l
                  \<and> (\<exists>bytes e. dk_get K url 4095 = Inr (206, Inr bytes)
                       \<and> dimensions_from_image_bytes K bytes policy = Inl e)))"
proof -
  consider (kept) "l' = l"
    | (refused) "\<not> prefix ''data:'' url" "prefix ''http://'' url \<or> prefix ''https://'' url"
        "l' = (Check_Url url, False) # l" "dk_url_allowed K url \<noteq> None"
    | (allowed) "\<not> prefix ''data:'' url" "prefix ''http://'' url \<or> prefix ''https://'' url" "dk_url_allowed K url = None"
        "fetch_ranges K url policy small_range ((Check_Url url, True) # l) = (r, l')"
    using assms
    by (auto simp: fetch_image_dims_uncached_def strip_prefix_def split: if_splits option.splits sum.splits)
  then show ?thesis
  proof cases
    case allowed
    from range_calls [OF allowed(4)] allowed(1-3) show ?thesis
      by (auto simp: small_range_def large_range_def small_unreadable_def)
  qed auto
qed

section \<open>Samples\<close>

text \<open>An image is its two dimensions as two bytes, turned if a third byte follows; the cache is an association list.\<close>

definition sample_dims :: "string dim_kit" where
  "sample_dims =
     \<lparr>ik_reader = Inr,
      ik_into_dimensions = (\<lambda>b. if length b < 2 then Inl ''short'' else Inr (of_char (b ! 0), of_char (b ! 1))),
      ik_into_decoder = (\<lambda>b. if length b < 2 then Inl ''short''
         else Inr ((of_char (b ! 0), of_char (b ! 1)), Inr (if length b = 2 then NoTransforms else Rotate90))),
      dk_base64 = Inr, dk_parse_url = (\<lambda>_. None),
      dk_url_allowed = (\<lambda>u. if u = ''http://10.0.0.1/x'' then Some ''blocked'' else None),
      dk_get = (\<lambda>u n. Inr (206, Inr (if n = 4095 then [] else u))),
      dk_policy_rejection = (\<lambda>e. case e of Url_Refused _ \<Rightarrow> True | _ \<Rightarrow> False), dk_show = (\<lambda>_. ''failed'')\<rparr>"

definition list_cache :: "(dim_key \<times> u32 \<times> u32) list dim_cache" where
  "list_cache = \<lparr>dc_get = map_of, dc_insert = (\<lambda>k d c. (k, d) # c)\<rparr>"

lemma list_cache_law: "cache_law list_cache"
  by (auto simp: cache_law_def list_cache_def split: if_splits)

lemma sample_fetch:
  assumes "dc_get list_cache c (h, Encoded) = None"
  shows "fetch_image_dims sample_dims list_cache h ''data:,ab'' Encoded (c, l) = (Inr (97, 98), (((h, Encoded), 97, 98) # c, l))"
    and "fetch_image_dims sample_dims list_cache h ''data:,abc'' Encoded (c, l) = (Inr (97, 98), (((h, Encoded), 97, 98) # c, l))"
  using assms
  by (simp_all add: fetch_image_dims_def fetch_image_dims_uncached_def data_uri_bytes_def dimensions_from_image_bytes_def
      strip_prefix_def split_once_def contains_sub_def sample_dims_def list_cache_def Let_def)

theorem dim_fetch_bounded_and_allowed_witness:
  "snd (fetch_image_dims_uncached sample_dims ''http://10.0.0.1/x'' Encoded []) = [(Check_Url ''http://10.0.0.1/x'', False)]"
proof -
  let ?f = "fetch_image_dims_uncached sample_dims ''http://10.0.0.1/x'' Encoded []"
  have "dk_url_allowed sample_dims ''http://10.0.0.1/x'' \<noteq> None" "snd ?f \<noteq> []"
    by (simp_all add: sample_dims_def fetch_image_dims_uncached_def strip_prefix_def)
  with dim_fetch_bounded_and_allowed [OF prod.collapse [of ?f, symmetric]] show ?thesis by auto
qed

end
