(* ===== verification/Dims_Gather.thy ===== *)
theory Dims_Gather
  imports Media_Gather Image_Dims
begin

text \<open>
  The images of a request that are passed on by URL (\<open>gather_multi_modal_data_with_image_tokens\<close> in
  \<open>fix/dynamo/preprocessor.rs\<close>, after the scan): their dimensions are requested all at once, the
  requests share the process-wide cache with each other and with other clients, and the results are
  used in the order of the images.  \<open>Media_Gather\<close> takes the dimensions of an image as a function;
  here this function is justified: whatever the order in which the requests are served, the outcome
  is the one of the function \<open>pure_dims\<close>.
\<close>

section \<open>The requests in flight\<close>

type_synonym dim_result = "(bool \<times> string) + u32 \<times> u32"

text \<open>
  The cache, and the results by position.  A step serves a request of this batch or of another
  client, or evicts entries.  A request that waits for the fetch of another one under the same key is
  served right after it, from the cache.
\<close>

inductive dims_served ::
  "'i dim_kit \<Rightarrow> 'c dim_cache \<Rightarrow> (string \<Rightarrow> u64) \<Rightarrow> string list \<Rightarrow> dimension_policy \<Rightarrow> string list \<Rightarrow> 'c \<Rightarrow>
     'c \<Rightarrow> (nat \<rightharpoonup> dim_result) \<Rightarrow> bool" for K C hash pool policy urls c0 where
  in_flight: "dims_served K C hash pool policy urls c0 c0 Map.empty"
| served: "dims_served K C hash pool policy urls c0 c res \<Longrightarrow> i < length urls \<Longrightarrow> res i = None
    \<Longrightarrow> fetch_image_dims K C (hash (urls ! i)) (urls ! i) policy (c, l) = (r, (c', l'))
    \<Longrightarrow> dims_served K C hash pool policy urls c0 c' (res(i \<mapsto> r))"
| other_client: "dims_served K C hash pool policy urls c0 c res \<Longrightarrow> url \<in> set pool
    \<Longrightarrow> fetch_image_dims K C (hash url) url other (c, l) = (r, (c', l'))
    \<Longrightarrow> dims_served K C hash pool policy urls c0 c' res"
| dropped: "dims_served K C hash pool policy urls c0 c res \<Longrightarrow> (\<And>k d. dc_get C c' k = Some d \<Longrightarrow> dc_get C c k = Some d)
    \<Longrightarrow> dims_served K C hash pool policy urls c0 c' res"

text \<open>The loop over the images and their results.\<close>

fun use_dim_results ::
  "media_env \<Rightarrow> ((u64 \<times> string) \<times> dim_result) list \<Rightarrow> fetch_state \<Rightarrow> request_error + fetch_state" where
  "use_dim_results E [] st = Inr st"
| "use_dim_results E (((hash, url), res) # rest) st =
     (case res of
        Inr (w, h) \<Rightarrow> use_dim_results E rest (push_image (me_setup E) hash w h st)
      | Inl (True, e) \<Rightarrow> Inl (Invalid_Argument e)
      | Inl (False, _) \<Rightarrow> use_dim_results E rest st)"

section \<open>Lemmas\<close>

lemma cache_exact_absorb: "url \<in> set pool \<Longrightarrow> cache_exact K C hash (url # pool) c \<Longrightarrow> cache_exact K C hash pool c"
  by (simp add: cache_exact_def insert_absorb)

lemma served_exact:
  assumes "cache_law C" "inj_on hash (set pool)" "set urls \<subseteq> set pool" "cache_exact K C hash pool c0"
    and "dims_served K C hash pool policy urls c0 c res"
  shows "cache_exact K C hash pool c \<and> (\<forall>i r. res i = Some r \<longrightarrow> i < length urls \<and> r = pure_dims K (urls ! i) policy)"
  using assms(5)
proof (induction rule: dims_served.induct)
  case in_flight
  then show ?case using assms(4) by simp
next
  case (served c res i l r c' l')
  have "urls ! i \<in> set pool" using served.hyps assms(3) by auto
  then have pool: "insert (urls ! i) (set pool) = set pool" by auto
  have "cache_exact K C hash pool c'"
    by (rule cache_exact_absorb [OF \<open>urls ! i \<in> set pool\<close>], 
        rule requested_exact [where hash = hash and url = "urls ! i" and policy = policy and urls = pool, OF assms(1) _ served.hyps(4)])
      (simp add: served.IH)
  moreover have "r = pure_dims K (urls ! i) policy"
    using cached_dims_are_exact [where hash = hash and url = "urls ! i" and policy = policy and urls = pool, OF _ _ served.hyps(4)]
      served.IH pool assms(2) by simp
  ultimately show ?case using served by auto
next
  case (other_client c res url other l r c' l')
  show ?case
    using other_client.IH
    by (auto intro: cache_exact_absorb [OF other_client.hyps(2)]
        requested_exact [where hash = hash and url = url and policy = other and urls = pool, OF assms(1) _ other_client.hyps(3)])
next
  case (dropped c res c')
  then show ?case by (fastforce simp: cache_exact_def)
qed

lemma use_pure_results:
  assumes "me_fetch_dims E = (\<lambda>_. pure_dims K)"
  shows "use_dim_results E (zip (map (\<lambda>u. (hash u, u)) us) (map (\<lambda>u. pure_dims K u (me_dimension_policy E)) us)) st =
    passthrough_images E (map (\<lambda>u. (hash u, u)) us) st"
  by (induction us arbitrary: st) (auto simp: assms split: sum.split bool.split)

section \<open>Properties\<close>


text \<open>Two images in one request; the second is served first, and an earlier request has left its dimensions.\<close>

definition dims_env :: media_env where
  "dims_env = sample_media_env\<lparr>me_fetch_dims := (\<lambda>_. pure_dims sample_dims), me_dimension_policy := Encoded\<rparr>"

definition length_hash :: "string \<Rightarrow> u64" where
  "length_hash url = of_nat (length url)"

lemma length_hash_sample: "length_hash ''data:,ab'' = 8" "length_hash ''data:,abc'' = 9"
  by (simp_all add: length_hash_def)

lemma list_cache_get: "dc_get list_cache = map_of"
  by (simp add: list_cache_def)

lemma sample_earlier: "cache_run sample_dims list_cache length_hash [] [''data:,ab''] [((8, Encoded), 97, 98)]"
  by (rule cache_run.requested [OF cache_run.fresh, where url = "''data:,ab''" and policy = Encoded and l = "[]" and l' = "[]"
        and r = "Inr (97, 98)"])
    (simp add: length_hash_sample sample_fetch(1) [where c = "[]"] list_cache_get)

definition sample_results :: "nat \<rightharpoonup> dim_result" where
  "sample_results = [1 \<mapsto> Inr (97, 98), 0 \<mapsto> Inr (97, 98)]"

lemma sample_served:
  "dims_served sample_dims list_cache length_hash [''data:,ab'', ''data:,abc''] Encoded [''data:,abc'', ''data:,ab'']
     [((8, Encoded), 97, 98)] [((9, Encoded), 97, 98), ((8, Encoded), 97, 98)] sample_results"
proof -
  let ?c = "[((8, Encoded), 97, 98)] :: (dim_key \<times> u32 \<times> u32) list"
  have hit: "fetch_image_dims sample_dims list_cache 8 ''data:,ab'' Encoded (?c, []) = (Inr (97, 98), (?c, []))"
    by (simp add: fetch_image_dims_def list_cache_def)
  have "dims_served sample_dims list_cache length_hash [''data:,ab'', ''data:,abc''] Encoded [''data:,abc'', ''data:,ab''] ?c
      ?c [1 \<mapsto> Inr (97, 98)]"
    by (rule dims_served.served [OF dims_served.in_flight, where l = "[]" and l' = "[]"]) (simp_all add: length_hash_sample hit)
  then show ?thesis
    unfolding sample_results_def
    by (rule dims_served.served [where i = 0 and l = "[]" and l' = "[]"])
      (simp_all add: length_hash_sample sample_fetch(2) list_cache_get)
qed


end
