(* ===== verification/Preprocess.thy ===== *)
theory Preprocess
  imports Media_Gather
begin

text \<open>
  The whole preprocessing of a request (\<open>preprocess_request_with_options\<close> in
  \<open>fix/dynamo/preprocessor.rs\<close>): builder, template, tokens, media, the signal that reasoning
  has begun in the prompt, and the token budget.
\<close>

section \<open>The steps\<close>

text \<open>
  The signal of a prompt that ends inside reasoning, added to the arguments of the backend.
  Arguments that are not an object are an error.
\<close>

definition attach_reasoning_ended ::
  "deployment \<Rightarrow> string option \<Rightarrow> built_request \<Rightarrow> request_error + built_request" where
  "attach_reasoning_ended D prompt b =
     (case prompt_injected_reasoning_ended_arg (dp_reasoning_parser D) prompt of
        None \<Rightarrow> Inr b
      | Some ended \<Rightarrow>
          (case unwrap_or (JObject []) (bt_extra_args b) of
             JObject kvs \<Rightarrow> Inr (b\<lparr>bt_extra_args := Some (JObject (om_insert ''reasoning_ended'' (JBool ended) kvs))\<rparr>)
           | _ \<Rightarrow> Inl (Internal_Error ''preprocessed extra_args must be an object'')))"

text \<open>What the budget reads of the built request.\<close>

definition budget_view :: "built_request \<Rightarrow> budget_request" where
  "budget_view b =
     \<lparr>br_token_ids = bt_tokens b, br_prompt_embeds = bt_prompt_embeds b, br_expanded_len = map_option mi_prompt_len (bt_routing_info b),
      br_media = map_option (map (\<lambda>(k, slots). (k, map (\<lambda>_. []) slots))) (bt_media b), br_max_tokens = bt_max_tokens b\<rparr>"

definition settle_built :: "bool \<Rightarrow> token_budget option \<Rightarrow> built_request \<Rightarrow> request_error + built_request" where
  "settle_built preserve budget b =
     map_sum Over_Budget (\<lambda>v. b\<lparr>bt_max_tokens := br_max_tokens v\<rparr>) (settle_max_tokens preserve budget (budget_view b))"

record preprocessed =
  pp_request :: built_request
  pp_annotations :: annotation_map
  pp_prompt_injected :: bool
  pp_image_tokens :: "nat option"
  pp_captured :: "token_id list option"

definition preprocess_request_with_options ::
  "build_lib \<Rightarrow> media_env \<Rightarrow> deployment \<Rightarrow> build_request \<Rightarrow> bool \<Rightarrow> bool \<Rightarrow> string option \<Rightarrow>
     request_error + preprocessed" where
  "preprocess_request_with_options L E D r tracked preserve lora =
     (case builder_with_lora L D r lora of
        Inl e \<Rightarrow> Inl e
      | Inr b \<Rightarrow>
          (case apply_template L D r of
             Inl e \<Rightarrow> Inl e
           | Inr formatted \<Rightarrow>
               let prompt = map_option rp_text formatted in
               (case gather_tokens L r formatted of
                  Inl e \<Rightarrow> Inl e
                | Inr (toks, annotations) \<Rightarrow>
                    (case gather_multi_modal_data_with_image_tokens E D r prompt toks b of
                       Inl e \<Rightarrow> Inl e
                     | Inr (b1, _, image_tokens) \<Rightarrow>
                         let b2 = b1\<lparr>bt_tokens := toks,
                               bt_router := (case Option.bind (bq_nvext r) nx_router of
                                  Some p \<Rightarrow> Some p | None \<Rightarrow> bt_router b1)\<rparr> in
                         (case attach_reasoning_ended D prompt b2 of
                            Inl e \<Rightarrow> Inl e
                          | Inr b3 \<Rightarrow>
                              map_sum id (\<lambda>b4.
                                  \<lparr>pp_request = b4, pp_annotations = annotations,
                                   pp_prompt_injected = prompt_injected_reasoning_start (dp_reasoning_parser D) prompt,
                                   pp_image_tokens = image_tokens,
                                   pp_captured = capture_prompt_token_ids r tracked toks\<rparr>)
                                (settle_built preserve (dp_budget D) b3))))))"

text \<open>The public entry point: default options, no adapter from the context.\<close>

definition preprocess_request ::
  "build_lib \<Rightarrow> media_env \<Rightarrow> deployment \<Rightarrow> build_request \<Rightarrow> bool \<Rightarrow> request_error + built_request \<times> annotation_map \<times> bool" where
  "preprocess_request L E D r tracked =
     map_sum id (\<lambda>out. (pp_request out, pp_annotations out, pp_prompt_injected out))
       (preprocess_request_with_options L E D r tracked False None)"

section \<open>Arguments of the backend\<close>

text \<open>A member of the arguments, and of the extension object in them.\<close>

definition extra_member :: "built_request \<Rightarrow> string \<Rightarrow> json option" where
  "extra_member b k = Option.bind (bt_extra_args b) (json_get k)"

definition extra_ok :: "built_request \<Rightarrow> bool" where
  "extra_ok b = (case bt_extra_args b of None \<Rightarrow> True | Some (JObject kvs) \<Rightarrow> om_ordered kvs \<and> kvs \<noteq> [] | _ \<Rightarrow> False)"

lemma builder_args:
  assumes "builder_with_lora L D r lora = Inr b"
  shows "extra_ok b" "extra_member b ''nvext'' = map_option JObject (nvext_passthrough_args r)"
    "extra_member b ''reasoning_ended'' = None"
    "Option.bind (bt_routing b) rh_cache_namespace = bq_cache_salt r" "bt_model b = bq_model r"
    "bt_routing_info b = None"
proof -
  from assms have b: "bt_extra_args b = backend_extra_args r (is_some (dp_reasoning_parser D)) None"
    "bt_routing b = request_routing L D r lora" "bt_model b = bq_model r" "bt_routing_info b = None"
    by (auto simp: builder_with_lora_def split: sum.splits)
  show "bt_model b = bq_model r" "bt_routing_info b = None" by (simp_all add: b)
  show "Option.bind (bt_routing b) rh_cache_namespace = bq_cache_salt r"
    by (cases "bq_cache_salt r") (auto simp: b request_routing_def Let_def default_hints_def split: option.split prod.split)
  have "extra_ok b \<and> extra_member b ''nvext'' = map_option JObject (nvext_passthrough_args r)
     \<and> extra_member b ''reasoning_ended'' = None"
  proof (cases "backend_extra_args r (is_some (dp_reasoning_parser D)) None")
    case None
    then have "nvext_passthrough_args r = None" by (auto simp: backend_extra_args_def non_empty_def split: if_splits)
    with None show ?thesis by (simp add: extra_ok_def extra_member_def b)
  next
    case (Some v)
    obtain m where "v = JObject m" "om_ordered m" "m \<noteq> []" "om_get m ''nvext'' = map_option JObject (nvext_passthrough_args r)"
      "om_get m ''reasoning_ended'' = None"
      using backend_extra_args_object [OF Some] by (metis option.map(1))
    with Some show ?thesis by (simp add: extra_ok_def extra_member_def b)
  qed
  then show "extra_ok b" "extra_member b ''nvext'' = map_option JObject (nvext_passthrough_args r)"
    "extra_member b ''reasoning_ended'' = None" by simp_all
qed

lemma om_get_extend:
  assumes "om_ordered kvs"
  shows "om_get (fold (\<lambda>(k, v). om_insert k v) kvs m) k = (case om_get kvs k of Some v \<Rightarrow> Some v | None \<Rightarrow> om_get m k)"
  using assms
proof (induction kvs arbitrary: m)
  case Nil
  then show ?case by simp
next
  case (Cons e kvs)
  obtain k' v where e: "e = (k', v)" by (cases e)
  have "om_ordered kvs" "om_get kvs k' = None"
    using Cons.prems e by (auto simp: om_ordered_def om_get_def map_of_eq_None_iff)
  with Cons.IH [of "om_insert k' v m"] e show ?case by (auto simp: om_get_Cons split: option.split)
qed

lemma om_ordered_extend: "om_ordered m \<Longrightarrow> om_ordered (fold (\<lambda>(k, v). om_insert k v) kvs m)"
  by (induction kvs arbitrary: m) auto

text \<open>The arguments of a request with media hold those of a request without.\<close>

lemma media_args:
  fixes D r prompt
  defines "ended \<equiv> prompt_injected_reasoning_ended_arg (dp_reasoning_parser D) prompt"
  shows "om_ordered (media_extra_args D r prompt)"
    "om_get (media_extra_args D r prompt) ''nvext'' = map_option JObject (nvext_passthrough_args r)"
    "om_get (media_extra_args D r prompt) ''reasoning_ended'' = map_option JBool ended"
proof -
  let ?base = "insert_some ''formatted_prompt'' (map_option JString prompt) [(''messages'', strip_inline_data_urls (bq_messages r))]"
  let ?configured = "is_some (dp_reasoning_parser D)"
  have base: "om_ordered ?base" "om_get ?base ''nvext'' = None" "om_get ?base ''reasoning_ended'' = None"
    by (rule ordered_insert_some, simp add: om_ordered_def) (simp_all add: om_get_Cons)
  have conf: "ended \<noteq> None \<Longrightarrow> ?configured"
    by (cases "dp_reasoning_parser D") (auto simp: ended_def prompt_injected_reasoning_ended_arg_def Let_def)
  have "om_ordered (media_extra_args D r prompt)
    \<and> om_get (media_extra_args D r prompt) ''nvext'' = map_option JObject (nvext_passthrough_args r)
    \<and> om_get (media_extra_args D r prompt) ''reasoning_ended'' = map_option JBool ended"
  proof (cases "backend_extra_args r ?configured ended")
    case None
    then have "nvext_passthrough_args r = None" "ended = None"
      using conf by (cases ended; auto simp: backend_extra_args_def non_empty_def split: if_splits)+
    with None base show ?thesis by (simp add: media_extra_args_def Let_def ended_def del: get_insert_some)
  next
    case (Some v)
    obtain m where m: "v = JObject m" "om_ordered m" "om_get m ''nvext'' = map_option JObject (nvext_passthrough_args r)"
      "om_get m ''reasoning_ended'' = (if ?configured then map_option JBool ended else None)"
      using backend_extra_args_object [OF Some] by metis
    then have "media_extra_args D r prompt = fold (\<lambda>(k, v). om_insert k v) m ?base"
      using Some by (simp add: media_extra_args_def Let_def ended_def)
    with m base conf show ?thesis
      by (auto simp: om_get_extend om_ordered_extend simp del: get_insert_some split: option.split)
  qed
  then show "om_ordered (media_extra_args D r prompt)"
    "om_get (media_extra_args D r prompt) ''nvext'' = map_option JObject (nvext_passthrough_args r)"
    "om_get (media_extra_args D r prompt) ''reasoning_ended'' = map_option JBool ended" by simp_all
qed

lemma worker_hashes_key: "fst (worker_hashes es) \<in> {''mm_hashes'', ''mm_hashes_by_modality''}"
  by (simp add: worker_hashes_def Let_def)

lemma gather_args:
  assumes "gather_multi_modal_data_with_image_tokens E D r prompt toks b = Inr (b', es, n)"
  shows "bt_model b' = bt_model b \<and> bt_routing b' = bt_routing b \<and> bt_max_tokens b' = bt_max_tokens b
    \<and> (bt_extra_args b' = bt_extra_args b \<or>
       (\<exists>args. bt_extra_args b' = Some (JObject args) \<and> om_ordered args
          \<and> om_get args ''nvext'' = map_option JObject (nvext_passthrough_args r)
          \<and> om_get args ''reasoning_ended'' =
              map_option JBool (prompt_injected_reasoning_ended_arg (dp_reasoning_parser D) prompt)))"
proof -
  have inst: "bt_model c = bt_model b \<and> bt_routing c = bt_routing b \<and> bt_max_tokens c = bt_max_tokens b
    \<and> (bt_extra_args c = bt_extra_args b \<or>
       (\<exists>args. bt_extra_args c = Some (JObject args) \<and> om_ordered args
          \<and> om_get args ''nvext'' = map_option JObject (nvext_passthrough_args r)
          \<and> om_get args ''reasoning_ended'' =
              map_option JBool (prompt_injected_reasoning_ended_arg (dp_reasoning_parser D) prompt)))"
    if "install_media E D r prompt toks sc st b = (c, es', tk)" for sc st c es' tk
    using that media_args [of D r prompt] worker_hashes_key [of es']
    by (auto simp: install_media_def Let_def split: if_splits prod.splits)
  from assms show ?thesis
    unfolding gather_multi_modal_data_with_image_tokens_def
    by (auto split: option.splits sum.splits prod.splits elim!: map_sum_eq_InrE dest!: inst)
qed

lemma attach_args:
  assumes "extra_ok b \<or> (\<exists>args. bt_extra_args b = Some (JObject args) \<and> om_ordered args)"
    and "extra_member b ''reasoning_ended'' \<in>
      {None, map_option JBool (prompt_injected_reasoning_ended_arg (dp_reasoning_parser D) prompt)}"
  shows "\<exists>b'. attach_reasoning_ended D prompt b = Inr b'
    \<and> (case bt_extra_args b' of None \<Rightarrow> True | Some (JObject kvs) \<Rightarrow> om_ordered kvs | _ \<Rightarrow> False)
    \<and> extra_member b' ''nvext'' = extra_member b ''nvext''
    \<and> extra_member b' ''reasoning_ended'' =
        map_option JBool (prompt_injected_reasoning_ended_arg (dp_reasoning_parser D) prompt)
    \<and> bt_model b' = bt_model b \<and> bt_routing b' = bt_routing b \<and> bt_tokens b' = bt_tokens b"
proof -
  obtain kvs where kvs: "unwrap_or (JObject []) (bt_extra_args b) = JObject kvs" "om_ordered kvs"
    "\<And>k. extra_member b k = om_get kvs k"
  proof (cases "bt_extra_args b")
    case None
    then show thesis by (intro that [of "[]"]) (simp_all add: extra_member_def)
  next
    case (Some v)
    with assms(1) obtain kvs where "v = JObject kvs" "om_ordered kvs" by (cases v) (auto simp: extra_ok_def)
    with Some show thesis by (intro that [of kvs]) (simp_all add: extra_member_def)
  qed
  show ?thesis
  proof (cases "prompt_injected_reasoning_ended_arg (dp_reasoning_parser D) prompt")
    case None
    with assms show ?thesis
      by (cases "bt_extra_args b"; auto simp: attach_reasoning_ended_def extra_ok_def split: json.splits)
  next
    case (Some e)
    then have "attach_reasoning_ended D prompt b =
        Inr (b\<lparr>bt_extra_args := Some (JObject (om_insert ''reasoning_ended'' (JBool e) kvs))\<rparr>)"
      by (simp add: attach_reasoning_ended_def kvs(1))
    with Some kvs(2,3) show ?thesis by (simp add: extra_member_def [of "b\<lparr>bt_extra_args := _\<rparr>"])
  qed
qed

text \<open>A successful preprocessing, step by step.\<close>

lemma preprocessE:
  assumes "preprocess_request_with_options L E D r tracked preserve lora = Inr out"
  obtains b formatted toks annotations b1 es n b3 where
    "builder_with_lora L D r lora = Inr b" "apply_template L D r = Inr formatted"
    "gather_tokens L r formatted = Inr (toks, annotations)"
    "gather_multi_modal_data_with_image_tokens E D r (map_option rp_text formatted) toks b = Inr (b1, es, n)"
    "attach_reasoning_ended D (map_option rp_text formatted)
       (b1\<lparr>bt_tokens := toks, bt_router := (case Option.bind (bq_nvext r) nx_router of Some p \<Rightarrow> Some p | None \<Rightarrow> bt_router b1)\<rparr>) = Inr b3"
    "settle_built preserve (dp_budget D) b3 = Inr (pp_request out)"
    "pp_prompt_injected out = prompt_injected_reasoning_start (dp_reasoning_parser D) (map_option rp_text formatted)"
    "pp_captured out = capture_prompt_token_ids r tracked toks"
  using assms that unfolding preprocess_request_with_options_def Let_def
  by (fastforce split: sum.splits prod.splits elim!: map_sum_eq_InrE)

lemma settle_built_keeps:
  "settle_built preserve budget b = Inr b' \<Longrightarrow> bt_model b' = bt_model b \<and> bt_routing b' = bt_routing b
     \<and> bt_tokens b' = bt_tokens b \<and> bt_extra_args b' = bt_extra_args b"
  by (auto simp: settle_built_def elim!: map_sum_eq_InrE)

lemma gathered_args:
  assumes "builder_with_lora L D r lora = Inr b"
    and "gather_multi_modal_data_with_image_tokens E D r prompt toks b = Inr (b1, es, n)"
  shows "\<exists>b3. attach_reasoning_ended D prompt (b1\<lparr>bt_tokens := toks, bt_router := rt\<rparr>) = Inr b3
    \<and> (case bt_extra_args b3 of None \<Rightarrow> True | Some (JObject kvs) \<Rightarrow> om_ordered kvs | _ \<Rightarrow> False)
    \<and> extra_member b3 ''nvext'' = map_option JObject (nvext_passthrough_args r)
    \<and> extra_member b3 ''reasoning_ended'' =
        map_option JBool (prompt_injected_reasoning_ended_arg (dp_reasoning_parser D) prompt)
    \<and> bt_model b3 = bq_model r \<and> Option.bind (bt_routing b3) rh_cache_namespace = bq_cache_salt r \<and> bt_tokens b3 = toks"
proof -
  let ?b = "b1\<lparr>bt_tokens := toks, bt_router := rt\<rparr>"
  note b = builder_args [OF assms(1)] and g = gather_args [OF assms(2)]
  have "extra_ok ?b \<or> (\<exists>args. bt_extra_args ?b = Some (JObject args) \<and> om_ordered args)"
    "extra_member ?b ''nvext'' = map_option JObject (nvext_passthrough_args r)"
    "extra_member ?b ''reasoning_ended'' \<in>
      {None, map_option JBool (prompt_injected_reasoning_ended_arg (dp_reasoning_parser D) prompt)}"
    using g b by (auto simp: extra_ok_def extra_member_def)
  from attach_args [OF this(1,3)] this(2) b g show ?thesis by auto
qed

section \<open>The sample request\<close>

lemma sample_prompt:
  "apply_template sample_build_lib sample_deployment sample_build_request = Inr (Some \<lparr>rp_text = ''<think>'', rp_segments = None\<rparr>)"
  "gather_tokens sample_build_lib sample_build_request (Some \<lparr>rp_text = ''<think>'', rp_segments = None\<rparr>) = Inr ([1, 7, 2], [])"
  "gather_multi_modal_data_with_image_tokens E D sample_build_request prompt toks b = Inr (b, [], None)"
  by (simp_all add: apply_template_def apply_template_inner_def gather_tokens_def single_text_tokens_def has_annotation_def
      encode_prompt_with_timing_def encode_with_timing_def gather_multi_modal_data_with_image_tokens_def
      sample_build_lib_def sample_deployment_def sample_build_request_def)

lemma sample_preprocessed:
  "\<exists>out. preprocess_request_with_options sample_build_lib sample_media_env sample_deployment sample_build_request True False None
     = Inr out"
proof -
  let ?b = "sample_built\<lparr>bt_tokens := [1, 7, 2], bt_router := None\<rparr>"
  have "?b = sample_built\<lparr>bt_tokens := [1, 7, 2]\<rparr>" by (simp add: sample_built_def)
  then obtain b3 where b3: "attach_reasoning_ended sample_deployment (Some ''<think>'') (sample_built\<lparr>bt_tokens := [1, 7, 2]\<rparr>) = Inr b3"
    using gathered_args [OF sample_builds sample_prompt(3)] by metis
  have "bt_router sample_built = None" "bq_nvext sample_build_request = None" "dp_budget sample_deployment = None"
    by (simp_all add: sample_built_def sample_build_request_def sample_deployment_def)
  moreover have "\<exists>v. settle_max_tokens False None q = Inr v" for q
    by (simp add: settle_max_tokens_def validate_preprocessed_token_budget_def validate_requested_token_budget_def
        omitted_max_tokens_default_def split: option.split)
  then obtain v where "settle_max_tokens False None (budget_view b3) = Inr v" by blast
  ultimately show ?thesis
    unfolding preprocess_request_with_options_def Let_def
    by (simp add: sample_builds sample_prompt b3 settle_built_def)
qed

section \<open>Properties\<close>

text \<open>
  C26.  The cache identity of a request is the same everywhere.  If preprocessing succeeds, the
  request for the backend is for the model of the client; its routing namespace is the cache salt
  of the client, present exactly if the salt is; and the worker gets that same salt in its
  arguments, whether or not the request has media; tokens the client supplied with a text prompt
  are sent as they are and marked as supplied.
\<close>

theorem cache_identity_reaches_backend:
  assumes "preprocess_request_with_options L E D r tracked preserve lora = Inr out"
  shows "bt_model (pp_request out) = bq_model r
    \<and> Option.bind (bt_routing (pp_request out)) rh_cache_namespace = bq_cache_salt r
    \<and> Option.bind (extra_member (pp_request out) ''nvext'') (json_get ''cache_salt'') = map_option JString (bq_cache_salt r)
    \<and> (\<forall>raw nx toks. bq_input r = Input_Text \<and> bq_text r = Some (Text_Single raw) \<and> bq_nvext r = Some nx
         \<and> nx_token_data nx = Some toks \<longrightarrow>
         bt_tokens (pp_request out) = toks
         \<and> Option.bind (extra_member (pp_request out) ''nvext'') (json_get ''token_in'') = Some (JBool True))"
proof -
  from preprocessE [OF assms] obtain b formatted toks annotations b1 es n b3 where
    b: "builder_with_lora L D r lora = Inr b" and toks: "gather_tokens L r formatted = Inr (toks, annotations)"
    and g: "gather_multi_modal_data_with_image_tokens E D r (map_option rp_text formatted) toks b = Inr (b1, es, n)"
    and a: "attach_reasoning_ended D (map_option rp_text formatted)
       (b1\<lparr>bt_tokens := toks, bt_router := (case Option.bind (bq_nvext r) nx_router of Some p \<Rightarrow> Some p | None \<Rightarrow> bt_router b1)\<rparr>) = Inr b3"
    and s: "settle_built preserve (dp_budget D) b3 = Inr (pp_request out)" by metis
  note keep = settle_built_keeps [OF s]
  have out: "extra_member (pp_request out) ''nvext'' = map_option JObject (nvext_passthrough_args r)"
    "bt_model (pp_request out) = bq_model r" "bt_tokens (pp_request out) = toks"
    "Option.bind (bt_routing (pp_request out)) rh_cache_namespace = bq_cache_salt r"
    using gathered_args [OF b g, where rt = "case Option.bind (bq_nvext r) nx_router of Some p \<Rightarrow> Some p | None \<Rightarrow> bt_router b1"] a keep
    by (auto simp: extra_member_def)
  have salt: "Option.bind (extra_member (pp_request out) ''nvext'') (json_get k) =
      Option.bind (nvext_passthrough_args r) (\<lambda>m. om_get m k)" for k
    by (cases "nvext_passthrough_args r") (simp_all add: out(1))
  have "bt_tokens (pp_request out) = t \<and> Option.bind (extra_member (pp_request out) ''nvext'') (json_get ''token_in'') = Some (JBool True)"
    if "bq_input r = Input_Text" "bq_text r = Some (Text_Single raw)" "bq_nvext r = Some nx" "nx_token_data nx = Some t" for raw nx t
    using that toks out(3)
    by (simp add: salt gather_tokens_def single_text_tokens_def nvext_passthrough_args_def Let_def get_non_empty)
  then show ?thesis using out(2,4) salt cache_salt_forwarded by auto
qed

theorem cache_identity_reaches_backend_witness:
  "\<exists>out. preprocess_request_with_options sample_build_lib sample_media_env sample_deployment sample_build_request True False None
     = Inr out \<and> Option.bind (bt_routing (pp_request out)) rh_cache_namespace = Some ''tenant''
     \<and> Option.bind (extra_member (pp_request out) ''nvext'') (json_get ''cache_salt'') = Some (JString ''tenant'')"
proof -
  obtain out where out: "preprocess_request_with_options sample_build_lib sample_media_env sample_deployment
      sample_build_request True False None = Inr out"
    using sample_preprocessed by blast
  have "bq_cache_salt sample_build_request = Some ''tenant''" by (simp add: sample_build_request_def)
  with cache_identity_reaches_backend [OF out] out show ?thesis by auto
qed

text \<open>
  C27.  The arguments for the backend keep their shape.  After the builder and the media the step
  that adds the reasoning signal cannot fail on the shape of the arguments; they are absent or an
  object with its members in order, and the member \<open>reasoning_ended\<close> is there exactly when the
  parser forwards the signal and the rendered prompt ends inside reasoning.
\<close>

theorem extra_args_well_typed:
  assumes "builder_with_lora L D r lora = Inr b"
    and "gather_multi_modal_data_with_image_tokens E D r prompt toks b = Inr (b1, es, n)"
  shows "\<exists>b3. attach_reasoning_ended D prompt (b1\<lparr>bt_tokens := toks, bt_router := rt\<rparr>) = Inr b3
    \<and> (case bt_extra_args b3 of None \<Rightarrow> True | Some (JObject kvs) \<Rightarrow> om_ordered kvs | _ \<Rightarrow> False)
    \<and> extra_member b3 ''reasoning_ended'' =
        map_option JBool (prompt_injected_reasoning_ended_arg (dp_reasoning_parser D) prompt)"
  using gathered_args [OF assms, where rt = rt] by blast

theorem extra_args_well_typed_witness:
  "\<exists>b3. attach_reasoning_ended sample_deployment (Some ''<think>'')
       (sample_built\<lparr>bt_tokens := [1, 7, 2], bt_router := None\<rparr>) = Inr b3
     \<and> extra_member b3 ''reasoning_ended'' = Some (JBool False)"
proof -
  have "prompt_injected_reasoning_ended_arg (dp_reasoning_parser sample_deployment) (Some ''<think>'') = Some False"
    by code_simp
  with extra_args_well_typed [OF sample_builds sample_prompt(3) [of sample_media_env sample_deployment "Some ''<think>''" "[1, 7, 2]" sample_built],
      where rt = None]
  show ?thesis by auto
qed

end
