(* ===== verification/Per_Choice.thy ===== *)
theory Per_Choice
  imports Chat_Types
begin

text \<open>
  Stages that keep one state per choice.  The sources hold the states in a map from
  \<open>choice.index\<close>, take the entry of each choice of a chunk in turn, and make a fresh one
  on first use.  With \<open>per_choice\<close> this loop is one definition, and a choice never sees the
  state of another: what comes out for an index is the machine of that index run on the choices
  with that index.
\<close>

definition per_choice ::
  "('s \<Rightarrow> choice \<Rightarrow> 'b \<times> 's) \<Rightarrow> 's \<Rightarrow> (u32, 's) omap \<Rightarrow> choice \<Rightarrow> 'b \<times> (u32, 's) omap" where
  "per_choice f fresh states c =
     (let (b, s) = f (unwrap_or fresh (om_get states (ch_index c))) c in
      (b, om_insert (ch_index c) s states))"

definition choice_state :: "'s \<Rightarrow> (u32, 's) omap \<Rightarrow> u32 \<Rightarrow> 's" where
  "choice_state fresh states i = unwrap_or fresh (om_get states i)"

definition with_index :: "u32 \<Rightarrow> choice list \<Rightarrow> choice list" where
  "with_index i cs = filter (\<lambda>c. ch_index c = i) cs"

text \<open>The results that belong to the choices with a given index.\<close>

definition results_at :: "u32 \<Rightarrow> choice list \<Rightarrow> 'b list \<Rightarrow> 'b list" where
  "results_at i cs bs = map snd (filter (\<lambda>p. ch_index (fst p) = i) (zip cs bs))"

lemma choice_state_insert:
  "choice_state fresh (om_insert k s states) i = (if i = k then s else choice_state fresh states i)"
  by (simp add: choice_state_def om.get_put)

lemma per_choice_isolated:
  "results_at i cs (fst (map_accum (per_choice f fresh) states cs)) =
     fst (map_accum f (choice_state fresh states i) (with_index i cs))
   \<and> choice_state fresh (snd (map_accum (per_choice f fresh) states cs)) i =
       snd (map_accum f (choice_state fresh states i) (with_index i cs))"
proof (induction cs arbitrary: states)
  case Nil
  then show ?case by (simp add: results_at_def with_index_def)
next
  case (Cons c cs)
  let ?k = "ch_index c"
  let ?r = "f (choice_state fresh states ?k) c"
  let ?st = "om_insert ?k (snd ?r) states"
  have step: "per_choice f fresh states c = (fst ?r, ?st)"
    by (simp add: per_choice_def choice_state_def split_beta Let_def)
  note IH = Cons.IH [of ?st]
  show ?case
  proof (cases "?k = i")
    case True
    then show ?thesis
      using IH by (simp add: step results_at_def with_index_def choice_state_insert split_beta Let_def)
  next
    case False
    then show ?thesis
      using IH by (simp add: step results_at_def with_index_def choice_state_insert split_beta Let_def)
  qed
qed

lemma per_choice_ordered:
  "om_ordered states \<Longrightarrow> om_ordered (snd (map_accum (per_choice f fresh) states cs))"
  by (induction cs arbitrary: states) (simp_all add: per_choice_def split_beta Let_def om.ordered_put)

text \<open>A state that is in the map was there before or is one of the choices just handled.\<close>

lemma per_choice_keys:
  "set (om_keys (snd (map_accum (per_choice f fresh) states cs))) = set (om_keys states) \<union> ch_index ` set cs"
  by (induction cs arbitrary: states) (auto simp: per_choice_def split_beta Let_def om.keys_put)

text \<open>When the machine keeps the index of a choice, the results are the choices with that index.\<close>

lemma results_at_keeps_index:
  assumes "length cs' = length cs" "\<And>n. n < length cs \<Longrightarrow> ch_index (cs' ! n) = ch_index (cs ! n)"
  shows "results_at i cs cs' = with_index i cs'"
  using assms
proof (induction cs arbitrary: cs')
  case Nil
  then show ?case by (simp add: results_at_def with_index_def)
next
  case (Cons c cs)
  then obtain d ds where cs': "cs' = d # ds" "length ds = length cs" by (cases cs') auto
  have "ch_index d = ch_index c" using Cons.prems(2) [of 0] cs' by simp
  moreover have "results_at i cs ds = with_index i ds"
    by (rule Cons.IH) (use cs'(2) Cons.prems(2) [of "Suc n" for n] cs'(1) in auto)
  ultimately show ?case by (simp add: cs'(1) results_at_def with_index_def)
qed

section \<open>Frames\<close>

text \<open>A chunk whose choices are handled one by one; items without data pass.\<close>

definition map_choices ::
  "('s \<Rightarrow> choice \<Rightarrow> choice \<times> 's) \<Rightarrow> 's \<Rightarrow> (u32, 's) omap \<Rightarrow> frame \<Rightarrow> frame \<times> (u32, 's) omap" where
  "map_choices f fresh states fr =
     (case a_data fr of
        None \<Rightarrow> (fr, states)
      | Some k \<Rightarrow>
          let (cs, states') = map_accum (per_choice f fresh) states (k_choices k) in
          (fr\<lparr>a_data := Some (k\<lparr>k_choices := cs\<rparr>)\<rparr>, states'))"

definition stream_choices :: "u32 \<Rightarrow> frame list \<Rightarrow> choice list" where
  "stream_choices i frs = with_index i (concat (map frame_choices frs))"

lemma with_index_append: "with_index i (xs @ ys) = with_index i xs @ with_index i ys"
  by (simp add: with_index_def)

lemma stream_choices_simps [simp]:
  "stream_choices i [] = []"
  "stream_choices i (fr # frs) = with_index i (frame_choices fr) @ stream_choices i frs"
  by (simp_all add: stream_choices_def with_index_def)

lemma stream_choices_append [simp]:
  "stream_choices i (frs @ frs') = stream_choices i frs @ stream_choices i frs'"
  by (induction frs) simp_all

lemma choice_text_stream: "choice_text ch i frs = concat (map (\<lambda>c. ch (ch_delta c)) (stream_choices i frs))"
proof -
  have "concat (map (\<lambda>c. if ch_index c = i then ch (ch_delta c) else []) cs) =
      concat (map (\<lambda>c. ch (ch_delta c)) (with_index i cs))" for cs
    by (induction cs) (simp_all add: with_index_def)
  then show ?thesis by (simp add: choice_text_def stream_choices_def)
qed

lemma per_choice_keeps_index:
  assumes "\<And>s c. ch_index (fst (f s c)) = ch_index c"
  shows "n < length cs \<Longrightarrow>
    ch_index (fst (map_accum (per_choice f fresh) states cs) ! n) = ch_index (cs ! n)"
proof (induction cs arbitrary: states n)
  case Nil
  then show ?case by simp
next
  case (Cons c cs)
  then show ?case
    using assms by (cases n) (simp_all add: per_choice_def split_beta Let_def)
qed

lemma map_choices_results:
  "frame_choices (fst (map_choices f fresh states fr)) =
     fst (map_accum (per_choice f fresh) states (frame_choices fr))"
  "snd (map_choices f fresh states fr) = snd (map_accum (per_choice f fresh) states (frame_choices fr))"
  by (simp_all add: map_choices_def frame_choices_def split_beta Let_def split: option.split)

lemma map_choices_isolated:
  assumes "\<And>s c. ch_index (fst (f s c)) = ch_index c"
  shows "with_index i (frame_choices (fst (map_choices f fresh states fr))) =
      fst (map_accum f (choice_state fresh states i) (with_index i (frame_choices fr)))"
    and "choice_state fresh (snd (map_choices f fresh states fr)) i =
      snd (map_accum f (choice_state fresh states i) (with_index i (frame_choices fr)))"
proof -
  let ?cs = "frame_choices fr"
  have "results_at i ?cs (fst (map_accum (per_choice f fresh) states ?cs)) =
      with_index i (fst (map_accum (per_choice f fresh) states ?cs))"
    by (rule results_at_keeps_index) (simp_all add: per_choice_keeps_index [OF assms])
  with per_choice_isolated [of i ?cs f fresh states]
  show "with_index i (frame_choices (fst (map_choices f fresh states fr))) =
      fst (map_accum f (choice_state fresh states i) (with_index i ?cs))"
    and "choice_state fresh (snd (map_choices f fresh states fr)) i =
      snd (map_accum f (choice_state fresh states i) (with_index i ?cs))"
    by (simp_all add: map_choices_results)
qed

text \<open>
  The choices with one index, over a whole stream, are handled by the machine of that index
  alone.
\<close>

lemma stream_isolated:
  assumes "\<And>s c. ch_index (fst (f s c)) = ch_index c"
  shows "stream_choices i (fst (map_accum (map_choices f fresh) states frs)) =
      fst (map_accum f (choice_state fresh states i) (stream_choices i frs))
    \<and> choice_state fresh (snd (map_accum (map_choices f fresh) states frs)) i =
      snd (map_accum f (choice_state fresh states i) (stream_choices i frs))"
proof (induction frs arbitrary: states)
  case Nil
  then show ?case by simp
next
  case (Cons fr frs)
  show ?case
    using Cons.IH [of "snd (map_choices f fresh states fr)"] map_choices_isolated [where f = f and i = i and fresh = fresh and states = states and fr = fr, OF assms]
    by (simp add: split_beta Let_def map_accum_append)
qed

lemma stream_keys:
  "set (om_keys (snd (map_accum (map_choices f fresh) states frs))) =
     set (om_keys states) \<union> ch_index ` set (concat (map frame_choices frs))"
  by (induction frs arbitrary: states) (auto simp: split_beta Let_def map_choices_results per_choice_keys)

lemma stream_ordered:
  "om_ordered states \<Longrightarrow> om_ordered (snd (map_accum (map_choices f fresh) states frs))"
  by (induction frs arbitrary: states) (simp_all add: split_beta Let_def map_choices_results per_choice_ordered)

lemma stream_state_present:
  assumes "stream_choices i frs \<noteq> []"
  shows "om_get (snd (map_accum (map_choices f fresh) states frs)) i =
     Some (choice_state fresh (snd (map_accum (map_choices f fresh) states frs)) i)"
proof -
  from assms obtain c where "c \<in> set (concat (map frame_choices frs))" "ch_index c = i"
    by (auto simp: stream_choices_def with_index_def filter_empty_conv)
  then have "i \<in> set (om_keys (snd (map_accum (map_choices f fresh) states frs)))"
    by (auto simp: stream_keys)
  then obtain s where "om_get (snd (map_accum (map_choices f fresh) states frs)) i = Some s"
    by (auto simp: om_keys_def om_get_def dest: weak_map_of_SomeI)
  then show ?thesis by (simp add: choice_state_def)
qed

section \<open>Flushing\<close>

text \<open>What the states still hold, in the order of the indices.\<close>

definition flush_states :: "('s \<Rightarrow> 'b option) \<Rightarrow> (u32, 's) omap \<Rightarrow> (u32 \<times> 'b) list" where
  "flush_states g states = List.map_filter (\<lambda>(i, s). map_option (Pair i) (g s)) states"

lemma flush_states_simps [simp]:
  "flush_states g [] = []"
  "flush_states g ((i, s) # states) =
     (case g s of Some b \<Rightarrow> [(i, b)] | None \<Rightarrow> []) @ flush_states g states"
  by (simp_all add: flush_states_def map_filter_simps split: option.split)

lemma flush_states_keys: "(i, b) \<in> set (flush_states g states) \<Longrightarrow> i \<in> fst ` set states"
  by (induction states) (auto split: option.splits)

lemma flush_at_index:
  assumes "om_ordered states"
  shows "filter (\<lambda>p. fst p = i) (flush_states g states) =
     (case om_get states i of
        Some s \<Rightarrow> (case g s of Some b \<Rightarrow> [(i, b)] | None \<Rightarrow> [])
      | None \<Rightarrow> [])"
  using assms
proof (induction states)
  case Nil
  then show ?case by (simp add: om_get_def)
next
  case (Cons e states)
  obtain j s where e: "e = (j, s)" by force
  have ord: "om_ordered states" and lt: "\<And>k. k \<in> fst ` set states \<Longrightarrow> j < k"
    using Cons.prems by (auto simp: om_ordered_def e)
  have "j \<notin> fst ` set (flush_states g states)"
    using lt [of j] flush_states_keys [of j _ g states] by auto
  then have none: "filter (\<lambda>p. fst p = j) (flush_states g states) = []"
    by (auto simp: filter_empty_conv)
  show ?case
    using Cons.IH [OF ord] none by (cases "j = i") (auto simp: e om_get_def split: option.split)
qed

text \<open>
  The choices of the chunk that carries what was flushed: copies of a template, with the index
  and the texts of a state.
\<close>

definition recovery_choice :: "choice \<Rightarrow> u32 \<times> string option \<times> string option \<Rightarrow> choice" where
  "recovery_choice template p =
     (case p of (i, content, reasoning) \<Rightarrow>
        template\<lparr>ch_index := i,
          ch_delta := (ch_delta template)\<lparr>d_role := None, d_content := map_option Text content, d_reasoning := reasoning,
            d_tool_calls := None, d_function_call := None, d_refusal := None\<rparr>,
          ch_finish := None, ch_logprobs := None\<rparr>)"

lemma recovery_choice_simps [simp]:
  "ch_index (recovery_choice t (i, x, y)) = i"
  "content_text (ch_delta (recovery_choice t (i, x, y))) = unwrap_or [] x"
  "reasoning_text (ch_delta (recovery_choice t (i, x, y))) = unwrap_or [] y"
  by (auto simp: recovery_choice_def content_text_def reasoning_text_def split: option.split)

lemma recovery_at_index:
  "with_index i (map (recovery_choice t) ps) = map (recovery_choice t) (filter (\<lambda>p. fst p = i) ps)"
  by (induction ps) (auto simp: with_index_def)

text \<open>The clean-up of a synthetic chunk leaves its choices alone.\<close>

definition keeps_choices :: "(frame \<Rightarrow> frame) \<Rightarrow> bool" where
  "keeps_choices scrub = (\<forall>fr. frame_choices (scrub fr) = frame_choices fr)"

end
