(* ===== verification/Utf8.thy ===== *)
theory Utf8
  imports Text_Search
begin

text \<open>
  Texts that end on a character boundary.  A Rust \<open>String\<close> is valid UTF-8, so the pieces a
  stream delivers never split a character; what the stages need of this is that the lead byte of
  a character fixes its length.
\<close>

definition char_len :: "char \<Rightarrow> nat" where
  "char_len c = (let n = of_char c :: nat in
     if n < 0x80 then 1 else if n < 0xE0 then 2 else if n < 0xF0 then 3 else 4)"

function whole_chars :: "string \<Rightarrow> bool" where
  "whole_chars s =
     (if s = [] then True
      else char_len (hd s) \<le> length s \<and> whole_chars (drop (char_len (hd s)) s))"
  by pat_completeness auto
termination
  by (relation "measure length") (auto simp: char_len_def Let_def)

declare whole_chars.simps [simp del]

lemma char_len_pos: "0 < char_len c"
  by (simp add: char_len_def Let_def)

lemma whole_chars_Nil [simp]: "whole_chars []"
  by (simp add: whole_chars.simps)

lemma whole_chars_append: "whole_chars s \<Longrightarrow> whole_chars t \<Longrightarrow> whole_chars (s @ t)"
proof (induction s rule: whole_chars.induct)
  case (1 s)
  show ?case
  proof (cases "s = []")
    case True
    with "1.prems" show ?thesis by simp
  next
    case False
    then have "char_len (hd s) \<le> length s" "whole_chars (drop (char_len (hd s)) s @ t)"
      using 1 by (simp_all add: whole_chars.simps [of s])
    then show ?thesis
      using False by (subst whole_chars.simps) simp
  qed
qed

lemma whole_chars_concat: "list_all whole_chars ts \<Longrightarrow> whole_chars (concat ts)"
  by (induction ts) (simp_all add: whole_chars_append)

text \<open>White space at the front of a text is its first character, whole.\<close>

lemma ascii_ws_char_len: "ascii_ws a \<Longrightarrow> char_len a = 1"
  by (auto simp: ascii_ws_def char_len_def)

lemma ws2_char_len: "ws2 a b \<Longrightarrow> char_len a = 2"
  by (simp add: ws2_def char_len_def)

lemma ws3_char_len: "ws3 a b c \<Longrightarrow> char_len a = 3"
proof -
  assume "ws3 a b c"
  then have "a = CHR 0xE1 \<or> a = CHR 0xE2 \<or> a = CHR 0xE3" unfolding ws3_def by blast
  then show "char_len a = 3" by (elim disjE) (simp_all add: char_len_def)
qed

lemma ws_len_cases: "ws_len s = 0 \<or> (s \<noteq> [] \<and> ws_len s = char_len (hd s))"
proof (cases s)
  case Nil
  then show ?thesis by (simp add: ws_len_def)
next
  case (Cons a r)
  then show ?thesis
    using ascii_ws_char_len [of a] ws2_char_len [of a "s ! 1"] ws3_char_len [of a "s ! 1" "s ! 2"]
    by (auto simp: ws_len_def)
qed

lemma ws_len_append:
  assumes "s \<noteq> []" "char_len (hd s) \<le> length s"
  shows "ws_len (s @ t) = ws_len s"
proof -
  obtain a r where s: "s = a # r" using assms(1) by (cases s) auto
  have long: "\<not> ws2 a b" if "length s < 2" for b
    using that assms(2) ws2_char_len [of a b] s by auto
  have long': "\<not> ws3 a b c" if "length s < 3" for b c
    using that assms(2) ws3_char_len [of a b c] s by auto
  have nth: "(s @ t) ! k = s ! k" if "k < length s" for k
    using that by (simp add: nth_append)
  consider "length s < 2" | "length s = 2" | "3 \<le> length s" by linarith
  then show ?thesis
  proof cases
    case 1
    then show ?thesis using long long' nth [of 0] s by (simp add: ws_len_def)
  next
    case 2
    then show ?thesis using long' nth [of 0] nth [of 1] s by (simp add: ws_len_def)
  next
    case 3
    then have "(s @ t) ! 0 = s ! 0" "(s @ t) ! 1 = s ! 1" "(s @ t) ! 2 = s ! 2"
      by (auto intro!: nth)
    moreover have "s @ t \<noteq> []" "2 \<le> length (s @ t)" "3 \<le> length (s @ t)" "s \<noteq> []" "2 \<le> length s"
      using 3 assms(1) by simp_all
    ultimately show ?thesis using 3 unfolding ws_len_def by (simp only: simp_thms)
  qed
qed

lemma trim_start_unfold: "trim_start s = (if s = [] \<or> ws_len s = 0 then s else trim_start (drop (ws_len s) s))"
  unfolding trim_start_def by (subst strip_with.simps) simp

lemma trim_start_append:
  assumes "whole_chars s" "trim_start s \<noteq> []"
  shows "trim_start (s @ t) = trim_start s @ t"
  using assms
proof (induction s rule: whole_chars.induct)
  case (1 s)
  have ne: "s \<noteq> []" using "1.prems"(2) by auto
  then have w: "char_len (hd s) \<le> length s" "whole_chars (drop (char_len (hd s)) s)"
    using "1.prems"(1) by (simp_all add: whole_chars.simps [of s])
  have same: "ws_len (s @ t) = ws_len s" by (rule ws_len_append [OF ne w(1)])
  show ?case
  proof (cases "ws_len s = 0")
    case True
    then show ?thesis using same by (simp add: trim_start_unfold [of s] trim_start_unfold [of "s @ t"])
  next
    case False
    then have len: "ws_len s = char_len (hd s)" using ws_len_cases [of s] by simp
    have "trim_start (s @ t) = trim_start (drop (char_len (hd s)) s @ t)"
      using False same ne w(1) len by (simp add: trim_start_unfold [of "s @ t"])
    also have "\<dots> = trim_start (drop (char_len (hd s)) s) @ t"
      using "1.IH" [OF ne w(2)] "1.prems"(2) False ne len by (simp add: trim_start_unfold [of s])
    finally show ?thesis using False ne len by (simp add: trim_start_unfold [of s])
  qed
qed

lemma trim_start_append_blank:
  assumes "whole_chars s" "trim_start s = []"
  shows "trim_start (s @ t) = trim_start t"
  using assms
proof (induction s rule: whole_chars.induct)
  case (1 s)
  show ?case
  proof (cases "s = []")
    case True
    then show ?thesis by simp
  next
    case ne: False
    then have w: "char_len (hd s) \<le> length s" "whole_chars (drop (char_len (hd s)) s)"
      using "1.prems"(1) by (simp_all add: whole_chars.simps [of s])
    have same: "ws_len (s @ t) = ws_len s" by (rule ws_len_append [OF ne w(1)])
    have pos: "ws_len s \<noteq> 0"
    proof
      assume "ws_len s = 0"
      then have "trim_start s = s" by (subst trim_start_unfold) simp
      with "1.prems"(2) ne show False by simp
    qed
    then have len: "ws_len s = char_len (hd s)" using ws_len_cases [of s] by simp
    have "trim_start (s @ t) = trim_start (drop (char_len (hd s)) s @ t)"
      using pos same ne w(1) len by (simp add: trim_start_unfold [of "s @ t"])
    also have "\<dots> = trim_start t"
      using "1.IH" [OF ne w(2)] "1.prems"(2) pos ne len by (simp add: trim_start_unfold [of s])
    finally show ?thesis .
  qed
qed

end
