(* ===== verification/Reasoning_Stream.thy ===== *)
theory Reasoning_Stream
  imports Per_Choice Utf8
begin

text \<open>
  \<open>parse_reasoning_content_from_stream_inner\<close> (\<open>fix/dynamo/preprocessor.rs\<close>): the
  stage that splits the text of each choice into reasoning and content with a streaming parser,
  and, for a request that asked for content at all costs, holds the reasoning back until it is
  known whether an answer follows.

  The parsers are code outside the repository: a parser has a state, takes a piece of text to
  normal text and reasoning text, and may hold some of it until it is told that the stream has
  ended.
\<close>

section \<open>Parsers\<close>

record parser_result =
  res_normal :: string
  res_reasoning :: string

record 'p parser_kit =
  pk_new :: 'p
  pk_set_in_reasoning :: "'p \<Rightarrow> 'p"
  pk_parse :: "string \<Rightarrow> 'p \<Rightarrow> parser_result \<times> 'p"
  pk_finish :: "'p \<Rightarrow> parser_result \<times> 'p"
  pk_some_normal :: "parser_result \<Rightarrow> string option"
  pk_some_reasoning :: "parser_result \<Rightarrow> string option"

definition empty_result :: parser_result where
  "empty_result = \<lparr>res_normal = [], res_reasoning = []\<rparr>"

section \<open>One choice\<close>

record 'p choice_reasoning =
  cr_parser :: 'p
  cr_bypass :: "bool option"
  cr_pending_reasoning :: string
  cr_pending_content :: string
  cr_left :: bool
  cr_drained :: bool
  cr_finished :: bool

record reasoning_config =
  rf_prompt_injected :: bool
  rf_bypass_guided :: bool
  rf_defer :: bool

definition fresh_choice :: "'p parser_kit \<Rightarrow> reasoning_config \<Rightarrow> 'p choice_reasoning" where
  "fresh_choice K cfg =
     \<lparr>cr_parser = (if rf_prompt_injected cfg then pk_set_in_reasoning K (pk_new K) else pk_new K),
      cr_bypass = then_some (\<not> rf_bypass_guided cfg) False,
      cr_pending_reasoning = [], cr_pending_content = [], cr_left = False, cr_drained = False,
      cr_finished = False\<rparr>"

definition drain_deferred_reasoning ::
  "'p parser_kit \<Rightarrow> 'p choice_reasoning \<Rightarrow> (string option \<times> string option) \<times> 'p choice_reasoning" where
  "drain_deferred_reasoning K s =
     (if cr_drained s then ((None, None), s)
      else
        let (result, parser) = (if cr_finished s then (empty_result, cr_parser s) else pk_finish K (cr_parser s));
            s' = s\<lparr>cr_drained := True, cr_pending_reasoning := [], cr_pending_content := [],
                   cr_finished := True, cr_parser := parser\<rparr> in
        if cr_left s then
          ((nonempty (cr_pending_content s @ res_normal result), nonempty (res_reasoning result)), s')
        else
          let txt = cr_pending_reasoning s @ res_reasoning result @ res_normal result in
          ((nonempty (if txt = [] then cr_pending_content s else txt), None), s'))"

text \<open>The guided-JSON decision, from the choice's own first text that is not white space.\<close>

definition bypass_decision ::
  "reasoning_config \<Rightarrow> 'p choice_reasoning \<Rightarrow> choice \<Rightarrow> bool option \<times> 'p choice_reasoning" where
  "bypass_decision cfg s c =
     (if rf_bypass_guided cfg then
        (case cr_bypass s of
           Some decision \<Rightarrow> (Some decision, s)
         | None \<Rightarrow>
             let decision =
               (case d_content (ch_delta c) of
                  Some (Text t) \<Rightarrow>
                    let t' = trim_start t in
                    if t' = [] then None else Some (hd t' \<in> {CHR ''['', CHR ''{''})
                | _ \<Rightarrow> None) in
             (decision, if decision = None then s else s\<lparr>cr_bypass := decision\<rparr>))
      else (Some False, s))"

definition set_texts :: "content option \<Rightarrow> string option \<Rightarrow> choice \<Rightarrow> choice" where
  "set_texts x y c = c\<lparr>ch_delta := (ch_delta c)\<lparr>d_content := x, d_reasoning := y\<rparr>\<rparr>"

text \<open>Parsing the text of a delta.\<close>

definition parse_delta ::
  "'p parser_kit \<Rightarrow> reasoning_config \<Rightarrow> string \<Rightarrow> 'p choice_reasoning \<Rightarrow> choice \<Rightarrow> choice \<times> 'p choice_reasoning" where
  "parse_delta K cfg t s c =
     (let (result, parser) = pk_parse K t (cr_parser s);
          s1 = s\<lparr>cr_parser := parser, cr_drained := False\<rparr> in
      if rf_defer cfg \<and> \<not> cr_left s then
        let s2 = s1\<lparr>cr_pending_reasoning := cr_pending_reasoning s @ res_reasoning result\<rparr> in
        if blank (res_normal result) then
          (set_texts None None c, s2\<lparr>cr_pending_content := cr_pending_content s @ res_normal result\<rparr>)
        else
          (set_texts (Some (Text (cr_pending_content s @ res_normal result)))
             (nonempty (cr_pending_reasoning s2)) c,
           s2\<lparr>cr_left := True, cr_pending_reasoning := [], cr_pending_content := []\<rparr>)
      else (set_texts (map_option Text (pk_some_normal K result)) (pk_some_reasoning K result) c, s1))"

text \<open>Adding drained text to the delta of a choice that finishes.\<close>

definition merge_drained :: "string option \<times> string option \<Rightarrow> choice \<Rightarrow> choice" where
  "merge_drained p c =
     (let d = ch_delta c;
          content = (case fst p of
             None \<Rightarrow> d_content d
           | Some t \<Rightarrow>
               (case d_content d of
                  Some (Text old) \<Rightarrow> Some (Text (old @ t))
                | Some other \<Rightarrow> Some other
                | None \<Rightarrow> Some (Text t)));
          reasoning = (case snd p of
             None \<Rightarrow> d_reasoning d
           | Some r \<Rightarrow> Some (unwrap_or [] (d_reasoning d) @ r)) in
      set_texts content reasoning c)"

definition carries_parts :: "choice \<Rightarrow> bool" where
  "carries_parts c = (case d_content (ch_delta c) of Some (Parts _) \<Rightarrow> True | _ \<Rightarrow> False)"

definition reason_one ::
  "'p parser_kit \<Rightarrow> reasoning_config \<Rightarrow> 'p choice_reasoning \<Rightarrow> choice \<Rightarrow> choice \<times> 'p choice_reasoning" where
  "reason_one K cfg s c =
     (let (decision, s1) = bypass_decision cfg s c;
          (c2, s2) = (case (decision, d_content (ch_delta c)) of
             (Some False, Some (Text t)) \<Rightarrow> parse_delta K cfg t s1 c
           | _ \<Rightarrow> (c, s1)) in
      if rf_defer cfg \<and> is_some (ch_finish c2) \<and> \<not> carries_parts c2 \<and> decision = Some False
      then (let (p, s3) = drain_deferred_reasoning K s2 in (merge_drained p c2, s3))
      else (c2, s2))"

section \<open>The stream\<close>

record 'p reasoning_state =
  rs_choices :: "(u32, 'p choice_reasoning) omap"
  rs_last :: "frame option"
  rs_error :: bool

definition reasoning_init :: "'p reasoning_state" where
  "reasoning_init = \<lparr>rs_choices = [], rs_last = None, rs_error = False\<rparr>"

definition reasoning_step ::
  "'p parser_kit \<Rightarrow> reasoning_config \<Rightarrow> (frame \<Rightarrow> bool) \<Rightarrow> ('p reasoning_state, frame, frame) stage_step" where
  "reasoning_step K cfg is_error st fr =
     (let (fr', states) = map_choices (reason_one K cfg) (fresh_choice K cfg) (rs_choices st) fr in
      ([fr'],
       \<lparr>rs_choices = states,
        rs_last = if rf_defer cfg \<and> frame_choices fr' \<noteq> [] then Some fr' else rs_last st,
        rs_error = rs_error st \<or> is_error fr\<rparr>))"

text \<open>What a choice contributes at the end of the stream.\<close>

definition flush_choice ::
  "'p parser_kit \<Rightarrow> 'p choice_reasoning \<Rightarrow> (string option \<times> string option) option" where
  "flush_choice K s =
     (if cr_bypass s \<noteq> Some False then None
      else let (content, reasoning) = fst (drain_deferred_reasoning K s) in
        if is_some content \<or> is_some reasoning then Some (content, reasoning) else None)"

definition reasoning_flush ::
  "'p parser_kit \<Rightarrow> reasoning_config \<Rightarrow> (frame \<Rightarrow> frame) \<Rightarrow> 'p reasoning_state \<Rightarrow> frame list" where
  "reasoning_flush K cfg scrub st =
     (if \<not> rf_defer cfg \<or> rs_error st then []
      else
        let flushed = flush_states (flush_choice K) (rs_choices st) in
        if flushed = [] then []
        else case rs_last st of
          None \<Rightarrow> []
        | Some r \<Rightarrow>
            let r' = scrub r in
            (case a_data r' of
               None \<Rightarrow> []
             | Some k \<Rightarrow>
                 (case k_choices k of
                    [] \<Rightarrow> []
                  | template # _ \<Rightarrow>
                      [r'\<lparr>a_data := Some (k\<lparr>k_choices := map (recovery_choice template) flushed\<rparr>)\<rparr>])))"

definition parse_reasoning_content_from_stream ::
  "'p parser_kit \<Rightarrow> reasoning_config \<Rightarrow> (frame \<Rightarrow> bool) \<Rightarrow> (frame \<Rightarrow> frame) \<Rightarrow> frame list \<Rightarrow> frame list" where
  "parse_reasoning_content_from_stream K cfg is_error scrub frs =
     run_stage (reasoning_step K cfg is_error) (reasoning_flush K cfg scrub) reasoning_init frs"

section \<open>What the parsers said\<close>

text \<open>The results of a parser over the pieces of a choice's text, and its state afterwards.\<close>

primrec parse_all :: "'p parser_kit \<Rightarrow> 'p \<Rightarrow> string list \<Rightarrow> parser_result list \<times> 'p" where
  "parse_all K p [] = ([], p)"
| "parse_all K p (t # ts) =
     (let (r, p') = pk_parse K t p; (rs, p'') = parse_all K p' ts in (r # rs, p''))"

definition normals :: "parser_result list \<Rightarrow> string" where
  "normals rs = concat (map res_normal rs)"

definition reasonings :: "parser_result list \<Rightarrow> string" where
  "reasonings rs = concat (map res_reasoning rs)"

definition answered :: "parser_result list \<Rightarrow> bool" where
  "answered rs = list_ex (\<lambda>r. \<not> blank (res_normal r)) rs"

text \<open>
  The reference: given everything the parser said and what it says at the end, the content and
  the reasoning of the turn.  With an answer the split stands; without one everything is content.
\<close>

definition settle :: "parser_result list \<Rightarrow> parser_result \<Rightarrow> string \<times> string" where
  "settle rs fin =
     (if answered rs then (normals rs @ res_normal fin, reasonings rs @ res_reasoning fin)
      else
        let txt = reasonings rs @ res_reasoning fin @ res_normal fin in
        (if txt = [] then normals rs else txt, []))"

definition texts_of :: "choice list \<Rightarrow> string list" where
  "texts_of cs = List.map_filter (\<lambda>c. case d_content (ch_delta c) of Some (Text t) \<Rightarrow> Some t | _ \<Rightarrow> None) cs"

text \<open>A delta that is text or empty, and carries no reasoning of its own.\<close>

definition plain_delta :: "choice \<Rightarrow> bool" where
  "plain_delta c = (\<not> carries_parts c \<and> d_reasoning (ch_delta c) = None)"

definition open_delta :: "choice \<Rightarrow> bool" where
  "open_delta c = (plain_delta c \<and> ch_finish c = None)"

text \<open>The deferring configuration, without the guided-JSON bypass.\<close>

definition defers :: "reasoning_config \<Rightarrow> bool" where
  "defers cfg = (rf_defer cfg \<and> \<not> rf_bypass_guided cfg)"

definition reads_results :: "'p parser_kit \<Rightarrow> bool" where
  "reads_results K =
     (\<forall>r. unwrap_or [] (pk_some_normal K r) = res_normal r \<and> unwrap_or [] (pk_some_reasoning K r) = res_reasoning r)"

text \<open>
  The state of a choice after its parser said \<open>rs\<close>, when \<open>x\<close> has been yielded as
  content and \<open>y\<close> as reasoning.
\<close>

definition choice_inv ::
  "'p parser_kit \<Rightarrow> reasoning_config \<Rightarrow> string list \<Rightarrow> string \<Rightarrow> string \<Rightarrow> 'p choice_reasoning \<Rightarrow> bool" where
  "choice_inv K cfg ts x y s =
     (let (rs, p) = parse_all K (cr_parser (fresh_choice K cfg)) ts in
      cr_parser s = p \<and> cr_bypass s = Some False \<and> \<not> cr_drained s \<and> \<not> cr_finished s \<and> cr_left s = answered rs \<and>
      (if answered rs then x = normals rs \<and> y = reasonings rs \<and> cr_pending_content s = [] \<and> cr_pending_reasoning s = []
       else x = [] \<and> y = [] \<and> cr_pending_content s = normals rs \<and> cr_pending_reasoning s = reasonings rs))"

lemma parse_all_snoc:
  "parse_all K p (ts @ [t]) =
     (fst (parse_all K p ts) @ [fst (pk_parse K t (snd (parse_all K p ts)))],
      snd (pk_parse K t (snd (parse_all K p ts))))"
  by (induction ts arbitrary: p) (simp_all add: split_beta Let_def)

lemma result_sums [simp]:
  "normals (rs @ [r]) = normals rs @ res_normal r" "reasonings (rs @ [r]) = reasonings rs @ res_reasoning r"
  "answered (rs @ [r]) \<longleftrightarrow> answered rs \<or> \<not> blank (res_normal r)"
  by (simp_all add: normals_def reasonings_def answered_def)

lemma choice_inv_fresh:
  assumes "defers cfg"
  shows "choice_inv K cfg [] [] [] (fresh_choice K cfg)"
  using assms by (simp add: choice_inv_def fresh_choice_def answered_def normals_def reasonings_def defers_def)

lemma content_text_texts:
  "content_text (ch_delta (set_texts (map_option Text x) y c)) = unwrap_or [] x"
  "content_text (ch_delta (set_texts (Some (Text t)) y c)) = t"
  "content_text (ch_delta (set_texts None y c)) = []"
  "reasoning_text (ch_delta (set_texts z y c)) = unwrap_or [] y"
  by (auto simp: set_texts_def content_text_def reasoning_text_def split: option.split)

lemma parse_delta_inv:
  assumes "defers cfg" "reads_results K" "choice_inv K cfg ts x y s"
  shows "choice_inv K cfg (ts @ [t])
     (x @ content_text (ch_delta (fst (parse_delta K cfg t s c))))
     (y @ reasoning_text (ch_delta (fst (parse_delta K cfg t s c)))) (snd (parse_delta K cfg t s c))"
proof -
  let ?p = "cr_parser (fresh_choice K cfg)"
  obtain rs p where rs: "parse_all K ?p ts = (rs, p)" by force
  obtain r p' where r: "pk_parse K t p = (r, p')" by force
  have p: "cr_parser s = p" using assms(3) rs by (simp add: choice_inv_def)
  have reads: "unwrap_or [] (pk_some_normal K r) = res_normal r" "unwrap_or [] (pk_some_reasoning K r) = res_reasoning r"
    using assms(2) by (simp_all add: reads_results_def)
  have snoc: "parse_all K ?p (ts @ [t]) = (rs @ [r], p')"
    by (simp add: parse_all_snoc rs r)
  show ?thesis
    using assms(1,3) rs r p reads
    unfolding choice_inv_def snoc parse_delta_def
    by (auto simp: defers_def Let_def content_text_texts)
qed

lemma parse_delta_finish: "ch_finish (fst (parse_delta K cfg t s c)) = ch_finish c"
  "\<not> carries_parts (fst (parse_delta K cfg t s c))"
  by (auto simp: parse_delta_def set_texts_def carries_parts_def Let_def split_beta split: option.split)

text \<open>A delta that does not finish its choice.\<close>

lemma reason_one_open:
  assumes "defers cfg" "open_delta c"
  shows "reason_one K cfg s c =
     (case d_content (ch_delta c) of Some (Text t) \<Rightarrow> parse_delta K cfg t s c | _ \<Rightarrow> (c, s))"
  using assms parse_delta_finish [of K cfg _ s c]
  by (auto simp: reason_one_def bypass_decision_def defers_def open_delta_def plain_delta_def Let_def split_beta
      carries_parts_def split: option.splits content.splits)

lemma texts_of_snoc:
  "texts_of (cs @ [c]) = texts_of cs @ (case d_content (ch_delta c) of Some (Text t) \<Rightarrow> [t] | _ \<Rightarrow> [])"
  by (auto simp: texts_of_def map_filter_def split: option.split content.split)

lemma plain_without_text:
  assumes "plain_delta c" "\<And>t. d_content (ch_delta c) \<noteq> Some (Text t)"
  shows "content_text (ch_delta c) = []" "reasoning_text (ch_delta c) = []" "d_content (ch_delta c) = None"
  using assms
  by (auto simp: plain_delta_def carries_parts_def content_text_def reasoning_text_def split: option.splits content.splits)

definition out_text :: "(delta \<Rightarrow> string) \<Rightarrow> choice list \<Rightarrow> string" where
  "out_text ch cs = concat (map (\<lambda>c. ch (ch_delta c)) cs)"

lemma out_text_append [simp]: "out_text ch (xs @ ys) = out_text ch xs @ out_text ch ys" "out_text ch [] = []"
  "out_text ch [c] = ch (ch_delta c)"
  by (simp_all add: out_text_def)

lemma reason_open_inv:
  assumes "defers cfg" "reads_results K" "list_all open_delta cs"
  shows "choice_inv K cfg (texts_of cs)
     (out_text content_text (fst (map_accum (reason_one K cfg) (fresh_choice K cfg) cs)))
     (out_text reasoning_text (fst (map_accum (reason_one K cfg) (fresh_choice K cfg) cs)))
     (snd (map_accum (reason_one K cfg) (fresh_choice K cfg) cs))"
  using assms(3)
proof (induction cs rule: rev_induct)
  case Nil
  then show ?case using choice_inv_fresh [OF assms(1)] by (simp add: texts_of_def map_filter_simps)
next
  case (snoc c cs)
  let ?m = "map_accum (reason_one K cfg) (fresh_choice K cfg) cs"
  have IH: "choice_inv K cfg (texts_of cs) (out_text content_text (fst ?m)) (out_text reasoning_text (fst ?m)) (snd ?m)"
    and c: "open_delta c" using snoc by simp_all
  have app: "map_accum (reason_one K cfg) (fresh_choice K cfg) (cs @ [c]) =
      (fst ?m @ [fst (reason_one K cfg (snd ?m) c)], snd (reason_one K cfg (snd ?m) c))"
    by (simp add: map_accum_append split_beta Let_def)
  show ?case
  proof (cases "\<exists>t. d_content (ch_delta c) = Some (Text t)")
    case True
    then obtain t where t: "d_content (ch_delta c) = Some (Text t)" ..
    then show ?thesis
      using parse_delta_inv [OF assms(1,2) IH, of t c] reason_one_open [OF assms(1) c, of K "snd ?m"]
      by (simp add: app texts_of_snoc)
  next
    case False
    then show ?thesis
      using IH reason_one_open [OF assms(1) c, of K "snd ?m"] plain_without_text [of c] c
      by (simp add: app texts_of_snoc open_delta_def)
  qed
qed

lemma drain_settles:
  assumes "choice_inv K cfg ts x y s" "parse_all K (cr_parser (fresh_choice K cfg)) ts = (rs, p)"
  shows "(x @ unwrap_or [] (fst (fst (drain_deferred_reasoning K s))),
          y @ unwrap_or [] (snd (fst (drain_deferred_reasoning K s)))) = settle rs (fst (pk_finish K p))"
    and "cr_drained (snd (drain_deferred_reasoning K s))" "cr_bypass (snd (drain_deferred_reasoning K s)) = Some False"
  using assms
  by (auto simp: choice_inv_def drain_deferred_reasoning_def settle_def Let_def split_beta)

lemma merge_drained_texts:
  assumes "\<not> carries_parts c"
  shows "content_text (ch_delta (merge_drained p c)) = content_text (ch_delta c) @ unwrap_or [] (fst p)"
    and "reasoning_text (ch_delta (merge_drained p c)) = reasoning_text (ch_delta c) @ unwrap_or [] (snd p)"
  using assms
  by (auto simp: merge_drained_def set_texts_def content_text_def reasoning_text_def carries_parts_def Let_def
      split: option.splits content.splits)

text \<open>The delta that finishes a choice delivers all that is left.\<close>

lemma reason_one_terminal:
  assumes "defers cfg" "reads_results K" "choice_inv K cfg ts x y s" "plain_delta c" "ch_finish c \<noteq> None"
    and "parse_all K (cr_parser (fresh_choice K cfg)) (ts @ texts_of [c]) = (rs, p)"
  shows "(x @ content_text (ch_delta (fst (reason_one K cfg s c))),
          y @ reasoning_text (ch_delta (fst (reason_one K cfg s c)))) = settle rs (fst (pk_finish K p))"
    and "cr_drained (snd (reason_one K cfg s c))" "cr_bypass (snd (reason_one K cfg s c)) = Some False"
proof -
  obtain c2 s2 where c2: "(case d_content (ch_delta c) of Some (Text t) \<Rightarrow> parse_delta K cfg t s c | _ \<Rightarrow> (c, s)) = (c2, s2)"
    by force
  have "\<not> carries_parts c2 \<and> is_some (ch_finish c2)"
  proof (cases "\<exists>t. d_content (ch_delta c) = Some (Text t)")
    case True
    then obtain t where "d_content (ch_delta c) = Some (Text t)" ..
    with parse_delta_finish [of K cfg t s c] c2 assms(5) show ?thesis by (simp add: is_some_iff)
  next
    case False
    with plain_without_text(3) [OF assms(4)] c2 assms(4,5) show ?thesis by (auto simp: plain_delta_def is_some_iff)
  qed
  then have np: "\<not> carries_parts c2" and fin: "is_some (ch_finish c2)" by simp_all
  have inv: "choice_inv K cfg (ts @ texts_of [c]) (x @ content_text (ch_delta c2)) (y @ reasoning_text (ch_delta c2)) s2"
  proof (cases "\<exists>t. d_content (ch_delta c) = Some (Text t)")
    case True
    then obtain t where "d_content (ch_delta c) = Some (Text t)" ..
    with parse_delta_inv [OF assms(1-3), of t c] c2 show ?thesis
      by (simp add: texts_of_snoc [of "[]", simplified] texts_of_def [of "[]"] map_filter_simps)
  next
    case False
    with plain_without_text [OF assms(4)] c2 assms(3) show ?thesis
      by (simp add: texts_of_snoc [of "[]", simplified] texts_of_def [of "[]"] map_filter_simps)
  qed
  have one: "reason_one K cfg s c = (merge_drained (fst (drain_deferred_reasoning K s2)) c2, snd (drain_deferred_reasoning K s2))"
    using assms(1) c2 np fin
    by (auto simp: reason_one_def bypass_decision_def defers_def Let_def split_beta split: option.splits content.splits)
  show "(x @ content_text (ch_delta (fst (reason_one K cfg s c))),
          y @ reasoning_text (ch_delta (fst (reason_one K cfg s c)))) = settle rs (fst (pk_finish K p))"
    using drain_settles(1) [OF inv assms(6)] merge_drained_texts [OF np] by (simp add: one)
  show "cr_drained (snd (reason_one K cfg s c))" "cr_bypass (snd (reason_one K cfg s c)) = Some False"
    using drain_settles(2,3) [OF inv assms(6)] by (simp_all add: one)
qed

section \<open>The stage as a whole\<close>

lemma texts_keep_index:
  "ch_index (set_texts x y c) = ch_index c" "ch_index (fst (parse_delta K cfg t s c)) = ch_index c"
  "ch_index (merge_drained p c) = ch_index c"
  by (simp_all add: parse_delta_def merge_drained_def set_texts_def Let_def split_beta)

lemma reason_one_keeps_index: "ch_index (fst (reason_one K cfg s c)) = ch_index c"
  by (simp add: reason_one_def texts_keep_index Let_def split_beta split: option.split bool.split content.split)

lemma reasoning_step_simps:
  "fst (reasoning_step K cfg e st fr) = [fst (map_choices (reason_one K cfg) (fresh_choice K cfg) (rs_choices st) fr)]"
  "rs_choices (snd (reasoning_step K cfg e st fr)) =
     snd (map_choices (reason_one K cfg) (fresh_choice K cfg) (rs_choices st) fr)"
  "rs_error (snd (reasoning_step K cfg e st fr)) \<longleftrightarrow> rs_error st \<or> e fr"
  by (simp_all add: reasoning_step_def split_beta Let_def)

lemma reasoning_emitted:
  "emitted (reasoning_step K cfg e) st frs =
     fst (map_accum (map_choices (reason_one K cfg) (fresh_choice K cfg)) (rs_choices st) frs)
   \<and> rs_choices (final (reasoning_step K cfg e) st frs) =
       snd (map_accum (map_choices (reason_one K cfg) (fresh_choice K cfg)) (rs_choices st) frs)
   \<and> rs_error (final (reasoning_step K cfg e) st frs) = (rs_error st \<or> list_ex e frs)"
  by (induction frs arbitrary: st) (simp_all add: reasoning_step_simps split_beta Let_def)

text \<open>While states are kept, an envelope with a choice is at hand for the flush.\<close>

definition flush_ready :: "'p reasoning_state \<Rightarrow> bool" where
  "flush_ready st = (rs_choices st = [] \<or> (\<exists>r. rs_last st = Some r \<and> frame_choices r \<noteq> []))"

lemma flush_ready_step:
  assumes "defers cfg" "flush_ready st"
  shows "flush_ready (snd (reasoning_step K cfg e st fr))"
proof -
  let ?m = "map_choices (reason_one K cfg) (fresh_choice K cfg) (rs_choices st) fr"
  have "length (frame_choices (fst ?m)) = length (frame_choices fr)"
    by (simp add: map_choices_results)
  moreover have "snd ?m = rs_choices st" if "frame_choices fr = []"
    using that by (simp add: map_choices_results)
  ultimately show ?thesis
    using assms by (auto simp: flush_ready_def reasoning_step_def defers_def split_beta Let_def)
qed

text \<open>The recovery chunk carries, for an index, what draining its state yields.\<close>

lemma reasoning_flush_choices:
  assumes "defers cfg" "keeps_choices scrub" "\<not> rs_error st" "flush_ready st" "om_ordered (rs_choices st)"
    and "om_get (rs_choices st) i = Some s" "cr_bypass s = Some False"
  shows "choice_text content_text i (reasoning_flush K cfg scrub st) = unwrap_or [] (fst (fst (drain_deferred_reasoning K s)))"
    and "choice_text reasoning_text i (reasoning_flush K cfg scrub st) = unwrap_or [] (snd (fst (drain_deferred_reasoning K s)))"
proof -
  let ?fl = "flush_states (flush_choice K) (rs_choices st)"
  let ?d = "fst (drain_deferred_reasoning K s)"
  have at: "filter (\<lambda>p. fst p = i) ?fl = (if is_some (fst ?d) \<or> is_some (snd ?d) then [(i, ?d)] else [])"
    using assms(6,7) by (simp add: flush_at_index [OF assms(5)] flush_choice_def split_beta)
  have "stream_choices i (reasoning_flush K cfg scrub st) = [] \<and> filter (\<lambda>p. fst p = i) ?fl = [] \<or>
      (\<exists>t. stream_choices i (reasoning_flush K cfg scrub st) = map (recovery_choice t) (filter (\<lambda>p. fst p = i) ?fl))"
  proof (cases "?fl = []")
    case True
    then show ?thesis by (simp add: reasoning_flush_def)
  next
    case False
    then have "rs_choices st \<noteq> []" by auto
    then obtain r where r: "rs_last st = Some r" "frame_choices r \<noteq> []"
      using assms(4) by (auto simp: flush_ready_def)
    have "frame_choices (scrub r) \<noteq> []" using assms(2) r(2) by (simp add: keeps_choices_def)
    then obtain k t cs where k: "a_data (scrub r) = Some k" "k_choices k = t # cs"
      by (cases "a_data (scrub r)"; cases "frame_choices (scrub r)") (auto simp: frame_choices_def)
    have "stream_choices i (reasoning_flush K cfg scrub st) = map (recovery_choice t) (filter (\<lambda>p. fst p = i) ?fl)"
      using False assms(1,3) r(1) k
      by (simp add: reasoning_flush_def defers_def Let_def frame_choices_def recovery_at_index)
    then show ?thesis by blast
  qed
  then show "choice_text content_text i (reasoning_flush K cfg scrub st) = unwrap_or [] (fst ?d)"
    and "choice_text reasoning_text i (reasoning_flush K cfg scrub st) = unwrap_or [] (snd ?d)"
    by (cases ?d; auto simp: choice_text_stream at is_some_iff split: if_splits)+
qed

text \<open>
  C13.  A turn is settled once, by the answer.  With deferral on, take a choice whose deltas are
  text or empty and of which only the last may carry a finish reason.  What the client receives
  for it over the whole stream, in chunks and in the recovery chunk at the end, is what the
  reference \<open>settle\<close> gives for everything the choice's parser said: with an answer, the
  reasoning and the answer apart; without one, all the text as content and nothing as reasoning.
  The other choices of the stream do not matter.
\<close>

theorem deferred_reasoning_is_settled:
  assumes "defers cfg" "reads_results K" "keeps_choices scrub" "\<not> list_ex is_error frs"
    and "stream_choices i frs = os @ fs" "os @ fs \<noteq> []" "list_all open_delta os"
    and "fs = [] \<or> (\<exists>c. fs = [c] \<and> plain_delta c \<and> ch_finish c \<noteq> None)"
    and "parse_all K (cr_parser (fresh_choice K cfg)) (texts_of (os @ fs)) = (rs, p)"
  shows "(choice_text content_text i (parse_reasoning_content_from_stream K cfg is_error scrub frs),
          choice_text reasoning_text i (parse_reasoning_content_from_stream K cfg is_error scrub frs)) =
         settle rs (fst (pk_finish K p))"
proof -
  let ?st = "final (reasoning_step K cfg is_error) reasoning_init frs"
  let ?m = "map_accum (reason_one K cfg) (fresh_choice K cfg)"
  let ?x = "\<lambda>ch cs. out_text ch (fst (?m cs))"
  have init: "choice_state (fresh_choice K cfg) (rs_choices reasoning_init) i = fresh_choice K cfg"
    by (simp add: reasoning_init_def choice_state_def om_get_def)
  note iso = stream_isolated [of "reason_one K cfg" i "fresh_choice K cfg" "rs_choices reasoning_init" frs,
      OF reason_one_keeps_index]
  have out: "choice_text ch i (emitted (reasoning_step K cfg is_error) reasoning_init frs) = ?x ch (os @ fs)" for ch
    using iso by (simp add: choice_text_stream reasoning_emitted init assms(5) out_text_def)
  have state: "om_get (rs_choices ?st) i = Some (snd (?m (os @ fs)))"
    using iso stream_state_present [of i frs "reason_one K cfg" "fresh_choice K cfg" "rs_choices reasoning_init"] assms(5,6)
    by (simp add: reasoning_emitted init)
  have ready: "flush_ready ?st"
    by (rule final_invariant [where I = flush_ready])
      (simp_all add: flush_ready_step [OF assms(1)], simp add: flush_ready_def reasoning_init_def)
  have ordered: "om_ordered (rs_choices ?st)"
    using stream_ordered [of "rs_choices reasoning_init"]
    by (simp add: reasoning_emitted) (simp add: reasoning_init_def om.ordered_none)
  have noerr: "\<not> rs_error ?st" using assms(4) by (simp add: reasoning_emitted) (simp add: reasoning_init_def)
  note flush = reasoning_flush_choices [OF assms(1,3) noerr ready ordered state, of K]
  note open_inv = reason_open_inv [OF assms(1,2,7)]
  from assms(8) consider (eof) "fs = []" | (terminal) c where "fs = [c]" "plain_delta c" "ch_finish c \<noteq> None" by blast
  then show ?thesis
  proof cases
    case eof
    then have "cr_bypass (snd (?m (os @ fs))) = Some False"
      using open_inv by (simp add: choice_inv_def split_beta)
    with flush drain_settles(1) [OF open_inv, of rs p] out eof assms(9) show ?thesis
      by (simp add: parse_reasoning_content_from_stream_def run_stage_def choice_text_append)
  next
    case terminal
    let ?s = "snd (?m os)"
    have snoc: "?m (os @ fs) = (fst (?m os) @ [fst (reason_one K cfg ?s c)], snd (reason_one K cfg ?s c))"
      by (simp add: terminal(1) map_accum_append split_beta Let_def)
    have ts: "texts_of (os @ fs) = texts_of os @ texts_of [c]"
      by (simp add: terminal(1) texts_of_def map_filter_def)
    note last_one = reason_one_terminal [OF assms(1,2) open_inv terminal(2,3), of rs p]
    have "cr_drained (snd (?m (os @ fs)))" using last_one(2) assms(9) ts snoc by simp
    then have "fst (drain_deferred_reasoning K (snd (?m (os @ fs)))) = (None, None)"
      by (simp add: drain_deferred_reasoning_def)
    moreover have "cr_bypass (snd (?m (os @ fs))) = Some False"
      using last_one(3) assms(9) ts snoc by simp
    ultimately show ?thesis
      using flush last_one(1) assms(9) ts out snoc
      by (simp add: parse_reasoning_content_from_stream_def run_stage_def choice_text_append)
  qed
qed

text \<open>
  A parser for the witness: it starts inside the reasoning block, a line ending closes the block,
  and nothing is held.
\<close>

definition line_parse :: "string \<Rightarrow> bool \<Rightarrow> parser_result \<times> bool" where
  "line_parse t inside =
     (if inside then
        (\<lparr>res_normal = tl (dropWhile (\<lambda>ch. ch \<noteq> CHR 0x0A) t), res_reasoning = takeWhile (\<lambda>ch. ch \<noteq> CHR 0x0A) t\<rparr>,
         CHR 0x0A \<notin> set t)
      else (\<lparr>res_normal = t, res_reasoning = []\<rparr>, False))"

definition line_kit :: "bool parser_kit" where
  "line_kit = \<lparr>pk_new = True, pk_set_in_reasoning = (\<lambda>_. True), pk_parse = line_parse,
     pk_finish = (\<lambda>p. (empty_result, p)), pk_some_normal = (\<lambda>r. nonempty (res_normal r)),
     pk_some_reasoning = (\<lambda>r. nonempty (res_reasoning r))\<rparr>"

definition sample_choice :: "string \<Rightarrow> finish_reason option \<Rightarrow> choice" where
  "sample_choice t fin = \<lparr>ch_index = 0, ch_delta = \<lparr>d_role = None, d_content = Some (Text t), d_reasoning = None,
     d_tool_calls = None, d_function_call = None, d_refusal = None\<rparr>, ch_finish = fin, ch_logprobs = None\<rparr>"

definition sample_chunk :: "string \<Rightarrow> finish_reason option \<Rightarrow> frame" where
  "sample_chunk t fin = frame_of \<lparr>k_choices = [sample_choice t fin], k_usage = None, k_nvext = None, k_metrics = None\<rparr>"

definition sample_config :: reasoning_config where
  "sample_config = \<lparr>rf_prompt_injected = True, rf_bypass_guided = False, rf_defer = True\<rparr>"

lemma line_kit_reads: "reads_results line_kit"
  by (simp add: reads_results_def line_kit_def)

lemma sample_chunk_choices: "stream_choices 0 [sample_chunk t x, sample_chunk u y] = [sample_choice t x] @ [sample_choice u y]"
  by (simp add: sample_chunk_def sample_choice_def frame_choices_def with_index_def)

lemma sample_parses:
  "parse_all line_kit (cr_parser (fresh_choice line_kit sample_config))
     (texts_of ([sample_choice ''a'' None] @ [sample_choice ''b'' (Some FR_Stop)])) =
   ([\<lparr>res_normal = [], res_reasoning = ''a''\<rparr>, \<lparr>res_normal = [], res_reasoning = ''b''\<rparr>], True)"
  by (simp add: line_kit_def line_parse_def fresh_choice_def sample_config_def sample_choice_def texts_of_def map_filter_simps)

theorem deferred_reasoning_is_settled_witness:
  "(choice_text content_text 0 (parse_reasoning_content_from_stream line_kit sample_config (\<lambda>_. False) id
      [sample_chunk ''a'' None, sample_chunk ''b'' (Some FR_Stop)]),
    choice_text reasoning_text 0 (parse_reasoning_content_from_stream line_kit sample_config (\<lambda>_. False) id
      [sample_chunk ''a'' None, sample_chunk ''b'' (Some FR_Stop)])) = (''ab'', [])"
proof -
  have "defers sample_config" by (simp add: defers_def sample_config_def)
  moreover have "keeps_choices id" by (simp add: keeps_choices_def)
  moreover have "list_all open_delta [sample_choice ''a'' None]" "plain_delta (sample_choice ''b'' (Some FR_Stop))"
    "ch_finish (sample_choice ''b'' (Some FR_Stop)) \<noteq> None"
    by (simp_all add: open_delta_def plain_delta_def carries_parts_def sample_choice_def)
  ultimately show ?thesis
    using deferred_reasoning_is_settled [OF _ line_kit_reads _ _ sample_chunk_choices _ _ _ sample_parses,
        of id "\<lambda>_. False"]
    by (simp add: settle_def answered_def reasonings_def line_kit_def empty_result_def blank_def)
qed

end
