(* ===== verification/Unified_Deferral.thy ===== *)
theory Unified_Deferral
  imports Reasoning_Stream
begin

text \<open>
  \<open>defer_unified_reasoning_for_nonempty_content\<close> (\<open>fix/dynamo/preprocessor.rs\<close>):
  the same promise as that of \<open>Reasoning_Stream\<close>, for parsers that have already split the
  text into reasoning, content and tool calls.  Reasoning is held back until a choice shows
  something visible (text that is not blank, parts, or a tool call); a choice that never does
  gets its reasoning as content.
\<close>

section \<open>One choice\<close>

record deferred_unified =
  du_reasoning :: string
  du_content :: string
  du_visible :: bool
  du_drained :: bool

definition unified_default :: deferred_unified where
  "unified_default = \<lparr>du_reasoning = [], du_content = [], du_visible = False, du_drained = False\<rparr>"

definition release_split :: "deferred_unified \<Rightarrow> (string option \<times> string option) \<times> deferred_unified" where
  "release_split s =
     ((nonempty (du_content s), nonempty (du_reasoning s)), s\<lparr>du_content := [], du_reasoning := []\<rparr>)"

definition unified_drain :: "deferred_unified \<Rightarrow> (string option \<times> string option) \<times> deferred_unified" where
  "unified_drain s =
     (if du_drained s then ((None, None), s)
      else
        let s1 = s\<lparr>du_drained := True\<rparr> in
        if du_visible s1 then release_split s1
        else
          let s2 = s1\<lparr>du_reasoning := [], du_content := []\<rparr> in
          if \<not> blank (du_reasoning s) then ((Some (du_reasoning s), None), s2)
          else ((nonempty (du_content s), None), s2))"

definition has_tool_calls :: "choice \<Rightarrow> bool" where
  "has_tool_calls c = is_some_and (\<lambda>calls. calls \<noteq> []) (d_tool_calls (ch_delta c))"

text \<open>Taking the reasoning and the blank text of a delta into the state.\<close>

definition hold_reasoning :: "deferred_unified \<Rightarrow> choice \<Rightarrow> choice \<times> deferred_unified" where
  "hold_reasoning s c =
     (let d = ch_delta c;
          s1 = (if is_some (d_content d) \<or> is_some (d_reasoning d) \<or> is_some (d_tool_calls d)
                then s\<lparr>du_drained := False\<rparr> else s) in
      case d_reasoning d of
        Some r \<Rightarrow>
          if du_visible s1 then (c, s1)
          else (set_texts (d_content d) None c, s1\<lparr>du_reasoning := du_reasoning s1 @ r\<rparr>)
      | None \<Rightarrow> (c, s1))"

definition hold_content :: "deferred_unified \<Rightarrow> choice \<Rightarrow> choice \<times> deferred_unified" where
  "hold_content s c =
     (case d_content (ch_delta c) of
        Some (Text t) \<Rightarrow>
          if \<not> du_visible s \<and> blank t
          then (set_texts None (d_reasoning (ch_delta c)) c, s\<lparr>du_content := du_content s @ t\<rparr>)
          else
            (set_texts (Some (Text (du_content s @ t))) (d_reasoning (ch_delta c)) c,
             s\<lparr>du_visible := du_visible s \<or> \<not> blank t, du_content := []\<rparr>)
      | _ \<Rightarrow> (c, s))"

definition note_visible :: "choice \<Rightarrow> deferred_unified \<Rightarrow> deferred_unified" where
  "note_visible c s =
     (let s1 = (if carries_parts c \<or> has_tool_calls c then s\<lparr>du_visible := True\<rparr> else s) in
      if carries_parts c then s1\<lparr>du_content := []\<rparr> else s1)"

text \<open>A choice that carries released text ahead of the delta that released it.\<close>

definition prefix_choice :: "choice \<Rightarrow> content option \<Rightarrow> string option \<Rightarrow> choice" where
  "prefix_choice c content reasoning =
     c\<lparr>ch_delta := (ch_delta c)\<lparr>d_role := None, d_content := content, d_reasoning := reasoning,
         d_tool_calls := None, d_function_call := None, d_refusal := None\<rparr>,
       ch_finish := None, ch_logprobs := None\<rparr>"

definition release_visible :: "deferred_unified \<Rightarrow> choice \<Rightarrow> (choice \<times> choice list) \<times> deferred_unified" where
  "release_visible s c =
     (if \<not> du_visible s then ((c, []), s)
      else
        let ((content, reasoning), s') = release_split s;
            before = (case reasoning of Some r \<Rightarrow> [prefix_choice c None (Some r)] | None \<Rightarrow> []) in
        case content of
          None \<Rightarrow> ((c, before), s')
        | Some t \<Rightarrow>
            (case d_content (ch_delta c) of
               Some (Text old) \<Rightarrow> ((set_texts (Some (Text (t @ old))) (d_reasoning (ch_delta c)) c, before), s')
             | _ \<Rightarrow> ((c, before @ [prefix_choice c (Some (Text t)) None]), s')))"

definition drain_terminal :: "deferred_unified \<Rightarrow> choice \<Rightarrow> choice \<times> deferred_unified" where
  "drain_terminal s c =
     (if is_some (ch_finish c) then (let (p, s') = unified_drain s in (merge_drained p c, s')) else (c, s))"

definition defer_one :: "deferred_unified \<Rightarrow> choice \<Rightarrow> (choice \<times> choice list) \<times> deferred_unified" where
  "defer_one s c =
     (let (c1, s1) = hold_reasoning s c;
          (c2, s2) = hold_content s1 c1;
          s3 = note_visible c s2;
          ((c3, before), s4) = release_visible s3 c2;
          (c4, s5) = drain_terminal s4 c3 in
      ((c4, before), s5))"

section \<open>The stream\<close>

record unified_state =
  us_choices :: "(u32, deferred_unified) omap"
  us_last :: "frame option"
  us_stopped :: bool

definition unified_init :: unified_state where
  "unified_init = \<lparr>us_choices = [], us_last = None, us_stopped = False\<rparr>"

definition prefix_response :: "frame \<Rightarrow> choice \<Rightarrow> frame" where
  "prefix_response fr c =
     \<lparr>a_id = None,
      a_data = map_option (\<lambda>k. k\<lparr>k_choices := [c], k_usage := None, k_nvext := None, k_metrics := None\<rparr>) (a_data fr),
      a_event = None, a_comment = None, a_error = None\<rparr>"

definition unified_step :: "(frame \<Rightarrow> bool) \<Rightarrow> (unified_state, frame, frame) stage_step" where
  "unified_step is_error st fr =
     (if us_stopped st then ([], st)
      else if is_error fr then ([fr], st\<lparr>us_stopped := True\<rparr>)
      else case a_data fr of
        None \<Rightarrow> ([fr], st)
      | Some k \<Rightarrow>
          let (rs, states) = map_accum (per_choice defer_one unified_default) (us_choices st) (k_choices k);
              fr' = fr\<lparr>a_data := Some (k\<lparr>k_choices := map fst rs\<rparr>)\<rparr> in
          (map (prefix_response fr') (concat (map snd rs)) @ [fr'],
           st\<lparr>us_choices := states, us_last := if map fst rs \<noteq> [] then Some fr' else us_last st\<rparr>))"

definition unified_flush_choice :: "deferred_unified \<Rightarrow> (string option \<times> string option) option" where
  "unified_flush_choice s =
     (let (content, reasoning) = fst (unified_drain s) in
      if is_some content \<or> is_some reasoning then Some (content, reasoning) else None)"

text \<open>
  \<open>scrub\<close> is the clean-up of a synthetic chunk, code outside the repository; it gives
  \<open>None\<close> when there is nothing to clean.
\<close>

definition unified_flush :: "(frame \<Rightarrow> frame option) \<Rightarrow> unified_state \<Rightarrow> frame list" where
  "unified_flush scrub st =
     (if us_stopped st then []
      else
        let flushed = flush_states unified_flush_choice (us_choices st) in
        if flushed = [] then []
        else case Option.bind (us_last st) scrub of
          None \<Rightarrow> []
        | Some r \<Rightarrow>
            (case a_data r of
               None \<Rightarrow> []
             | Some k \<Rightarrow>
                 (case k_choices k of
                    [] \<Rightarrow> []
                  | template # _ \<Rightarrow>
                      [r\<lparr>a_data := Some (k\<lparr>k_choices := map (recovery_choice template) flushed\<rparr>)\<rparr>])))"

definition defer_unified_reasoning_for_nonempty_content ::
  "(frame \<Rightarrow> bool) \<Rightarrow> (frame \<Rightarrow> frame option) \<Rightarrow> frame list \<Rightarrow> frame list" where
  "defer_unified_reasoning_for_nonempty_content is_error scrub frs =
     run_stage (unified_step is_error) (unified_flush scrub) unified_init frs"

section \<open>What a choice is promised\<close>

text \<open>
  The reference, over all the deltas of a choice: when one of them shows something, the split of
  the parser stands; otherwise the reasoning is the answer, or the blank text if the reasoning is
  blank too.
\<close>

definition visible_delta :: "choice \<Rightarrow> bool" where
  "visible_delta c = (\<not> blank (content_text (ch_delta c)) \<or> has_tool_calls c)"

definition unified_settle :: "choice list \<Rightarrow> string \<times> string" where
  "unified_settle cs =
     (if list_ex visible_delta cs then (out_text content_text cs, out_text reasoning_text cs)
      else (if blank (out_text reasoning_text cs) then out_text content_text cs else out_text reasoning_text cs, []))"

text \<open>The text of what one delta becomes, with what is sent ahead of it.\<close>

definition sent_text :: "(delta \<Rightarrow> string) \<Rightarrow> choice \<times> choice list \<Rightarrow> string" where
  "sent_text ch r = out_text ch (snd r @ [fst r])"

text \<open>The state of a choice after the deltas \<open>cs\<close>, when \<open>x\<close> and \<open>y\<close> were sent.\<close>

definition unified_inv :: "choice list \<Rightarrow> string \<Rightarrow> string \<Rightarrow> deferred_unified \<Rightarrow> bool" where
  "unified_inv cs x y s =
     (\<not> du_drained s \<and> du_visible s = list_ex visible_delta cs \<and>
      (if list_ex visible_delta cs
       then x = out_text content_text cs \<and> y = out_text reasoning_text cs \<and> du_content s = [] \<and> du_reasoning s = []
       else x = [] \<and> y = [] \<and> du_content s = out_text content_text cs \<and> du_reasoning s = out_text reasoning_text cs))"

lemma prefix_choice_texts [simp]:
  "content_text (ch_delta (prefix_choice c (Some (Text t)) r)) = t"
  "content_text (ch_delta (prefix_choice c None r)) = []"
  "reasoning_text (ch_delta (prefix_choice c x r)) = unwrap_or [] r"
  "ch_index (prefix_choice c x r) = ch_index c"
  by (simp_all add: prefix_choice_def content_text_def reasoning_text_def)

lemma set_texts_simps [simp]:
  "ch_index (set_texts x y c) = ch_index c" "ch_finish (set_texts x y c) = ch_finish c"
  "d_content (ch_delta (set_texts x y c)) = x" "d_reasoning (ch_delta (set_texts x y c)) = y"
  "d_tool_calls (ch_delta (set_texts x y c)) = d_tool_calls (ch_delta c)"
  by (simp_all add: set_texts_def)

text \<open>The first four steps of a delta without parts, before the end of the choice is looked at.\<close>

definition pass_delta :: "deferred_unified \<Rightarrow> choice \<Rightarrow> (choice \<times> choice list) \<times> deferred_unified" where
  "pass_delta s c =
     (let (c1, s1) = hold_reasoning s c; (c2, s2) = hold_content s1 c1 in release_visible (note_visible c s2) c2)"

lemma defer_one_pass:
  "defer_one s c =
     ((fst (drain_terminal (snd (pass_delta s c)) (fst (fst (pass_delta s c)))), snd (fst (pass_delta s c))),
      snd (drain_terminal (snd (pass_delta s c)) (fst (fst (pass_delta s c)))))"
  by (simp add: defer_one_def pass_delta_def Let_def split_beta)

text \<open>
  Holding text back loses none: what is held and what the delta still carries add up, on both
  channels.
\<close>

definition hold_delta :: "deferred_unified \<Rightarrow> choice \<Rightarrow> choice \<times> deferred_unified" where
  "hold_delta s c =
     (let (c1, s1) = hold_reasoning s c; (c2, s2) = hold_content s1 c1 in (c2, note_visible c s2))"

lemma hold_reasoning_law:
  assumes "hold_reasoning s c = (c1, s1)"
  shows "du_reasoning s1 @ reasoning_text (ch_delta c1) = du_reasoning s @ reasoning_text (ch_delta c)"
    and "d_content (ch_delta c1) = d_content (ch_delta c)" "du_content s1 = du_content s" "du_visible s1 = du_visible s"
    and "\<not> du_drained s \<Longrightarrow> \<not> du_drained s1" "\<not> du_visible s \<Longrightarrow> reasoning_text (ch_delta c1) = []"
    and "ch_index c1 = ch_index c" "ch_finish c1 = ch_finish c"
  using assms by (auto simp: hold_reasoning_def Let_def reasoning_text_def split: option.splits if_splits)

lemma hold_content_law:
  assumes "hold_content s c = (c1, s1)" "\<not> carries_parts c"
  shows "du_content s1 @ content_text (ch_delta c1) = du_content s @ content_text (ch_delta c)"
    and "reasoning_text (ch_delta c1) = reasoning_text (ch_delta c)" "du_reasoning s1 = du_reasoning s"
    and "du_visible s1 \<longleftrightarrow> du_visible s \<or> \<not> blank (content_text (ch_delta c))"
    and "du_drained s1 = du_drained s" "\<not> du_visible s1 \<Longrightarrow> content_text (ch_delta c1) = []"
    and "ch_index c1 = ch_index c" "ch_finish c1 = ch_finish c" "\<not> carries_parts c1"
  using assms
  by (auto simp: hold_content_def content_text_def reasoning_text_def carries_parts_def split: option.splits if_splits content.splits)

lemma hold_delta_law:
  assumes "hold_delta s c = (c2, s2)" "\<not> carries_parts c"
  shows "du_reasoning s2 @ reasoning_text (ch_delta c2) = du_reasoning s @ reasoning_text (ch_delta c)"
    and "du_content s2 @ content_text (ch_delta c2) = du_content s @ content_text (ch_delta c)"
    and "du_visible s2 \<longleftrightarrow> du_visible s \<or> visible_delta c"
    and "\<not> du_drained s \<Longrightarrow> \<not> du_drained s2"
    and "\<not> du_visible s2 \<Longrightarrow> content_text (ch_delta c2) = [] \<and> reasoning_text (ch_delta c2) = []"
    and "ch_index c2 = ch_index c" "ch_finish c2 = ch_finish c" "\<not> carries_parts c2"
proof -
  obtain c1 s1 where r: "hold_reasoning s c = (c1, s1)" by force
  obtain c' s' where h: "hold_content s1 c1 = (c', s')" by force
  have np: "\<not> carries_parts c1" using hold_reasoning_law(2) [OF r] assms(2) by (simp add: carries_parts_def)
  have eq: "c2 = c'" "s2 = note_visible c s'" using assms(1) by (simp_all add: hold_delta_def r h)
  have n: "du_reasoning s2 = du_reasoning s'" "du_content s2 = du_content s'" "du_drained s2 = du_drained s'"
    "du_visible s2 \<longleftrightarrow> du_visible s' \<or> has_tool_calls c"
    using assms(2) by (auto simp: eq note_visible_def)
  have t: "content_text (ch_delta c1) = content_text (ch_delta c)"
    using hold_reasoning_law(2) [OF r] by (simp add: content_text_def)
  note laws = hold_reasoning_law [OF r] hold_content_law [OF h np]
  show "du_reasoning s2 @ reasoning_text (ch_delta c2) = du_reasoning s @ reasoning_text (ch_delta c)"
    "du_content s2 @ content_text (ch_delta c2) = du_content s @ content_text (ch_delta c)"
    using laws n t eq by simp_all
  show "du_visible s2 \<longleftrightarrow> du_visible s \<or> visible_delta c"
    using laws n t by (auto simp: visible_delta_def)
  show "\<not> du_drained s \<Longrightarrow> \<not> du_drained s2" using laws n by simp
  show "\<not> du_visible s2 \<Longrightarrow> content_text (ch_delta c2) = [] \<and> reasoning_text (ch_delta c2) = []"
    using laws n eq by simp
  show "ch_index c2 = ch_index c" "ch_finish c2 = ch_finish c" "\<not> carries_parts c2"
    using laws eq by simp_all
qed

lemma release_visible_law:
  assumes "release_visible s c = ((c', before), s')" "\<not> carries_parts c"
  shows "sent_text content_text (c', before) = (if du_visible s then du_content s else []) @ content_text (ch_delta c)"
    and "sent_text reasoning_text (c', before) = (if du_visible s then du_reasoning s else []) @ reasoning_text (ch_delta c)"
    and "s' = (if du_visible s then s\<lparr>du_content := [], du_reasoning := []\<rparr> else s)"
    and "ch_finish c' = ch_finish c" "\<not> carries_parts c'"
    and "ch_index c' = ch_index c" "\<forall>p \<in> set before. ch_index p = ch_index c"
  using assms
  by (auto simp: release_visible_def release_split_def sent_text_def Let_def nonempty_def then_some_def carries_parts_def
      content_text_def reasoning_text_def out_text_def prefix_choice_def
      split: option.splits if_splits content.splits)

lemma pass_delta_inv:
  assumes "\<not> carries_parts c" "unified_inv cs x y s" "pass_delta s c = (r, s')"
  shows "unified_inv (cs @ [c]) (x @ sent_text content_text r) (y @ sent_text reasoning_text r) s'"
    and "ch_finish (fst r) = ch_finish c" "\<not> carries_parts (fst r)"
proof -
  obtain c2 s2 where h: "hold_delta s c = (c2, s2)" by force
  obtain c' before where r: "r = (c', before)" by force
  have p: "release_visible s2 c2 = ((c', before), s')"
    using assms(3) h by (simp add: pass_delta_def hold_delta_def Let_def split_beta r)
  note hold = hold_delta_law [OF h assms(1)]
  note rel = release_visible_law [OF p hold(8)]
  show "unified_inv (cs @ [c]) (x @ sent_text content_text r) (y @ sent_text reasoning_text r) s'"
    using assms(2) hold rel by (auto simp: unified_inv_def r)
  show "ch_finish (fst r) = ch_finish c" "\<not> carries_parts (fst r)"
    using hold rel by (simp_all add: r)
qed

lemma unified_drain_settles:
  assumes "unified_inv cs x y s"
  shows "(x @ unwrap_or [] (fst (fst (unified_drain s))), y @ unwrap_or [] (snd (fst (unified_drain s)))) = unified_settle cs"
    and "du_drained (snd (unified_drain s))"
  using assms by (auto simp: unified_inv_def unified_drain_def unified_settle_def release_split_def Let_def)

text \<open>A delta that leaves its choice open, and the one that finishes it.\<close>

lemma defer_one_open:
  assumes "\<not> carries_parts c" "ch_finish c = None" "unified_inv cs x y s" "defer_one s c = (r, s')"
  shows "unified_inv (cs @ [c]) (x @ sent_text content_text r) (y @ sent_text reasoning_text r) s'"
proof -
  obtain q s2 where p: "pass_delta s c = (q, s2)" by (metis surj_pair)
  note pass = pass_delta_inv [OF assms(1,3) p]
  have "r = q" "s' = s2"
    using assms(2,4) pass(2) by (simp_all add: defer_one_pass p drain_terminal_def)
  with pass(1) show ?thesis by simp
qed

lemma sent_text_merge:
  assumes "\<not> carries_parts c"
  shows "sent_text content_text (merge_drained p c, before) = sent_text content_text (c, before) @ unwrap_or [] (fst p)"
    and "sent_text reasoning_text (merge_drained p c, before) = sent_text reasoning_text (c, before) @ unwrap_or [] (snd p)"
  using merge_drained_texts [OF assms] by (simp_all add: sent_text_def)

lemma defer_one_terminal:
  assumes "\<not> carries_parts c" "ch_finish c \<noteq> None" "unified_inv cs x y s" "defer_one s c = (r, s')"
  shows "(x @ sent_text content_text r, y @ sent_text reasoning_text r) = unified_settle (cs @ [c])"
    and "du_drained s'"
proof -
  obtain c' before s2 where p: "pass_delta s c = ((c', before), s2)" by (metis surj_pair)
  note pass = pass_delta_inv [OF assms(1,3) p]
  have np: "\<not> carries_parts c'" using pass(3) by simp
  have r: "r = (merge_drained (fst (unified_drain s2)) c', before)" "s' = snd (unified_drain s2)"
    using assms(2,4) pass(2) by (simp_all add: defer_one_pass p drain_terminal_def is_some_iff split_beta)
  show "(x @ sent_text content_text r, y @ sent_text reasoning_text r) = unified_settle (cs @ [c])"
    using unified_drain_settles(1) [OF pass(1)] by (simp add: r(1) sent_text_merge [OF np])
  show "du_drained s'" using unified_drain_settles(2) [OF pass(1)] by (simp add: r(2))
qed

lemma steps_keep_index:
  "ch_index (fst (hold_reasoning s c)) = ch_index c" "ch_index (fst (hold_content s c)) = ch_index c"
  "ch_index (fst (drain_terminal s c)) = ch_index c"
  "ch_index (fst (fst (release_visible s c))) = ch_index c"
  "p \<in> set (snd (fst (release_visible s c))) \<Longrightarrow> ch_index p = ch_index c"
  by (auto simp: hold_reasoning_def hold_content_def drain_terminal_def release_visible_def release_split_def
      texts_keep_index Let_def split_beta split: option.splits content.splits if_splits)

lemma defer_one_index:
  "ch_index (fst (fst (defer_one s c))) = ch_index c"
  "p \<in> set (snd (fst (defer_one s c))) \<Longrightarrow> ch_index p = ch_index c"
  by (auto simp: defer_one_def Let_def split_beta steps_keep_index dest: steps_keep_index(5))

section \<open>From one choice to the stream\<close>

text \<open>What the results for a frame put into the stream, for one index, when no index is repeated.\<close>

definition spread :: "choice \<times> choice list \<Rightarrow> choice list" where
  "spread r = snd r @ [fst r]"

definition keeps_index :: "choice \<Rightarrow> choice \<times> choice list \<Rightarrow> bool" where
  "keeps_index c r = (\<forall>p \<in> set (spread r). ch_index p = ch_index c)"

lemma with_index_same: "\<forall>p \<in> set ps. ch_index p = k \<Longrightarrow> with_index i ps = (if k = i then ps else [])"
  by (induction ps) (auto simp: with_index_def)

lemma with_index_simps:
  "with_index i (xs @ ys) = with_index i xs @ with_index i ys" "with_index i [] = []"
  "with_index i (c # cs) = (if ch_index c = i then [c] else []) @ with_index i cs"
  by (simp_all add: with_index_def)

lemma spread_absent:
  assumes "list_all2 keeps_index cs rs" "i \<notin> ch_index ` set cs"
  shows "with_index i (concat (map snd rs)) = []" "with_index i (map fst rs) = []"
  using assms
  by (induction rule: list_all2_induct)
    (auto simp: with_index_def filter_empty_conv keeps_index_def spread_def)

lemma spread_at_index:
  assumes "list_all2 keeps_index cs rs" "distinct (map ch_index cs)"
  shows "with_index i (concat (map snd rs)) @ with_index i (map fst rs) = concat (map spread (results_at i cs rs))"
  using assms
proof (induction rule: list_all2_induct)
  case Nil
  then show ?case by (simp add: with_index_simps results_at_def)
next
  case (Cons c cs r rs)
  have r: "ch_index (fst r) = ch_index c" "\<forall>p \<in> set (snd r). ch_index p = ch_index c"
    using Cons.hyps(1) by (simp_all add: keeps_index_def spread_def)
  show ?case
  proof (cases "ch_index c = i")
    case True
    then have "i \<notin> ch_index ` set cs" using Cons.prems by auto
    note none = spread_absent [OF Cons.hyps(2) this]
    have "concat (map spread (results_at i cs rs)) = []"
      using Cons none by simp
    with none True r show ?thesis
      by (simp add: with_index_simps with_index_same [OF r(2)] results_at_def spread_def)
  next
    case False
    with Cons r show ?thesis
      by (simp add: with_index_simps with_index_same [OF r(2)] results_at_def)
  qed
qed

lemma defer_keeps_index: "list_all2 keeps_index cs (fst (map_accum (per_choice defer_one unified_default) states cs))"
proof (induction cs arbitrary: states)
  case Nil
  then show ?case by simp
next
  case (Cons c cs)
  let ?r = "defer_one (unwrap_or unified_default (om_get states (ch_index c))) c"
  have "keeps_index c (fst ?r)"
    using defer_one_index [where s = "unwrap_or unified_default (om_get states (ch_index c))" and c = c]
    by (auto simp: keeps_index_def spread_def)
  with Cons show ?case by (simp add: per_choice_def split_beta Let_def)
qed

text \<open>Frames in which every index occurs once, and which are not errors.\<close>

definition orderly :: "(frame \<Rightarrow> bool) \<Rightarrow> frame \<Rightarrow> bool" where
  "orderly is_error fr = (\<not> is_error fr \<and> distinct (map ch_index (frame_choices fr)))"

lemma unified_step_choices:
  assumes "orderly e fr" "\<not> us_stopped st"
    and m_def: "m = map_accum defer_one (choice_state unified_default (us_choices st) i) (with_index i (frame_choices fr))"
  shows "stream_choices i (fst (unified_step e st fr)) = concat (map spread (fst m))"
    and "choice_state unified_default (us_choices (snd (unified_step e st fr))) i = snd m"
    and "\<not> us_stopped (snd (unified_step e st fr))"
proof -
  let ?a = "map_accum (per_choice defer_one unified_default) (us_choices st) (frame_choices fr)"
  note iso = per_choice_isolated [of i "frame_choices fr" defer_one unified_default "us_choices st"]
  have one: "stream_choices i (map (prefix_response f) ps) = with_index i ps" if "a_data f \<noteq> None" for f ps
    using that by (induction ps) (auto simp: prefix_response_def frame_choices_def with_index_simps)
  have "fst m = results_at i (frame_choices fr) (fst ?a)" "snd m = choice_state unified_default (snd ?a) i"
    using iso by (simp_all add: m_def)
  moreover have "stream_choices i (fst (unified_step e st fr)) =
      with_index i (concat (map snd (fst ?a))) @ with_index i (map fst (fst ?a))"
    "us_choices (snd (unified_step e st fr)) = snd ?a" "\<not> us_stopped (snd (unified_step e st fr))"
    using assms(1,2) one
    by (auto simp: unified_step_def orderly_def frame_choices_def Let_def split_beta with_index_simps split: option.split)
  ultimately show "stream_choices i (fst (unified_step e st fr)) = concat (map spread (fst m))"
    "choice_state unified_default (us_choices (snd (unified_step e st fr))) i = snd m"
    "\<not> us_stopped (snd (unified_step e st fr))"
    using spread_at_index [OF defer_keeps_index [of "frame_choices fr" "us_choices st"], of i] assms(1)
    by (simp_all add: orderly_def)
qed

lemma unified_stream_choices:
  assumes "list_all (orderly e) frs" "\<not> us_stopped st"
    and "m = map_accum defer_one (choice_state unified_default (us_choices st) i) (stream_choices i frs)"
  shows "stream_choices i (emitted (unified_step e) st frs) = concat (map spread (fst m))
    \<and> choice_state unified_default (us_choices (final (unified_step e) st frs)) i = snd m
    \<and> \<not> us_stopped (final (unified_step e) st frs)"
  using assms
proof (induction frs arbitrary: st m)
  case Nil
  then show ?case by simp
next
  case (Cons fr frs)
  have o: "orderly e fr" "list_all (orderly e) frs" using Cons.prems(1) by simp_all
  note step = unified_step_choices [where i = i, OF o(1) Cons.prems(2) refl]
  from Cons.IH [OF o(2) step(3) refl] step Cons.prems(3) show ?case
    by (simp add: map_accum_append)
qed

text \<open>States, their order, and the envelope for the flush.\<close>

definition unified_ready :: "unified_state \<Rightarrow> bool" where
  "unified_ready st =
     (om_ordered (us_choices st) \<and> (us_choices st = [] \<or> (\<exists>r. us_last st = Some r \<and> frame_choices r \<noteq> [])))"

lemma unified_ready_step:
  assumes "unified_ready st"
  shows "unified_ready (snd (unified_step e st fr))"
proof (cases "us_stopped st \<or> e fr \<or> a_data fr = None")
  case True
  with assms show ?thesis by (auto simp: unified_step_def unified_ready_def split: option.split)
next
  case False
  then obtain k where k: "a_data fr = Some k" "\<not> us_stopped st" "\<not> e fr" by auto
  let ?a = "map_accum (per_choice defer_one unified_default) (us_choices st) (k_choices k)"
  have "fst ?a = [] \<longleftrightarrow> k_choices k = []"
    using length_map_accum [of "per_choice defer_one unified_default" "us_choices st" "k_choices k"]
    by (metis length_0_conv)
  moreover have "om_ordered (snd ?a)"
    using assms by (simp add: per_choice_ordered unified_ready_def)
  ultimately show ?thesis
    using assms k by (auto simp: unified_step_def unified_ready_def Let_def split_beta frame_choices_def)
qed

lemma unified_states_present:
  assumes "list_all (orderly e) frs" "\<not> us_stopped st" "om_get (us_choices st) i \<noteq> None \<or> stream_choices i frs \<noteq> []"
  shows "om_get (us_choices (final (unified_step e) st frs)) i \<noteq> None"
  using assms
proof (induction frs arbitrary: st)
  case Nil
  then show ?case by simp
next
  case (Cons fr frs)
  let ?st = "snd (unified_step e st fr)"
  have o: "orderly e fr" "list_all (orderly e) frs" using Cons.prems(1) by simp_all
  have keys: "us_choices ?st = snd (map_accum (per_choice defer_one unified_default) (us_choices st) (frame_choices fr))"
    using o(1) Cons.prems(2) by (auto simp: unified_step_def orderly_def frame_choices_def Let_def split_beta split: option.split)
  have "om_get (us_choices ?st) i \<noteq> None \<or> stream_choices i frs \<noteq> []"
  proof (cases "stream_choices i frs = []")
    case True
    then have "i \<in> set (om_keys (us_choices st)) \<union> ch_index ` set (frame_choices fr)"
      using Cons.prems(3) by (auto simp: om_keys_present with_index_def filter_empty_conv)
    then have "i \<in> set (om_keys (us_choices ?st))" by (simp add: keys per_choice_keys)
    then show ?thesis unfolding om_keys_present ..
  qed simp
  from Cons.IH [OF o(2) unified_step_choices(3) [OF o(1) Cons.prems(2) refl] this] show ?case by simp
qed

text \<open>The clean-up of a chunk with choices succeeds and leaves the choices alone.\<close>

definition scrubs :: "(frame \<Rightarrow> frame option) \<Rightarrow> bool" where
  "scrubs scrub = (\<forall>fr. frame_choices fr \<noteq> [] \<longrightarrow> (\<exists>r. scrub fr = Some r \<and> frame_choices r = frame_choices fr))"

lemma unified_flush_choices:
  assumes "scrubs scrub" "\<not> us_stopped st" "unified_ready st" "om_get (us_choices st) i = Some s"
  shows "choice_text content_text i (unified_flush scrub st) = unwrap_or [] (fst (fst (unified_drain s)))"
    and "choice_text reasoning_text i (unified_flush scrub st) = unwrap_or [] (snd (fst (unified_drain s)))"
proof -
  let ?fl = "flush_states unified_flush_choice (us_choices st)"
  let ?d = "fst (unified_drain s)"
  have at: "filter (\<lambda>p. fst p = i) ?fl = (if is_some (fst ?d) \<or> is_some (snd ?d) then [(i, ?d)] else [])"
    using assms(3,4) by (simp add: flush_at_index unified_ready_def unified_flush_choice_def split_beta)
  have "stream_choices i (unified_flush scrub st) = [] \<and> filter (\<lambda>p. fst p = i) ?fl = [] \<or>
      (\<exists>t. stream_choices i (unified_flush scrub st) = map (recovery_choice t) (filter (\<lambda>p. fst p = i) ?fl))"
  proof (cases "?fl = []")
    case True
    then show ?thesis by (simp add: unified_flush_def)
  next
    case False
    then have "us_choices st \<noteq> []" by auto
    then obtain r where r: "us_last st = Some r" "frame_choices r \<noteq> []"
      using assms(3) by (auto simp: unified_ready_def)
    then obtain r' where r': "scrub r = Some r'" "frame_choices r' \<noteq> []"
      using assms(1) by (auto simp: scrubs_def)
    then obtain k t cs where k: "a_data r' = Some k" "k_choices k = t # cs"
      by (cases "a_data r'"; cases "frame_choices r'") (auto simp: frame_choices_def)
    have "stream_choices i (unified_flush scrub st) = map (recovery_choice t) (filter (\<lambda>p. fst p = i) ?fl)"
      using False assms(2) r(1) r'(1) k
      by (simp add: unified_flush_def Let_def frame_choices_def recovery_at_index)
    then show ?thesis by blast
  qed
  then show "choice_text content_text i (unified_flush scrub st) = unwrap_or [] (fst ?d)"
    and "choice_text reasoning_text i (unified_flush scrub st) = unwrap_or [] (snd ?d)"
    by (cases ?d; auto simp: choice_text_stream at is_some_iff split: if_splits)+
qed

lemma open_deltas_inv:
  assumes "list_all (\<lambda>c. \<not> carries_parts c \<and> ch_finish c = None) cs"
  shows "unified_inv cs (concat (map (sent_text content_text) (fst (map_accum defer_one unified_default cs))))
     (concat (map (sent_text reasoning_text) (fst (map_accum defer_one unified_default cs))))
     (snd (map_accum defer_one unified_default cs))"
  using assms
proof (induction cs rule: rev_induct)
  case Nil
  then show ?case by (simp add: unified_inv_def unified_default_def)
next
  case (snoc c cs)
  let ?s = "snd (map_accum defer_one unified_default cs)"
  obtain r s' where r: "defer_one ?s c = (r, s')" by (metis surj_pair)
  have "\<not> carries_parts c" "ch_finish c = None" using snoc.prems by simp_all
  from defer_one_open [OF this snoc.IH r] snoc.prems r show ?case
    by (simp add: map_accum_append)
qed

lemma out_text_spread: "out_text ch (concat (map spread rs)) = concat (map (sent_text ch) rs)"
  by (induction rs) (simp_all add: spread_def sent_text_def out_text_def)

text \<open>
  C15.  Turns of unified parsers are settled by the same promise.  Take a stream without errors,
  in which no frame repeats an index, and a choice whose deltas carry no parts and of which only
  the last may finish.  What the client receives for the choice over the whole stream is what the
  reference \<open>unified_settle\<close> gives: once something visible was sent, all content and all
  reasoning, each complete and in order; otherwise the reasoning as the content.
\<close>

theorem unified_reasoning_is_settled:
  assumes "list_all (orderly is_error) frs" "scrubs scrub"
    and "stream_choices i frs = os @ fs" "os @ fs \<noteq> []"
    and "list_all (\<lambda>c. \<not> carries_parts c \<and> ch_finish c = None) os"
    and "fs = [] \<or> (\<exists>c. fs = [c] \<and> \<not> carries_parts c \<and> ch_finish c \<noteq> None)"
  shows "(choice_text content_text i (defer_unified_reasoning_for_nonempty_content is_error scrub frs),
          choice_text reasoning_text i (defer_unified_reasoning_for_nonempty_content is_error scrub frs)) =
         unified_settle (os @ fs)"
proof -
  let ?st = "final (unified_step is_error) unified_init frs"
  let ?m = "map_accum defer_one unified_default"
  have init: "choice_state unified_default (us_choices unified_init) i = unified_default" "\<not> us_stopped unified_init"
    by (simp_all add: unified_init_def choice_state_def om_get_def)
  note stream = unified_stream_choices [where i = i, OF assms(1) init(2) refl, unfolded init(1) assms(3)]
  have out: "choice_text ch i (emitted (unified_step is_error) unified_init frs) =
      concat (map (sent_text ch) (fst (?m (os @ fs))))" for ch
    using stream by (simp add: choice_text_stream flip: out_text_def out_text_spread)
  have "om_get (us_choices ?st) i \<noteq> None"
    by (rule unified_states_present [OF assms(1) init(2)]) (use assms(3,4) in simp)
  then have state: "om_get (us_choices ?st) i = Some (snd (?m (os @ fs)))"
    using stream by (auto simp: choice_state_def)
  have ready: "unified_ready ?st"
    by (rule final_invariant [where I = unified_ready])
      (simp_all add: unified_ready_step, simp add: unified_ready_def unified_init_def om.ordered_none)
  have "\<not> us_stopped ?st" using stream by simp
  note flush = unified_flush_choices [OF assms(2) this ready state]
  note open_inv = open_deltas_inv [OF assms(5)]
  from assms(6) consider (eof) "fs = []" | (terminal) c where "fs = [c]" "\<not> carries_parts c" "ch_finish c \<noteq> None" by blast
  then show ?thesis
  proof cases
    case eof
    with flush out unified_drain_settles(1) [OF open_inv] show ?thesis
      by (simp add: defer_unified_reasoning_for_nonempty_content_def run_stage_def)
  next
    case terminal
    obtain r s' where r: "defer_one (snd (?m os)) c = (r, s')" by (metis surj_pair)
    have snoc: "?m (os @ fs) = (fst (?m os) @ [r], s')"
      by (simp add: terminal(1) map_accum_append r)
    note last_one = defer_one_terminal [OF terminal(2,3) open_inv r]
    have "fst (unified_drain (snd (?m (os @ fs)))) = (None, None)"
      using last_one(2) snoc by (simp add: unified_drain_def)
    with flush out last_one(1) snoc terminal(1) show ?thesis
      by (simp add: defer_unified_reasoning_for_nonempty_content_def run_stage_def)
  qed
qed

text \<open>A turn whose parser reported everything as reasoning.\<close>

definition reasoning_choice :: "string \<Rightarrow> finish_reason option \<Rightarrow> choice" where
  "reasoning_choice t fin = set_texts None (Some t) (sample_choice [] fin)"

definition reasoning_chunk :: "string \<Rightarrow> finish_reason option \<Rightarrow> frame" where
  "reasoning_chunk t fin = frame_of \<lparr>k_choices = [reasoning_choice t fin], k_usage = None, k_nvext = None, k_metrics = None\<rparr>"

theorem unified_reasoning_is_settled_witness:
  "(choice_text content_text 0 (defer_unified_reasoning_for_nonempty_content (\<lambda>_. False) Some
      [reasoning_chunk ''4'' None, reasoning_chunk ''2'' (Some FR_Stop)]),
    choice_text reasoning_text 0 (defer_unified_reasoning_for_nonempty_content (\<lambda>_. False) Some
      [reasoning_chunk ''4'' None, reasoning_chunk ''2'' (Some FR_Stop)])) = (''42'', [])"
proof -
  let ?frs = "[reasoning_chunk ''4'' None, reasoning_chunk ''2'' (Some FR_Stop)]"
  have cs: "stream_choices 0 ?frs = [reasoning_choice ''4'' None] @ [reasoning_choice ''2'' (Some FR_Stop)]"
    by (simp add: reasoning_chunk_def reasoning_choice_def sample_choice_def frame_choices_def with_index_def)
  have "list_all (orderly (\<lambda>_. False)) ?frs"
    by (simp add: orderly_def reasoning_chunk_def frame_choices_def)
  moreover have "scrubs Some" by (simp add: scrubs_def)
  moreover have "list_all (\<lambda>c. \<not> carries_parts c \<and> ch_finish c = None) [reasoning_choice ''4'' None]"
    "\<not> carries_parts (reasoning_choice ''2'' (Some FR_Stop))" "ch_finish (reasoning_choice ''2'' (Some FR_Stop)) \<noteq> None"
    by (simp_all add: reasoning_choice_def sample_choice_def carries_parts_def)
  moreover have "\<not> blank ''42''" by code_simp
  then have "unified_settle ([reasoning_choice ''4'' None] @ [reasoning_choice ''2'' (Some FR_Stop)]) = (''42'', [])"
    by (simp add: unified_settle_def visible_delta_def has_tool_calls_def reasoning_choice_def sample_choice_def out_text_def
        content_text_def reasoning_text_def)
  ultimately show ?thesis
    using unified_reasoning_is_settled [OF _ _ cs, of "\<lambda>_. False" Some] by simp
qed

end
