(* ===== verification/Strip_Reasoning.thy ===== *)
theory Strip_Reasoning
  imports Per_Choice Utf8
begin

text \<open>
  \<open>strip_leading_reasoning_start_from_stream\<close> (\<open>fix/dynamo/preprocessor.rs\<close>): when
  reasoning is off, a leading \<open><think>\<close> is removed from each choice, also when it arrives
  in pieces.  Text is held back while it may still become the marker.  The clean-up of the
  metadata of a synthetic chunk is code outside the repository.
\<close>

section \<open>The stage\<close>

record strip_choice =
  sb_buffer :: string
  sb_decided :: bool

definition strip_default :: strip_choice where
  "strip_default = \<lparr>sb_buffer = [], sb_decided = False\<rparr>"

definition take_undecided_buffer :: "strip_choice \<Rightarrow> string option \<times> strip_choice" where
  "take_undecided_buffer s =
     (if sb_decided s \<or> sb_buffer s = [] then (None, s)
      else (Some (sb_buffer s), s\<lparr>sb_decided := True, sb_buffer := []\<rparr>))"

definition set_content :: "content option \<Rightarrow> choice \<Rightarrow> choice" where
  "set_content x c = c\<lparr>ch_delta := (ch_delta c)\<lparr>d_content := x\<rparr>\<rparr>"

definition may_become :: "string \<Rightarrow> string \<Rightarrow> bool" where
  "may_become token trimmed = (trimmed = [] \<or> prefix trimmed token \<and> length trimmed < length token)"

definition strip_one :: "string \<Rightarrow> strip_choice \<Rightarrow> choice \<Rightarrow> choice \<times> strip_choice" where
  "strip_one token s c =
     (case d_content (ch_delta c) of
        Some (Text text) \<Rightarrow>
          if sb_decided s
          then (set_content (map_option Text (nonempty text)) c, s\<lparr>sb_buffer := []\<rparr>)
          else
            let buffer = sb_buffer s @ text; trimmed = trim_start buffer in
            if may_become token trimmed then (set_content None c, s\<lparr>sb_buffer := buffer\<rparr>)
            else
              let output = (case strip_prefix token trimmed of Some r \<Rightarrow> r | None \<Rightarrow> buffer) in
              (set_content (map_option Text (nonempty output)) c, s\<lparr>sb_decided := True, sb_buffer := []\<rparr>)
      | other \<Rightarrow>
          (case take_undecided_buffer s of
             (Some b, s') \<Rightarrow> (set_content (Some (Text b)) c, s')
           | (None, s') \<Rightarrow> (set_content other c, s')))"

record strip_state =
  ss_choices :: "(u32, strip_choice) omap"
  ss_last :: "frame option"

definition strip_init :: strip_state where
  "strip_init = \<lparr>ss_choices = [], ss_last = None\<rparr>"

definition strip_step :: "string \<Rightarrow> (strip_state, frame, frame) stage_step" where
  "strip_step token st fr =
     (case a_data fr of
        None \<Rightarrow> ([fr], st)
      | Some _ \<Rightarrow>
          let (fr', states) = map_choices (strip_one token) strip_default (ss_choices st) fr in
          ([fr'], \<lparr>ss_choices = states, ss_last = if frame_choices fr' \<noteq> [] then Some fr' else ss_last st\<rparr>))"

definition drain_undecided_buffers :: "(u32, strip_choice) omap \<Rightarrow> (u32 \<times> string) list" where
  "drain_undecided_buffers states =
     List.map_filter (\<lambda>(i, s). map_option (\<lambda>b. (i, b)) (fst (take_undecided_buffer s))) states"

definition strip_template :: "choice \<Rightarrow> choice" where
  "strip_template c =
     c\<lparr>ch_delta := (ch_delta c)\<lparr>d_role := None, d_tool_calls := None, d_function_call := None,
          d_refusal := None, d_reasoning := None\<rparr>, ch_finish := None, ch_logprobs := None\<rparr>"

definition strip_flush :: "(frame \<Rightarrow> frame) \<Rightarrow> strip_state \<Rightarrow> frame list" where
  "strip_flush scrub st =
     (let flushed = drain_undecided_buffers (ss_choices st) in
      if flushed = [] then []
      else case ss_last st of
        None \<Rightarrow> []
      | Some r \<Rightarrow>
          let r' = scrub r in
          (case a_data r' of
             None \<Rightarrow> []
           | Some k \<Rightarrow>
               (case k_choices k of
                  [] \<Rightarrow> []
                | c # _ \<Rightarrow>
                    [r'\<lparr>a_data := Some (k\<lparr>k_choices :=
                       map (\<lambda>(i, b). set_content (Some (Text b)) ((strip_template c)\<lparr>ch_index := i\<rparr>)) flushed\<rparr>)\<rparr>])))"

definition strip_leading_reasoning_start :: "(frame \<Rightarrow> frame) \<Rightarrow> string \<Rightarrow> frame list \<Rightarrow> frame list" where
  "strip_leading_reasoning_start scrub token frs =
     run_stage (strip_step token) (strip_flush scrub) strip_init frs"

section \<open>The reference\<close>

definition strip_text :: "string \<Rightarrow> string \<Rightarrow> string" where
  "strip_text token t = (case strip_prefix token (trim_start t) of Some r \<Rightarrow> r | None \<Rightarrow> t)"

text \<open>The state of a choice after the text \<open>t\<close>, when \<open>out\<close> has been yielded for it.\<close>

definition strip_inv :: "string \<Rightarrow> string \<Rightarrow> string \<Rightarrow> strip_choice \<Rightarrow> bool" where
  "strip_inv token t out s =
     (whole_chars t \<and>
      (if sb_decided s then out = strip_text token t \<and> \<not> may_become token (trim_start t)
       else out = [] \<and> sb_buffer s = t \<and> may_become token (trim_start t)))"

lemma strip_text_grows:
  assumes "whole_chars t" "\<not> may_become token (trim_start t)"
  shows "strip_text token (t @ u) = strip_text token t @ u" "\<not> may_become token (trim_start (t @ u))"
proof -
  let ?x = "trim_start t"
  have x: "?x \<noteq> []" "\<not> (prefix ?x token \<and> length ?x < length token)"
    using assms(2) by (auto simp: may_become_def)
  have app: "trim_start (t @ u) = ?x @ u" by (rule trim_start_append [OF assms(1) x(1)])
  have pre: "prefix token (?x @ u) \<longleftrightarrow> prefix token ?x"
  proof
    assume "prefix token (?x @ u)"
    then consider "prefix token ?x" | "prefix ?x token" by (auto simp: prefix_append elim: prefix_same_cases)
    then show "prefix token ?x"
    proof cases
      case 2
      then have "length token \<le> length ?x" using x(2) by simp
      with 2 show ?thesis by (metis prefix_length_le prefix_order.antisym prefix_length_prefix prefix_order.refl)
    qed
  qed simp
  show "strip_text token (t @ u) = strip_text token t @ u"
  proof (cases "prefix token ?x")
    case True
    then have "length token \<le> length ?x" by (rule prefix_length_le)
    with True pre show ?thesis by (simp add: strip_text_def strip_prefix_def app)
  next
    case False
    with pre show ?thesis by (simp add: strip_text_def strip_prefix_def app)
  qed
  show "\<not> may_become token (trim_start (t @ u))"
  proof
    assume "may_become token (trim_start (t @ u))"
    then have "prefix (?x @ u) token" "length (?x @ u) < length token" using x(1) by (auto simp: may_become_def app)
    then show False using x(2) by (auto dest: append_prefixD)
  qed
qed

lemma strip_one_keeps_index: "ch_index (fst (strip_one token s c)) = ch_index c"
  by (auto simp: strip_one_def set_content_def Let_def split: option.splits content.splits prod.splits)

lemma content_text_set: "content_text (ch_delta (set_content (map_option Text (nonempty t)) c)) = t"
  "content_text (ch_delta (set_content None c)) = []"
  by (cases t; simp add: content_text_def set_content_def)+

lemma strip_one_inv:
  assumes "strip_inv token t out s" "d_content (ch_delta c) = Some (Text u)" "whole_chars u"
  shows "strip_inv token (t @ u) (out @ content_text (ch_delta (fst (strip_one token s c)))) (snd (strip_one token s c))"
proof (cases "sb_decided s")
  case True
  then show ?thesis
    using assms strip_text_grows [of t token u]
    by (simp add: strip_inv_def strip_one_def content_text_set whole_chars_append)
next
  case False
  then have buf: "sb_buffer s = t" "out = []" using assms(1) by (simp_all add: strip_inv_def)
  have w: "whole_chars (t @ u)" using assms(1,3) by (simp add: strip_inv_def whole_chars_append)
  show ?thesis
  proof (cases "may_become token (trim_start (t @ u))")
    case True
    then show ?thesis
      using False buf w assms(2) by (simp add: strip_inv_def strip_one_def Let_def content_text_set)
  next
    case nb: False
    then show ?thesis
      using False buf w assms(2)
      by (simp add: strip_inv_def strip_one_def Let_def content_text_set strip_text_def)
  qed
qed

text \<open>The text pieces of a list of choices.\<close>

definition text_choice :: "choice \<Rightarrow> bool" where
  "text_choice c = (case d_content (ch_delta c) of Some (Text u) \<Rightarrow> whole_chars u | _ \<Rightarrow> False)"

lemma strip_all_inv:
  assumes "list_all text_choice cs" "strip_inv token t out s"
  shows "strip_inv token (t @ concat (map (\<lambda>c. content_text (ch_delta c)) cs))
     (out @ concat (map (\<lambda>c. content_text (ch_delta c)) (fst (map_accum (strip_one token) s cs))))
     (snd (map_accum (strip_one token) s cs))"
  using assms
proof (induction cs arbitrary: t out s)
  case Nil
  then show ?case by simp
next
  case (Cons c cs)
  obtain u where u: "d_content (ch_delta c) = Some (Text u)" "whole_chars u"
    using Cons.prems(1) by (auto simp: text_choice_def split: option.splits content.splits)
  have "strip_inv token (t @ u) (out @ content_text (ch_delta (fst (strip_one token s c)))) (snd (strip_one token s c))"
    by (rule strip_one_inv [OF Cons.prems(2) u])
  from Cons.IH [OF _ this] Cons.prems(1) u show ?case
    by (simp add: split_beta Let_def content_text_def)
qed

section \<open>The whole stream\<close>

lemma strip_step_simps:
  "fst (strip_step token st fr) = [fst (map_choices (strip_one token) strip_default (ss_choices st) fr)]"
  "ss_choices (snd (strip_step token st fr)) = snd (map_choices (strip_one token) strip_default (ss_choices st) fr)"
  by (simp_all add: strip_step_def map_choices_def split_beta Let_def split: option.split)

lemma strip_emitted:
  "emitted (strip_step token) st frs = fst (map_accum (map_choices (strip_one token) strip_default) (ss_choices st) frs)
   \<and> ss_choices (final (strip_step token) st frs) =
       snd (map_accum (map_choices (strip_one token) strip_default) (ss_choices st) frs)"
  by (induction frs arbitrary: st) (simp_all add: strip_step_simps split_beta Let_def)

text \<open>While a state is kept, an envelope with a choice is at hand for the flush.\<close>

definition strip_ready :: "strip_state \<Rightarrow> bool" where
  "strip_ready st =
     (om_ordered (ss_choices st) \<and>
      (ss_choices st = [] \<or> (\<exists>r. ss_last st = Some r \<and> frame_choices r \<noteq> [])))"

lemma strip_ready_step:
  assumes "strip_ready st"
  shows "strip_ready (snd (strip_step token st fr))"
proof (cases "a_data fr")
  case None
  with assms show ?thesis by (simp add: strip_step_def)
next
  case (Some k)
  let ?m = "map_choices (strip_one token) strip_default (ss_choices st) fr"
  have len: "length (frame_choices (fst ?m)) = length (frame_choices fr)"
    by (simp add: map_choices_results)
  have st': "snd (strip_step token st fr) =
      \<lparr>ss_choices = snd ?m, ss_last = if frame_choices (fst ?m) \<noteq> [] then Some (fst ?m) else ss_last st\<rparr>"
    using Some by (simp add: strip_step_def split_beta Let_def)
  have "om_ordered (snd ?m)"
    using assms by (simp add: map_choices_results per_choice_ordered strip_ready_def)
  moreover have "snd ?m = ss_choices st" if "frame_choices fr = []"
    using that by (simp add: map_choices_results)
  ultimately show ?thesis
    using assms len unfolding st' strip_ready_def by auto
qed

lemma drain_at_index:
  assumes "om_ordered states"
  shows "concat (map (\<lambda>(j, b). if j = i then b else []) (drain_undecided_buffers states)) =
     (let s = choice_state strip_default states i in if sb_decided s then [] else sb_buffer s)"
  using assms
proof (induction states)
  case Nil
  then show ?case
    by (simp add: drain_undecided_buffers_def choice_state_def om_get_def strip_default_def map_filter_simps)
next
  case (Cons e states)
  obtain j s where e: "e = (j, s)" by force
  have ord: "om_ordered states" and lt: "\<And>k. k \<in> fst ` set states \<Longrightarrow> j < k"
    using Cons.prems by (auto simp: om_ordered_def e)
  have tail: "concat (map (\<lambda>(k, b). if k = i then b else []) (drain_undecided_buffers states)) = []" if "i = j"
  proof -
    have "om_get states i = None"
      using lt that by (auto simp: om_get_def map_of_eq_None_iff)
    with Cons.IH [OF ord] show ?thesis by (simp add: choice_state_def strip_default_def)
  qed
  have "drain_undecided_buffers (e # states) =
      (case fst (take_undecided_buffer s) of Some b \<Rightarrow> [(j, b)] | None \<Rightarrow> []) @ drain_undecided_buffers states"
    by (simp add: drain_undecided_buffers_def map_filter_simps e split: option.split)
  then have split: "concat (map (\<lambda>(k, b). if k = i then b else []) (drain_undecided_buffers (e # states))) =
      (if j = i \<and> \<not> sb_decided s then sb_buffer s else []) @
      concat (map (\<lambda>(k, b). if k = i then b else []) (drain_undecided_buffers states))"
    by (auto simp: take_undecided_buffer_def)
  show ?case
  proof (cases "j = i")
    case True
    with split tail show ?thesis by (simp add: e choice_state_def om_get_def Let_def)
  next
    case False
    with split Cons.IH [OF ord] show ?thesis by (simp add: e choice_state_def om_get_def)
  qed
qed

lemma strip_flush_text:
  assumes "strip_ready st" "keeps_choices scrub"
  shows "choice_text content_text i (strip_flush scrub st) =
     (let s = choice_state strip_default (ss_choices st) i in if sb_decided s then [] else sb_buffer s)"
proof (cases "drain_undecided_buffers (ss_choices st) = []")
  case True
  then show ?thesis
    using drain_at_index [of "ss_choices st" i] assms(1) by (simp add: strip_flush_def strip_ready_def)
next
  case False
  then have "ss_choices st \<noteq> []"
    by (auto simp: drain_undecided_buffers_def map_filter_simps)
  then obtain r where r: "ss_last st = Some r" "frame_choices r \<noteq> []"
    using assms(1) by (auto simp: strip_ready_def)
  have "frame_choices (scrub r) \<noteq> []" using assms(2) r(2) by (simp add: keeps_choices_def)
  then obtain k c cs where k: "a_data (scrub r) = Some k" "k_choices k = c # cs"
    by (cases "a_data (scrub r)"; cases "frame_choices (scrub r)") (auto simp: frame_choices_def)
  let ?put = "\<lambda>(j, b). set_content (Some (Text b)) ((strip_template c)\<lparr>ch_index := j\<rparr>)"
  have put: "(if ch_index (?put p) = i then content_text (ch_delta (?put p)) else []) =
      (case p of (j, b) \<Rightarrow> if j = i then b else [])" for p
    by (cases p) (simp add: set_content_def content_text_def)
  have "strip_flush scrub st = [(scrub r)\<lparr>a_data := Some (k\<lparr>k_choices :=
      map ?put (drain_undecided_buffers (ss_choices st))\<rparr>)\<rparr>]"
    using False r(1) k by (simp add: strip_flush_def Let_def)
  then have "choice_text content_text i (strip_flush scrub st) =
      concat (map (\<lambda>(j, b). if j = i then b else []) (drain_undecided_buffers (ss_choices st)))"
    by (simp add: choice_text_def frame_choices_def comp_def put del: split_paired_All)
  then show ?thesis using drain_at_index [of "ss_choices st" i] assms(1) by (simp add: strip_ready_def)
qed


definition sample_text_frame :: "string \<Rightarrow> frame" where
  "sample_text_frame t = frame_of
     \<lparr>k_choices = [\<lparr>ch_index = 0, ch_delta = \<lparr>d_role = None, d_content = Some (Text t), d_reasoning = None,
        d_tool_calls = None, d_function_call = None, d_refusal = None\<rparr>, ch_finish = None, ch_logprobs = None\<rparr>],
      k_usage = None, k_nvext = None, k_metrics = None\<rparr>"


text \<open>
  A delta that is not text releases what is held back.  When the delta carries content parts,
  they are overwritten by the released text, and lost.
\<close>

lemma strip_drops_parts:
  assumes "\<not> sb_decided s" "sb_buffer s \<noteq> []" "d_content (ch_delta c) = Some (Parts ps)"
  shows "d_content (ch_delta (fst (strip_one token s c))) = Some (Text (sb_buffer s))"
  using assms by (simp add: strip_one_def take_undecided_buffer_def set_content_def)

end
