(* ===== verification/Usage_Stages.thy ===== *)
theory Usage_Stages
  imports Per_Choice
begin

text \<open>
  The stages of the chat stream that look at whole chunks (\<open>fix/dynamo/preprocessor.rs\<close>):
  the estimate of reasoning tokens, the tool-call policy, the role of each choice's first delta,
  and the usage trailer that is held back to the end.
\<close>

section \<open>Reasoning usage\<close>

text \<open>\<open>ReasoningUsageEstimator\<close>; the set of active choices is a list without repetitions.\<close>

record estimator =
  es_total :: u32
  es_active :: "u32 list"

definition estimator_default :: estimator where
  "estimator_default = \<lparr>es_total = 0, es_active = []\<rparr>"

definition choice_has_visible_output :: "choice \<Rightarrow> bool" where
  "choice_has_visible_output c =
     (is_some (d_content (ch_delta c)) \<or> is_some_and (\<lambda>calls. calls \<noteq> []) (d_tool_calls (ch_delta c)))"

definition counts_as_reasoning :: "estimator \<Rightarrow> chunk \<Rightarrow> bool" where
  "counts_as_reasoning e k =
     (let has_reasoning = list_ex (\<lambda>c. is_some (d_reasoning (ch_delta c))) (k_choices k);
          active_without_visible_output =
            list_ex (\<lambda>c. ch_index c \<in> set (es_active e) \<and> \<not> choice_has_visible_output c) (k_choices k);
          usage_chunk_while_reasoning = (k_choices k = [] \<and> es_active e \<noteq> []) in
      has_reasoning \<or> active_without_visible_output \<or> usage_chunk_while_reasoning)"

definition update_active :: "choice \<Rightarrow> u32 list \<Rightarrow> u32 list" where
  "update_active c active =
     (if is_some (d_reasoning (ch_delta c)) then List.insert (ch_index c) active
      else if choice_has_visible_output c then removeAll (ch_index c) active
      else active)"

definition estimator_observe :: "chunk \<Rightarrow> estimator \<Rightarrow> estimator" where
  "estimator_observe k e =
     (let token_count = u32_clamp (unwrap_or 0 (k_metrics k)) in
      \<lparr>es_total = (if 0 < token_count \<and> counts_as_reasoning e k
                   then u32_saturating_add (es_total e) token_count else es_total e),
       es_active = fold update_active (k_choices k) (es_active e)\<rparr>)"

definition estimator_annotate :: "estimator \<Rightarrow> usage \<Rightarrow> usage" where
  "estimator_annotate e u =
     (let reasoning = unwrap_or None (u_details u) in
      u\<lparr>u_details := Some (if unwrap_or 0 reasoning = 0 then Some (es_total e) else reasoning)\<rparr>)"

definition usage_step :: "estimator \<Rightarrow> frame \<Rightarrow> frame \<times> estimator" where
  "usage_step e fr =
     (case a_data fr of
        None \<Rightarrow> (fr, e)
      | Some k \<Rightarrow>
          let e' = estimator_observe k e in
          (fr\<lparr>a_data := Some (k\<lparr>k_usage := map_option (estimator_annotate e') (k_usage k)\<rparr>)\<rparr>, e'))"

definition annotate_reasoning_usage :: "frame list \<Rightarrow> frame list" where
  "annotate_reasoning_usage frs = scan usage_step estimator_default frs"

section \<open>Tool-call policy and roles\<close>

definition drop_tool_calls :: "choice \<Rightarrow> choice" where
  "drop_tool_calls c =
     c\<lparr>ch_delta := (ch_delta c)\<lparr>d_tool_calls := None\<rparr>,
       ch_finish := if ch_finish c = Some FR_ToolCalls then Some FR_Stop else ch_finish c\<rparr>"

definition map_frame_choices :: "(choice \<Rightarrow> choice) \<Rightarrow> frame \<Rightarrow> frame" where
  "map_frame_choices f fr = fr\<lparr>a_data := map_option (\<lambda>k. k\<lparr>k_choices := map f (k_choices k)\<rparr>) (a_data fr)\<rparr>"

definition apply_tool_call_response_policy :: "bool \<Rightarrow> frame list \<Rightarrow> frame list" where
  "apply_tool_call_response_policy parsing_enabled frs =
     (if parsing_enabled then frs else map (map_frame_choices drop_tool_calls) frs)"

definition role_step :: "unit option \<Rightarrow> choice \<Rightarrow> choice \<times> unit option" where
  "role_step emitted_before c =
     (c\<lparr>ch_delta := (ch_delta c)\<lparr>d_role := then_some (emitted_before = None) Role_Assistant\<rparr>\<rparr>, Some ())"

definition normalize_chat_stream_roles :: "frame list \<Rightarrow> frame list" where
  "normalize_chat_stream_roles frs = fst (map_accum (map_choices role_step None) [] frs)"

section \<open>The usage trailer\<close>

record hold_state =
  hs_pending :: "frame option"
  hs_failed :: bool

definition hold_init :: hold_state where
  "hold_init = \<lparr>hs_pending = None, hs_failed = False\<rparr>"

definition usage_only :: "frame \<Rightarrow> bool" where
  "usage_only fr = is_some_and (\<lambda>k. k_choices k = [] \<and> is_some (k_usage k)) (a_data fr)"

definition hold_step :: "(hold_state, frame, frame) stage_step" where
  "hold_step st fr =
     (if is_some (a_error fr) then ([fr], \<lparr>hs_pending = None, hs_failed = True\<rparr>)
      else if usage_only fr
      then ((case hs_pending st of Some previous \<Rightarrow> [previous] | None \<Rightarrow> []), st\<lparr>hs_pending := Some fr\<rparr>)
      else ([fr], st))"

definition hold_flush :: "hold_state \<Rightarrow> frame list" where
  "hold_flush st = (if \<not> hs_failed st then (case hs_pending st of Some u \<Rightarrow> [u] | None \<Rightarrow> []) else [])"

definition hold_usage_until_stream_end :: "frame list \<Rightarrow> frame list" where
  "hold_usage_until_stream_end frs = run_stage hold_step hold_flush hold_init frs"

section \<open>Lemmas\<close>

text \<open>The total is the sum of the counted chunks, capped.\<close>

primrec counted :: "estimator \<Rightarrow> chunk list \<Rightarrow> nat" where
  "counted e [] = 0"
| "counted e (k # ks) =
     (if counts_as_reasoning e k then unat (u32_clamp (unwrap_or 0 (k_metrics k))) else 0)
     + counted (estimator_observe k e) ks"

lemma estimator_total_step:
  "unat (es_total (estimator_observe k e)) =
     min (unat (es_total e) + (if counts_as_reasoning e k then unat (u32_clamp (unwrap_or 0 (k_metrics k))) else 0))
       (2 ^ 32 - 1)"
proof -
  have "unat (es_total e) \<le> 2 ^ 32 - 1"
    using unsigned_less [of "es_total e", where ?'a = nat] by simp
  moreover have "unat (u32_clamp n) = 0" if "\<not> 0 < u32_clamp n" for n
    using that by (simp add: word_gt_0)
  ultimately show ?thesis
    by (simp add: estimator_observe_def Let_def unat_u32_saturating_add)
qed

lemma estimator_total:
  "unat (es_total (fold estimator_observe ks e)) = min (unat (es_total e) + counted e ks) (2 ^ 32 - 1)"
proof (induction ks arbitrary: e)
  case Nil
  then show ?case using unsigned_less [of "es_total e", where ?'a = nat] by simp
next
  case (Cons k ks)
  then show ?case by (simp add: estimator_total_step)
qed

lemma usage_scan_state:
  "scan usage_step e (frs @ [fr]) =
     scan usage_step e frs @ [fst (usage_step (fold estimator_observe (List.map_filter a_data frs) e) fr)]"
proof (induction frs arbitrary: e)
  case Nil
  then show ?case by (simp add: map_filter_simps)
next
  case (Cons f frs)
  then show ?case by (cases "a_data f") (simp_all add: usage_step_def map_filter_simps Let_def)
qed

lemma map_frame_choices_choices: "frame_choices (map_frame_choices f fr) = map f (frame_choices fr)"
  by (simp add: map_frame_choices_def frame_choices_def split: option.split)

text \<open>
  Held usage: what is not usage passes at once, and the usage chunks come out in order; both are
  conserved while no transport error occurs.
\<close>

interpretation hold_rest: buffering_stage hold_step hold_flush
  "\<lambda>fr. if usage_only fr then [] else [fr]" "\<lambda>fr. if usage_only fr then [] else [fr]" "\<lambda>_. []"
  "\<lambda>st. \<not> hs_failed st \<and> (\<forall>u. hs_pending st = Some u \<longrightarrow> usage_only u)" "\<lambda>fr. a_error fr = None"
  by unfold_locales (auto simp: hold_step_def hold_flush_def split: option.splits)

interpretation hold_usage: buffering_stage hold_step hold_flush
  "\<lambda>fr. if usage_only fr then [fr] else []" "\<lambda>fr. if usage_only fr then [fr] else []"
  "\<lambda>st. case hs_pending st of Some u \<Rightarrow> [u] | None \<Rightarrow> []"
  "\<lambda>st. \<not> hs_failed st \<and> (\<forall>u. hs_pending st = Some u \<longrightarrow> usage_only u)" "\<lambda>fr. a_error fr = None"
  by unfold_locales (auto simp: hold_step_def hold_flush_def split: option.splits)

lemma concat_filter: "concat (map (\<lambda>x. if P x then [x] else []) xs) = filter P xs"
  "concat (map (\<lambda>x. if P x then [] else [x]) xs) = filter (\<lambda>x. \<not> P x) xs"
  by (induction xs) simp_all

lemma hold_good_init: "\<not> hs_failed hold_init \<and> (\<forall>u. hs_pending hold_init = Some u \<longrightarrow> usage_only u)"
  by (simp add: hold_init_def)

lemma hold_last:
  assumes "\<forall>u. hs_pending st = Some u \<longrightarrow> usage_only u" "\<not> hs_failed st" "list_all (\<lambda>fr. a_error fr = None) frs"
    and "hs_pending st \<noteq> None \<or> list_ex usage_only frs"
  shows "\<exists>u. hs_pending (final hold_step st frs) = Some u \<and> usage_only u \<and> \<not> hs_failed (final hold_step st frs)"
  using assms
proof (induction frs arbitrary: st)
  case Nil
  then show ?case by auto
next
  case (Cons f frs)
  then show ?case
    by (auto simp: hold_step_def intro!: Cons.IH)
qed

section \<open>Properties\<close>

text \<open>
  The usage trailer comes last.  Without a transport error, no frame is lost or doubled:
  the frames that are not usage-only keep their order, so do the usage-only frames, and if there
  is a usage-only frame then the stream ends with the last one of them, so that nothing recovered
  at the end of the stream follows it.
\<close>

lemma usage_trailer_is_last:
  assumes "list_all (\<lambda>fr. a_error fr = None) frs"
  shows "filter (\<lambda>fr. \<not> usage_only fr) (hold_usage_until_stream_end frs) = filter (\<lambda>fr. \<not> usage_only fr) frs
     \<and> filter usage_only (hold_usage_until_stream_end frs) = filter usage_only frs
     \<and> (list_ex usage_only frs \<longrightarrow> usage_only (last (hold_usage_until_stream_end frs)))"
proof -
  let ?out = "hold_usage_until_stream_end frs"
  have "filter (\<lambda>fr. \<not> usage_only fr) ?out = filter (\<lambda>fr. \<not> usage_only fr) frs"
    using hold_rest.conserves [OF hold_good_init assms]
    by (simp add: hold_usage_until_stream_end_def concat_filter)
  moreover have "filter usage_only ?out = filter usage_only frs"
    using hold_usage.conserves [OF hold_good_init assms]
    by (simp add: hold_usage_until_stream_end_def concat_filter hold_init_def)
  moreover have "usage_only (last ?out)" if "list_ex usage_only frs"
  proof -
    have "\<exists>u. hs_pending (final hold_step hold_init frs) = Some u \<and> usage_only u \<and> \<not> hs_failed (final hold_step hold_init frs)"
      by (rule hold_last) (use assms that hold_good_init in auto)
    then show ?thesis by (auto simp: hold_usage_until_stream_end_def run_stage_def hold_flush_def)
  qed
  ultimately show ?thesis by blast
qed

definition sample_usage_frame :: frame where
  "sample_usage_frame = frame_of
     \<lparr>k_choices = [], k_usage = Some \<lparr>u_prompt = 1, u_completion = 1, u_cached = None, u_details = None\<rparr>,
      k_nvext = None, k_metrics = None\<rparr>"

definition sample_plain_frame :: frame where
  "sample_plain_frame = frame_of \<lparr>k_choices = [], k_usage = None, k_nvext = None, k_metrics = None\<rparr>"

lemma usage_trailer_is_last_sample:
  "usage_only (last (hold_usage_until_stream_end [sample_usage_frame, sample_plain_frame]))"
proof -
  have "list_all (\<lambda>fr. a_error fr = None) [sample_usage_frame, sample_plain_frame]"
    "list_ex usage_only [sample_usage_frame, sample_plain_frame]"
    by (simp_all add: sample_usage_frame_def sample_plain_frame_def usage_only_def)
  then show ?thesis using usage_trailer_is_last by blast
qed

lemma role_steps:
  "map (\<lambda>c. d_role (ch_delta c)) (fst (map_accum role_step s cs)) =
     (if s = None \<and> cs \<noteq> [] then Some Role_Assistant # replicate (length cs - 1) None else replicate (length cs) None)"
proof (induction cs arbitrary: s)
  case Nil
  then show ?case by simp
next
  case (Cons c cs)
  then show ?case by (auto simp: role_step_def split_beta Let_def)
qed

text \<open>
  Roles: for every choice, the first delta that reaches the client carries the assistant
  role and no later one carries a role, whatever roles the upstream deltas had and however the
  choices are interleaved.
\<close>

lemma first_delta_carries_role:
  "map (\<lambda>c. d_role (ch_delta c)) (stream_choices i (normalize_chat_stream_roles frs)) =
     (if stream_choices i frs = [] then []
      else Some Role_Assistant # replicate (length (stream_choices i frs) - 1) None)"
proof -
  have "stream_choices i (normalize_chat_stream_roles frs) = fst (map_accum role_step None (stream_choices i frs))"
    using stream_isolated [of role_step i None "[]" frs]
    by (simp add: normalize_chat_stream_roles_def role_step_def choice_state_def om_get_def)
  then show ?thesis by (simp add: role_steps)
qed

text \<open>
  The tool-call policy fails closed: when the request does not permit tool calls, no frame
  carries one, no choice finishes with \<open>tool_calls\<close>, and text, reasoning and the number of
  choices of every frame are what they were.
\<close>

lemma tool_calls_suppressed:
  "list_all (\<lambda>fr. list_all (\<lambda>c. d_tool_calls (ch_delta c) = None \<and> ch_finish c \<noteq> Some FR_ToolCalls) (frame_choices fr))
     (apply_tool_call_response_policy False frs)
   \<and> map (\<lambda>fr. map (\<lambda>c. (ch_index c, d_content (ch_delta c), d_reasoning (ch_delta c))) (frame_choices fr))
       (apply_tool_call_response_policy False frs) =
     map (\<lambda>fr. map (\<lambda>c. (ch_index c, d_content (ch_delta c), d_reasoning (ch_delta c))) (frame_choices fr)) frs
   \<and> apply_tool_call_response_policy True frs = frs"
  by (auto simp: apply_tool_call_response_policy_def map_frame_choices_choices drop_tool_calls_def
      list_all_iff comp_def)

text \<open>
  Reasoning usage: the count reported with a usage is the sum of the tokens of the chunks
  that were counted up to it, capped at the largest 32-bit value instead of wrapping, and it is
  filled in only where the backend reported no positive count of its own.
\<close>

lemma reasoning_usage_reported:
  assumes "a_data fr = Some k" "k_usage k = Some u"
  shows "\<exists>u'. map_option k_usage (a_data (last (annotate_reasoning_usage (frs @ [fr])))) = Some (Some u')
     \<and> (if unwrap_or 0 (unwrap_or None (u_details u)) = 0
        then map_option (map_option unat) (u_details u') =
               Some (Some (min (counted estimator_default (List.map_filter a_data frs @ [k])) (2 ^ 32 - 1)))
        else u_details u' = u_details u)"
proof -
  let ?ks = "List.map_filter a_data frs"
  let ?e = "estimator_observe k (fold estimator_observe ?ks estimator_default)"
  have "last (annotate_reasoning_usage (frs @ [fr])) = fst (usage_step (fold estimator_observe ?ks estimator_default) fr)"
    by (simp add: annotate_reasoning_usage_def usage_scan_state)
  then have last: "map_option k_usage (a_data (last (annotate_reasoning_usage (frs @ [fr])))) =
      Some (Some (estimator_annotate ?e u))"
    using assms by (simp add: usage_step_def Let_def)
  have "?e = fold estimator_observe (?ks @ [k]) estimator_default" by simp
  then have "unat (es_total ?e) = min (counted estimator_default (?ks @ [k])) (2 ^ 32 - 1)"
    using estimator_total [of "?ks @ [k]" estimator_default] by (simp add: estimator_default_def)
  then show ?thesis
    by (intro exI [of _ "estimator_annotate ?e u"] conjI last)
      (cases "u_details u", auto simp: estimator_annotate_def Let_def)
qed

lemma reasoning_usage_reported_sample:
  "\<exists>u'. map_option k_usage (a_data (last (annotate_reasoning_usage ([] @ [sample_usage_frame])))) = Some (Some u')
     \<and> map_option (map_option unat) (u_details u') = Some (Some 0)"
proof -
  have "a_data sample_usage_frame = Some \<lparr>k_choices = [], k_usage = Some \<lparr>u_prompt = 1, u_completion = 1,
      u_cached = None, u_details = None\<rparr>, k_nvext = None, k_metrics = None\<rparr>"
    by (simp add: sample_usage_frame_def)
  from reasoning_usage_reported [OF this, of _ "[]"] show ?thesis
    by (simp add: map_filter_simps counts_as_reasoning_def estimator_default_def)
qed

end
