(* ===== verification/Jail_Adapter.thy ===== *)
theory Jail_Adapter
  imports Usage_Stages Text_Search
begin

text \<open>
  \<open>apply_tool_calling_jail\<close> (\<open>fix/dynamo/preprocessor.rs\<close>): the adapter around the
  tool-call jail of the parser crate.  The jail works on plain chat chunks and may buffer, merge
  and rewrite them; the adapter takes the metrics and the extension data off each chunk on the
  way in, and puts them onto the chunks that come out.  It also ends the stream at the first
  error, and repairs the text of truncated GLM calls.

  The jail, the merge of extension data and the marker scanners are code outside the repository.
  The jail is a stage: what it yields for one chunk leaves it before it reads the next.
\<close>

record 'j jail_kit =
  jk_init :: 'j
  jk_step :: "('j, frame, frame) stage_step"
  jk_flush :: "'j \<Rightarrow> frame list"
  jk_merge_nvext :: "json option \<Rightarrow> json option \<Rightarrow> json option"
  jk_first_marker :: "string \<Rightarrow> nat option"
  jk_marker_or_prefix :: "string \<Rightarrow> nat option"
  jk_call_start :: string
  jk_call_end :: string
  jk_payload_usage :: string
  jk_is_error :: "frame \<Rightarrow> bool"

section \<open>State\<close>

text \<open>
  \<open>ChoiceRecovery\<close>, and \<open>PendingDynamoMetadata\<close> with the rest of the adapter.  Of a
  metrics template only its presence matters here, its token count is overwritten; of a response
  template too, since it has neither choices nor usage.
\<close>

record recovery =
  rv_input :: string
  rv_emitted :: string

definition recovery_default :: recovery where
  "recovery_default = \<lparr>rv_input = [], rv_emitted = []\<rparr>"

record 'j jail_state =
  js_jail :: 'j
  js_metrics :: bool
  js_tokens :: nat
  js_nvext :: "json option"
  js_response :: bool
  js_recovery :: "(u32, recovery) omap"
  js_failed :: bool

definition jail_init :: "'j jail_kit \<Rightarrow> 'j jail_state" where
  "jail_init K =
     \<lparr>js_jail = jk_init K, js_metrics = False, js_tokens = 0, js_nvext = None, js_response = False,
      js_recovery = [], js_failed = False\<rparr>"

section \<open>The way in\<close>

definition buffer_metadata :: "'j jail_kit \<Rightarrow> chunk \<Rightarrow> 'j jail_state \<Rightarrow> 'j jail_state" where
  "buffer_metadata K k st =
     (if is_some (k_metrics k) \<or> is_some (k_nvext k) then
        let st1 = st\<lparr>js_response := True\<rparr>;
            st2 = (case k_metrics k of
                     Some n \<Rightarrow> st1\<lparr>js_tokens := usize_saturating_add (js_tokens st1) n, js_metrics := True\<rparr>
                   | None \<Rightarrow> st1) in
        st2\<lparr>js_nvext := jk_merge_nvext K (js_nvext st2) (k_nvext k)\<rparr>
      else st)"

text \<open>
  The loop that drops completed calls from the text of a choice.  Each round drops at least the
  start marker, so the length of the text is enough fuel when the marker is not empty.
\<close>

fun drop_calls :: "'j jail_kit \<Rightarrow> nat \<Rightarrow> recovery \<Rightarrow> recovery" where
  "drop_calls K 0 s = s"
| "drop_calls K (Suc n) s =
     (case jk_first_marker K (rv_input s) of
        None \<Rightarrow> s
      | Some m \<Rightarrow>
          let from = m + length (jk_call_start K) in
          (case find_sub (jk_call_end K) (drop from (rv_input s)) of
             None \<Rightarrow> s
           | Some e \<Rightarrow>
               drop_calls K n
                 \<lparr>rv_input = drop (from + e + length (jk_call_end K)) (rv_input s), rv_emitted = []\<rparr>))"

definition has_quote :: "string \<Rightarrow> bool" where
  "has_quote t = list_ex (\<lambda>c. c \<in> {CHR 0x22, CHR 0x27, CHR 0x60}) t"

definition drop_emitted :: "'j jail_kit \<Rightarrow> recovery \<Rightarrow> recovery" where
  "drop_emitted K s =
     (if rv_emitted s \<noteq> [] \<and> \<not> has_quote (rv_input s) \<and> jk_marker_or_prefix K (rv_input s) = None then
        case strip_prefix (rv_emitted s) (rv_input s) of
          Some rest \<Rightarrow> \<lparr>rv_input = rest, rv_emitted = []\<rparr>
        | None \<Rightarrow> s
      else s)"

definition retain_text :: "'j jail_kit \<Rightarrow> (u32, recovery) omap \<Rightarrow> choice \<Rightarrow> (u32, recovery) omap" where
  "retain_text K states c =
     (case d_content (ch_delta c) of
        Some (Text t) \<Rightarrow>
          let s = unwrap_or recovery_default (om_get states (ch_index c));
              s1 = s\<lparr>rv_input := rv_input s @ t\<rparr>;
              s2 = drop_calls K (length (rv_input s1)) s1 in
          om_insert (ch_index c) (drop_emitted K s2) states
      | _ \<Rightarrow> states)"

definition jail_input :: "'j jail_kit \<Rightarrow> bool \<Rightarrow> frame \<Rightarrow> 'j jail_state \<Rightarrow> frame \<times> 'j jail_state" where
  "jail_input K is_glm47 fr st =
     (let st1 = (case a_data fr of Some k \<Rightarrow> buffer_metadata K k st | None \<Rightarrow> st);
          st2 = (case a_data fr of
                   Some k \<Rightarrow> if is_glm47
                     then st1\<lparr>js_recovery := fold (\<lambda>c states. retain_text K states c) (k_choices k) (js_recovery st1)\<rparr>
                     else st1
                 | None \<Rightarrow> st1) in
      (fr\<lparr>a_data := map_option (\<lambda>k. k\<lparr>k_nvext := None, k_metrics := None\<rparr>) (a_data fr), a_error := None\<rparr>, st2))"

section \<open>The way out\<close>

definition repair_choice :: "'j jail_kit \<Rightarrow> recovery \<Rightarrow> choice \<Rightarrow> choice \<times> recovery" where
  "repair_choice K s c =
     (let put = (\<lambda>t. c\<lparr>ch_delta := (ch_delta c)\<lparr>d_content := map_option Text (nonempty t)\<rparr>\<rparr>);
          c' = (case jk_marker_or_prefix K (rv_input s) of
                  Some m \<Rightarrow>
                    if ch_finish c = Some FR_Length \<and> is_some (jk_first_marker K (rv_input s))
                    then put (unwrap_or [] (strip_prefix (rv_emitted s) (take m (rv_input s)))) else c
                | None \<Rightarrow>
                    if ch_finish c = Some FR_Length \<and> d_tool_calls (ch_delta c) = None
                    then put (unwrap_or [] (strip_prefix (rv_emitted s) (rv_input s))) else c) in
      (c', case d_content (ch_delta c') of Some (Text t) \<Rightarrow> s\<lparr>rv_emitted := rv_emitted s @ t\<rparr> | _ \<Rightarrow> s))"

definition take_metadata :: "'j jail_kit \<Rightarrow> frame \<Rightarrow> 'j jail_state \<Rightarrow> (nat option \<times> json option) \<times> 'j jail_state" where
  "take_metadata K fr st =
     (case a_data fr of
        None \<Rightarrow> ((None, None), st)
      | Some k \<Rightarrow>
          let metrics = (if js_metrics st then Some (js_tokens st) else None);
              st1 = st\<lparr>js_tokens := 0, js_metrics := False\<rparr> in
          if k_choices k \<noteq> [] \<and> a_event fr \<noteq> Some (jk_payload_usage K)
          then ((metrics, js_nvext st1), st1\<lparr>js_nvext := None\<rparr>)
          else ((metrics, None), st1))"

definition jail_output :: "'j jail_kit \<Rightarrow> bool \<Rightarrow> 'j jail_state \<Rightarrow> frame \<Rightarrow> frame \<times> 'j jail_state" where
  "jail_output K is_glm47 st fr =
     (let ((metrics, nvext), st1) = take_metadata K fr st;
          fr1 = fr\<lparr>a_data := map_option (\<lambda>k. k\<lparr>k_nvext := nvext, k_metrics := metrics\<rparr>) (a_data fr), a_error := None\<rparr> in
      if is_glm47 then
        (let (fr2, states) = map_choices (repair_choice K) recovery_default (js_recovery st1) fr1 in
         (fr2, st1\<lparr>js_recovery := states\<rparr>))
      else (fr1, st1))"

section \<open>The stream\<close>

definition jail_adapter_step :: "'j jail_kit \<Rightarrow> bool \<Rightarrow> ('j jail_state, frame, frame) stage_step" where
  "jail_adapter_step K is_glm47 st fr =
     (if js_failed st then ([], st)
      else if jk_is_error K fr then ([fr], st\<lparr>js_failed := True\<rparr>)
      else
        let (bare, st1) = jail_input K is_glm47 fr st;
            (outs, j) = jk_step K (js_jail st1) bare in
        map_accum (jail_output K is_glm47) (st1\<lparr>js_jail := j\<rparr>) outs)"

definition eof_metadata :: "'j jail_state \<Rightarrow> frame list" where
  "eof_metadata st =
     (let metrics = (if js_metrics st then Some (js_tokens st) else None) in
      if metrics = None \<and> js_nvext st = None then []
      else if js_response st
      then [frame_of \<lparr>k_choices = [], k_usage = None, k_nvext = js_nvext st, k_metrics = metrics\<rparr>]
      else [])"

definition jail_adapter_flush :: "'j jail_kit \<Rightarrow> bool \<Rightarrow> 'j jail_state \<Rightarrow> frame list" where
  "jail_adapter_flush K is_glm47 st =
     (if js_failed st then []
      else
        let (outs, st') = map_accum (jail_output K is_glm47) st (jk_flush K (js_jail st)) in
        outs @ eof_metadata st')"

definition apply_tool_calling_jail :: "'j jail_kit \<Rightarrow> string option \<Rightarrow> frame list \<Rightarrow> frame list" where
  "apply_tool_calling_jail K tool_call_parser frs =
     (let is_glm47 = (tool_call_parser = Some ''glm47'') in
      hold_usage_until_stream_end
        (run_stage (jail_adapter_step K is_glm47) (jail_adapter_flush K is_glm47) (jail_init K) frs))"

section \<open>Lemmas\<close>

text \<open>The loop over completed calls ends because it has nothing left to drop.\<close>

definition no_complete_call :: "'j jail_kit \<Rightarrow> recovery \<Rightarrow> bool" where
  "no_complete_call K s =
     (case jk_first_marker K (rv_input s) of
        None \<Rightarrow> True
      | Some m \<Rightarrow> find_sub (jk_call_end K) (drop (m + length (jk_call_start K)) (rv_input s)) = None)"

lemma find_sub_Nil: "pat \<noteq> [] \<Longrightarrow> find_sub pat [] = None"
  by simp

lemma drop_calls_done:
  assumes "jk_call_end K \<noteq> []" "length (rv_input s) \<le> n"
  shows "no_complete_call K (drop_calls K n s)"
  using assms(2)
proof (induction n arbitrary: s)
  case 0
  then show ?case using assms(1) by (simp add: no_complete_call_def split: option.split)
next
  case (Suc n)
  show ?case
  proof (cases "no_complete_call K s")
    case True
    then have "drop_calls K (Suc n) s = s" by (auto simp: no_complete_call_def split: option.splits)
    with True show ?thesis by simp
  next
    case False
    then obtain m e where m: "jk_first_marker K (rv_input s) = Some m"
      and e: "find_sub (jk_call_end K) (drop (m + length (jk_call_start K)) (rv_input s)) = Some e"
      by (auto simp: no_complete_call_def split: option.splits)
    have "rv_input s \<noteq> []" using e assms(1) by auto
    with assms(1) Suc.prems
    have "length (drop (m + length (jk_call_start K) + e + length (jk_call_end K)) (rv_input s)) \<le> n"
      by (cases "jk_call_end K"; cases "rv_input s") auto
    with m e show ?thesis by (simp add: Let_def Suc.IH)
  qed
qed

definition frame_tokens :: "frame \<Rightarrow> nat" where
  "frame_tokens fr = (case a_data fr of Some k \<Rightarrow> unwrap_or 0 (k_metrics k) | None \<Rightarrow> 0)"

definition token_sum :: "frame list \<Rightarrow> nat" where
  "token_sum frs = sum_list (map frame_tokens frs)"

lemma token_sum_simps [simp]:
  "token_sum [] = 0" "token_sum (fr # frs) = frame_tokens fr + token_sum frs"
  "token_sum (frs @ gs) = token_sum frs + token_sum gs"
  by (simp_all add: token_sum_def)

lemma token_sum_filter: "token_sum (filter P frs) + token_sum (filter (\<lambda>fr. \<not> P fr) frs) = token_sum frs"
  by (induction frs) simp_all

text \<open>Tokens are pending only together with metrics, and then there is a response to send them with.\<close>

definition metadata_ok :: "'j jail_state \<Rightarrow> bool" where
  "metadata_ok st =
     ((js_metrics st \<or> js_tokens st = 0) \<and> (js_metrics st \<or> is_some (js_nvext st) \<longrightarrow> js_response st) \<and> \<not> js_failed st)"

lemma map_choices_tokens: "frame_tokens (fst (map_choices f s states fr)) = frame_tokens fr"
  "a_error (fst (map_choices f s states fr)) = a_error fr"
  by (simp_all add: map_choices_def frame_tokens_def Let_def split_beta split: option.split)

lemma frame_tokens_update:
  "frame_tokens (fr\<lparr>a_data := x, a_error := e\<rparr>) = (case x of Some k \<Rightarrow> unwrap_or 0 (k_metrics k) | None \<Rightarrow> 0)"
  by (simp add: frame_tokens_def)

lemma jail_output_law:
  assumes "metadata_ok st"
  shows "frame_tokens (fst (jail_output K g st fr)) + js_tokens (snd (jail_output K g st fr)) = js_tokens st"
    and "metadata_ok (snd (jail_output K g st fr))" "a_error (fst (jail_output K g st fr)) = None"
  using assms
  by (auto simp: jail_output_def take_metadata_def metadata_ok_def Let_def split_beta map_choices_tokens frame_tokens_update
      split: option.split)

lemma jail_outputs_law:
  assumes "metadata_ok st"
  shows "token_sum (fst (map_accum (jail_output K g) st outs)) + js_tokens (snd (map_accum (jail_output K g) st outs)) = js_tokens st
    \<and> metadata_ok (snd (map_accum (jail_output K g) st outs))
    \<and> list_all (\<lambda>fr. a_error fr = None) (fst (map_accum (jail_output K g) st outs))"
  using assms
proof (induction outs arbitrary: st)
  case Nil
  then show ?case by simp
next
  case (Cons fr outs)
  note one = jail_output_law [OF Cons.prems, of K g fr]
  from Cons.IH [OF one(2)] one(1,3) show ?case by (simp add: Let_def split_beta)
qed

lemma jail_input_law:
  assumes "metadata_ok st" "js_tokens st + frame_tokens fr \<le> usize_max"
  shows "js_tokens (snd (jail_input K g fr st)) = js_tokens st + frame_tokens fr"
    and "metadata_ok (snd (jail_input K g fr st))"
  using assms
  by (auto simp: jail_input_def buffer_metadata_def metadata_ok_def frame_tokens_def Let_def usize_saturating_add_def
      is_some_iff split: option.splits)

lemma jail_step_law:
  assumes "metadata_ok st" "js_tokens st + frame_tokens fr \<le> usize_max" "\<not> jk_is_error K fr"
  shows "token_sum (fst (jail_adapter_step K g st fr)) + js_tokens (snd (jail_adapter_step K g st fr)) = js_tokens st + frame_tokens fr
    \<and> metadata_ok (snd (jail_adapter_step K g st fr))
    \<and> list_all (\<lambda>fr. a_error fr = None) (fst (jail_adapter_step K g st fr))"
proof -
  note inp = jail_input_law [OF assms(1,2), of K g]
  let ?st = "snd (jail_input K g fr st)"
  let ?r = "jk_step K (js_jail ?st) (fst (jail_input K g fr st))"
  have "metadata_ok (?st\<lparr>js_jail := snd ?r\<rparr>)" using inp(2) by (simp add: metadata_ok_def)
  from jail_outputs_law [OF this, of K g "fst ?r"] inp(1) assms(1,3) show ?thesis
    by (simp add: jail_adapter_step_def metadata_ok_def Let_def split_beta)
qed

lemma eof_metadata_law:
  assumes "metadata_ok st"
  shows "token_sum (eof_metadata st) = js_tokens st" "list_all (\<lambda>fr. a_error fr = None) (eof_metadata st)"
  using assms by (auto simp: eof_metadata_def metadata_ok_def frame_tokens_def is_some_iff)

lemma jail_flush_law:
  assumes "metadata_ok st"
  shows "token_sum (jail_adapter_flush K g st) = js_tokens st
    \<and> list_all (\<lambda>fr. a_error fr = None) (jail_adapter_flush K g st)"
  using jail_outputs_law [OF assms, of K g "jk_flush K (js_jail st)"] assms
  by (simp add: jail_adapter_flush_def metadata_ok_def [of st] Let_def split_beta eof_metadata_law)

lemma hold_usage_tokens:
  assumes "list_all (\<lambda>fr. a_error fr = None) frs"
  shows "token_sum (hold_usage_until_stream_end frs) = token_sum frs"
proof -
  let ?out = "hold_usage_until_stream_end frs"
  have "filter usage_only ?out = filter usage_only frs"
    using hold_usage.conserves [OF hold_good_init assms]
    by (simp add: hold_usage_until_stream_end_def concat_filter hold_init_def)
  moreover have "filter (\<lambda>fr. \<not> usage_only fr) ?out = filter (\<lambda>fr. \<not> usage_only fr) frs"
    using hold_rest.conserves [OF hold_good_init assms]
    by (simp add: hold_usage_until_stream_end_def concat_filter)
  ultimately show ?thesis
    using token_sum_filter [of usage_only ?out] token_sum_filter [of usage_only frs] by simp
qed

text \<open>
  A call that the token limit cut off stays hidden: the content of the chunk that ends the choice is
  the rest of the text in front of the call, or nothing.
\<close>

lemma put_text: "content_text (d\<lparr>d_content := map_option Text (nonempty t)\<rparr>) = t"
  by (simp add: content_text_def nonempty_def then_some_def)

lemma repaired_text:
  "rv_emitted (snd (repair_choice K s c)) = rv_emitted s @ content_text (ch_delta (fst (repair_choice K s c)))"
  by (auto simp: repair_choice_def content_text_def Let_def split: option.split content.split)

lemma truncated_call_suppressed:
  assumes "ch_finish c = Some FR_Length" "is_some (jk_first_marker K (rv_input s))" "jk_marker_or_prefix K (rv_input s) = Some m"
  shows "suffix (content_text (ch_delta (fst (repair_choice K s c)))) (take m (rv_input s))"
    and "prefix (rv_emitted s) (take m (rv_input s)) \<Longrightarrow> rv_emitted (snd (repair_choice K s c)) = take m (rv_input s)"
proof -
  have t: "content_text (ch_delta (fst (repair_choice K s c))) = unwrap_or [] (strip_prefix (rv_emitted s) (take m (rv_input s)))"
    using assms by (simp add: repair_choice_def Let_def put_text)
  show "suffix (content_text (ch_delta (fst (repair_choice K s c)))) (take m (rv_input s))"
    unfolding t by (simp add: strip_prefix_def suffix_drop)
  show "rv_emitted (snd (repair_choice K s c)) = take m (rv_input s)" if "prefix (rv_emitted s) (take m (rv_input s))"
    unfolding repaired_text t using that by (auto simp: strip_prefix_def elim!: prefixE)
qed

section \<open>Adapters that count\<close>

text \<open>
  The contract of an adapter that moves token counts: a step moves what is pending and what the frame
  carries to the output and to what is pending then, and the flush releases the rest.
\<close>

locale counting_adapter =
  fixes step :: "('s, frame, frame) stage_step"
    and flush :: "'s \<Rightarrow> frame list"
    and good :: "'s \<Rightarrow> bool"
    and pending :: "'s \<Rightarrow> nat"
    and fails :: "frame \<Rightarrow> bool"
  assumes step_law: "good s \<Longrightarrow> pending s + frame_tokens fr \<le> usize_max \<Longrightarrow> \<not> fails fr \<Longrightarrow>
      token_sum (fst (step s fr)) + pending (snd (step s fr)) = pending s + frame_tokens fr
      \<and> good (snd (step s fr)) \<and> list_all (\<lambda>fr. a_error fr = None) (fst (step s fr))"
    and flush_law: "good s \<Longrightarrow> token_sum (flush s) = pending s \<and> list_all (\<lambda>fr. a_error fr = None) (flush s)"
begin

lemma emitted_law:
  assumes "good s" "pending s + token_sum frs \<le> usize_max" "list_all (\<lambda>fr. \<not> fails fr) frs"
  shows "token_sum (emitted step s frs) + pending (final step s frs) = pending s + token_sum frs
    \<and> good (final step s frs) \<and> list_all (\<lambda>fr. a_error fr = None) (emitted step s frs)"
  using assms
proof (induction frs arbitrary: s)
  case Nil
  then show ?case by simp
next
  case (Cons fr frs)
  have "pending s + frame_tokens fr \<le> usize_max" "\<not> fails fr" using Cons.prems by simp_all
  note one = step_law [OF Cons.prems(1) this]
  have "pending (snd (step s fr)) + token_sum frs \<le> usize_max" using one Cons.prems(2) by simp
  with one Cons.IH [of "snd (step s fr)"] Cons.prems(3) show ?case by simp
qed

lemma conserves:
  assumes "good s" "pending s = 0" "token_sum frs \<le> usize_max" "list_all (\<lambda>fr. \<not> fails fr) frs"
  shows "token_sum (hold_usage_until_stream_end (run_stage step flush s frs)) = token_sum frs"
proof -
  note run = emitted_law [OF assms(1) _ assms(4)]
  from run assms(2,3) flush_law [of "final step s frs"] show ?thesis
    by (simp add: hold_usage_tokens run_stage_def)
qed

end

interpretation adapter_counts: counting_adapter "jail_adapter_step K g" "jail_adapter_flush K g" metadata_ok js_tokens "jk_is_error K"
  for K g
  by unfold_locales (simp_all add: jail_step_law jail_flush_law)

section \<open>Properties\<close>

text \<open>
  C16.  The token counts survive the jail.  However the jail buffers, merges, drops and invents
  chunks, the counts on the chunks that leave the adapter add up to the counts on the chunks that
  entered it, as long as no error ends the stream and the sum fits a \<open>usize\<close>.
\<close>

theorem jail_conserves_token_counts:
  assumes "list_all (\<lambda>fr. \<not> jk_is_error K fr) frs" "token_sum frs \<le> usize_max"
  shows "token_sum (apply_tool_calling_jail K parser frs) = token_sum frs"
proof -
  have "metadata_ok (jail_init K)" "js_tokens (jail_init K) = 0" by (simp_all add: metadata_ok_def jail_init_def)
  from adapter_counts.conserves [OF this assms(2,1)] show ?thesis by (simp add: apply_tool_calling_jail_def Let_def)
qed

text \<open>A jail that keeps every chunk back and releases one empty chunk at the end.\<close>

definition hoarding_jail :: "nat jail_kit" where
  "hoarding_jail =
     \<lparr>jk_init = 0, jk_step = (\<lambda>n fr. ([], Suc n)),
      jk_flush = (\<lambda>_. [frame_of \<lparr>k_choices = [], k_usage = None, k_nvext = None, k_metrics = None\<rparr>]),
      jk_merge_nvext = opt_or, jk_first_marker = (\<lambda>_. None), jk_marker_or_prefix = (\<lambda>_. None),
      jk_call_start = ''<'', jk_call_end = ''>'', jk_payload_usage = ''usage'',
      jk_is_error = (\<lambda>fr. a_error fr \<noteq> None)\<rparr>"

definition counted_frame :: "nat \<Rightarrow> frame" where
  "counted_frame n = frame_of \<lparr>k_choices = [], k_usage = None, k_nvext = None, k_metrics = Some n\<rparr>"

theorem jail_conserves_token_counts_witness:
  "token_sum (apply_tool_calling_jail hoarding_jail None [counted_frame 3, counted_frame 4]) = 7"
proof -
  have "list_all (\<lambda>fr. \<not> jk_is_error hoarding_jail fr) [counted_frame 3, counted_frame 4]"
    and "token_sum [counted_frame 3, counted_frame 4] \<le> usize_max"
    and sum: "token_sum [counted_frame 3, counted_frame 4] = 7"
    by (simp_all add: hoarding_jail_def counted_frame_def frame_tokens_def usize_max_def)
  from jail_conserves_token_counts [OF this(1,2), of None] sum show ?thesis by simp
qed

lemma jail_failed_silent:
  "js_failed st \<Longrightarrow> emitted (jail_adapter_step K g) st frs = [] \<and> final (jail_adapter_step K g) st frs = st"
  by (induction frs) (simp_all add: jail_adapter_step_def)

lemma jail_not_failed:
  assumes "\<not> js_failed st" "list_all (\<lambda>fr. \<not> jk_is_error K fr) frs"
  shows "\<not> js_failed (final (jail_adapter_step K g) st frs)"
  using assms
proof (induction frs arbitrary: st)
  case Nil
  then show ?case by simp
next
  case (Cons fr frs)
  have keep: "js_failed (snd (map_accum (jail_output K g) s outs)) = js_failed s" for s outs
    by (induction outs arbitrary: s)
      (simp_all add: jail_output_def take_metadata_def Let_def split_beta split: option.split)
  have "\<not> js_failed (snd (jail_adapter_step K g st fr))"
    using Cons.prems
    by (simp add: jail_adapter_step_def Let_def split_beta keep jail_input_def buffer_metadata_def split: option.split)
  with Cons show ?case by simp
qed



end
