(* ===== verification/Pipeline.thy ===== *)
theory Pipeline
  imports Unified_Deferral Strip_Reasoning Jail_Adapter Response_Policy
begin

text \<open>
  \<open>postprocessor_parsing_stream\<close> (\<open>fix/dynamo/preprocessor.rs\<close>): the response side of
  a chat request, put together from the stages of the other theories: the route decides between
  a unified parser with its response policies, and the chain of marker stripping, reasoning
  parsing, usage and tool-call stages.

  The tool and unified parsers are code outside the repository: functions from streams to
  streams.  So are the facts about the request that other files compute: its tool constraint and
  its tool definitions.
\<close>

record ('j, 'p) postprocessor =
  pp_registry :: parser_registry
  pp_lib :: thinking_lib
  pp_tool_parser :: "string option"
  pp_reasoning_parser :: "string option"
  pp_rollback :: bool
  pp_parser :: "string \<Rightarrow> 'p parser_kit"
  pp_jail :: "string option \<Rightarrow> tool_choice option \<Rightarrow> json list option \<Rightarrow> bool \<Rightarrow> bool \<Rightarrow> 'j jail_kit"
  pp_muse :: "json list option \<Rightarrow> string \<Rightarrow> frame list \<Rightarrow> frame list"
  pp_unified :: "json list option \<Rightarrow> bool \<Rightarrow> bool \<Rightarrow> string \<Rightarrow> frame list \<Rightarrow> frame list"
  pp_v2 :: "json list option \<Rightarrow> string \<Rightarrow> frame list \<Rightarrow> frame list"
  pp_is_error :: "frame \<Rightarrow> bool"
  pp_scrub :: "frame \<Rightarrow> frame"
  pp_scrubbed :: "frame \<Rightarrow> bool"

record parse_request =
  pq_think :: think_request
  pq_structural_tag :: bool
  pq_guided_json :: bool
  pq_parsing_enabled :: bool
  pq_has_tools :: bool
  pq_tool_definitions :: "string + json list"

definition route_request_of :: "parse_request \<Rightarrow> route_request" where
  "route_request_of q =
     \<lparr>ro_tool_choice = tr_tool_choice (pq_think q), ro_structural_tag = pq_structural_tag q,
      ro_parsing_enabled = pq_parsing_enabled q, ro_has_tools = pq_has_tools q\<rparr>"

section \<open>What is done about reasoning\<close>

record reasoning_plan =
  rp_parse :: bool
  rp_bypass :: bool
  rp_start_token :: "string option"
  rp_strip_disabled :: bool

definition plan_reasoning ::
  "('j, 'p) postprocessor \<Rightarrow> parse_request \<Rightarrow> bool \<Rightarrow> reasoning_plan" where
  "plan_reasoning pp q prompt_injected =
     (let p = pp_reasoning_parser pp;
          r = pq_think q;
          tag = pq_structural_tag q;
          guided_tool = (case tr_tool_choice r of Some TC_Required \<Rightarrow> True | Some (TC_Named _) \<Rightarrow> True | _ \<Rightarrow> False);
          structured = has_structured_response_format (tr_response_format r);
          guided = guided_tool \<or> structured;
          inspect_force = guided \<and> \<not> tag \<and> supports_reasoning_before_guided_json p;
          inspect_injected = guided \<and> prompt_injected \<and> \<not> tag \<and>
            (skips_guided_json_when_prompt_injected p \<or>
             structured \<and> skips_structured_response_when_prompt_injected p);
          inspect_unsupported = structured \<and> \<not> tag \<and> \<not> structured_response_supports_sglang_reasoning_gate p;
          bypass = inspect_force \<or> inspect_injected \<or> inspect_unsupported;
          skip = guided \<and> \<not> tag \<and> is_force_reasoning_parser p \<and> \<not> inspect_force;
          disabled = is_reasoning_disabled_by_request (pp_lib pp) p (tr_args r);
          parse = is_some p \<and> \<not> disabled \<and> \<not> skip in
      \<lparr>rp_parse = parse, rp_bypass = bypass,
       rp_start_token = if parse \<and> bypass then guided_json_reasoning_start_token p else None,
       rp_strip_disabled = disabled \<and> is_nemotron_force_reasoning p \<and> \<not> skip\<rparr>)"

section \<open>The stages\<close>

definition apply_unified_response_policies ::
  "('j, 'p) postprocessor \<Rightarrow> bool \<Rightarrow> bool \<Rightarrow> frame list \<Rightarrow> frame list" where
  "apply_unified_response_policies pp emit_tool_calls defer_reasoning frs =
     (let frs1 = apply_tool_call_response_policy emit_tool_calls frs;
          frs2 = annotate_reasoning_usage frs1;
          frs3 = (if defer_reasoning
                  then defer_unified_reasoning_for_nonempty_content (pp_is_error pp)
                         (\<lambda>fr. if pp_scrubbed pp fr then Some (pp_scrub pp fr) else None) frs2
                  else frs2) in
      if defer_reasoning then hold_usage_until_stream_end frs3 else frs3)"

definition reasoning_stages ::
  "('j, 'p) postprocessor \<Rightarrow> reasoning_plan \<Rightarrow> bool \<Rightarrow> bool \<Rightarrow> frame list \<Rightarrow> frame list" where
  "reasoning_stages pp plan prompt_injected defer_reasoning frs =
     (let frs1 = (case rp_start_token plan of
                    Some token \<Rightarrow> strip_leading_reasoning_start (pp_scrub pp) token frs
                  | None \<Rightarrow> frs);
          frs2 = (if rp_parse plan
                  then parse_reasoning_content_from_stream (pp_parser pp (unwrap_or [] (pp_reasoning_parser pp)))
                         \<lparr>rf_prompt_injected = prompt_injected, rf_bypass_guided = rp_bypass plan, rf_defer = defer_reasoning\<rparr>
                         (pp_is_error pp) (pp_scrub pp) frs1
                  else if rp_strip_disabled plan
                  then strip_leading_reasoning_start (pp_scrub pp) ''<think>'' frs1
                  else frs1);
          frs3 = (if defer_reasoning \<or> rp_strip_disabled plan then hold_usage_until_stream_end frs2 else frs2) in
      if rp_parse plan then annotate_reasoning_usage frs3 else frs3)"

definition postprocessor_parsing_stream_with_constraint ::
  "('j, 'p) postprocessor \<Rightarrow> parse_request \<Rightarrow> bool \<Rightarrow> tool_route \<Rightarrow> frame list \<Rightarrow> string + frame list" where
  "postprocessor_parsing_stream_with_constraint pp q prompt_injected route frs =
     (let defer_reasoning = wants_reasoning_as_content_when_empty (tr_args (pq_think q));
          guided_streaming = guided_tool_streaming_release (pq_guided_json q) (pp_rollback pp) in
      case pq_tool_definitions q of
        Inl e \<Rightarrow> Inl e
      | Inr tools \<Rightarrow>
          let tools' = (if tools = [] then None else Some tools);
              plan = plan_reasoning pp q prompt_injected;
              staged = reasoning_stages pp plan prompt_injected defer_reasoning frs in
          Inr (case route of
             MuseUnified family \<Rightarrow>
               apply_unified_response_policies pp (pq_parsing_enabled q) defer_reasoning (pp_muse pp tools' family frs)
           | Unified family \<Rightarrow>
               apply_unified_response_policies pp (pq_parsing_enabled q) defer_reasoning
                 (pp_unified pp tools' prompt_injected guided_streaming family frs)
           | ParserV2 name \<Rightarrow>
               apply_tool_call_response_policy (pq_parsing_enabled q) (pp_v2 pp tools' name staged)
           | LegacyJail parser \<Rightarrow>
               apply_tool_call_response_policy (pq_parsing_enabled q)
                 (apply_tool_calling_jail
                    (pp_jail pp parser (tr_tool_choice (pq_think q)) tools' (pq_structural_tag q) guided_streaming)
                    parser staged)
           | PassThrough \<Rightarrow> apply_tool_call_response_policy (pq_parsing_enabled q) staged))"

definition postprocessor_parsing_stream ::
  "('j, 'p) postprocessor \<Rightarrow> string + parse_request \<Rightarrow> bool \<Rightarrow> frame list \<Rightarrow> string + frame list" where
  "postprocessor_parsing_stream pp constraint prompt_injected frs =
     (case constraint of
        Inl e \<Rightarrow> Inl e
      | Inr q \<Rightarrow>
          postprocessor_parsing_stream_with_constraint pp q prompt_injected
            (tool_processing_route (pp_registry pp) (pp_tool_parser pp) (pp_reasoning_parser pp) (route_request_of q)) frs)"

section \<open>Frames without tool calls\<close>

definition call_free :: "frame \<Rightarrow> bool" where
  "call_free fr = list_all (\<lambda>c. d_tool_calls (ch_delta c) = None \<and> ch_finish c \<noteq> Some FR_ToolCalls) (frame_choices fr)"

lemma policy_call_free: "list_all call_free (apply_tool_call_response_policy False frs)"
  by (auto simp: apply_tool_call_response_policy_def map_frame_choices_choices drop_tool_calls_def
      list_all_iff call_free_def)

lemma annotate_call_free: "list_all call_free (annotate_reasoning_usage frs) = list_all call_free frs"
proof -
  have "call_free (fst (usage_step e fr)) = call_free fr" for e fr
    by (simp add: usage_step_def call_free_def frame_choices_def Let_def split: option.split)
  then have "list_all call_free (scan usage_step e frs) = list_all call_free frs" for e
    by (induction frs arbitrary: e) simp_all
  then show ?thesis by (simp add: annotate_reasoning_usage_def)
qed

lemma hold_call_free:
  assumes "list_all P frs"
  shows "list_all P (hold_usage_until_stream_end frs)"
proof -
  have "list_all P (run_stage hold_step hold_flush st frs)" if "\<forall>u. hs_pending st = Some u \<longrightarrow> P u" for st
    using assms that
    by (induction frs arbitrary: st) (auto simp: hold_step_def hold_flush_def split: option.split)
  then show ?thesis by (simp add: hold_usage_until_stream_end_def hold_init_def)
qed

lemma texts_keep_calls [simp]:
  "d_tool_calls (ch_delta (merge_drained p c)) = d_tool_calls (ch_delta c)" "ch_finish (merge_drained p c) = ch_finish c"
  "d_tool_calls (ch_delta (prefix_choice c x y)) = None" "ch_finish (prefix_choice c x y) = None"
  by (simp_all add: merge_drained_def prefix_choice_def Let_def)

lemma unified_steps_keep_calls:
  "d_tool_calls (ch_delta (fst (hold_reasoning s c))) = d_tool_calls (ch_delta c)" "ch_finish (fst (hold_reasoning s c)) = ch_finish c"
  "d_tool_calls (ch_delta (fst (hold_content s c))) = d_tool_calls (ch_delta c)" "ch_finish (fst (hold_content s c)) = ch_finish c"
  "d_tool_calls (ch_delta (fst (drain_terminal s c))) = d_tool_calls (ch_delta c)" "ch_finish (fst (drain_terminal s c)) = ch_finish c"
  "d_tool_calls (ch_delta (fst (fst (release_visible s c)))) = d_tool_calls (ch_delta c)"
  "ch_finish (fst (fst (release_visible s c))) = ch_finish c"
  "p \<in> set (snd (fst (release_visible s c))) \<Longrightarrow> d_tool_calls (ch_delta p) = None \<and> ch_finish p = None"
  by (auto simp: hold_reasoning_def hold_content_def drain_terminal_def release_visible_def release_split_def
      Let_def split_beta split: option.splits content.splits if_splits)

lemma defer_one_keeps_calls:
  "d_tool_calls (ch_delta (fst (fst (defer_one s c)))) = d_tool_calls (ch_delta c)"
  "ch_finish (fst (fst (defer_one s c))) = ch_finish c"
  "p \<in> set (snd (fst (defer_one s c))) \<Longrightarrow> d_tool_calls (ch_delta p) = None \<and> ch_finish p = None"
  by (auto simp: defer_one_def Let_def split_beta unified_steps_keep_calls(1-8) dest: unified_steps_keep_calls(9))

lemma defer_results_call_free:
  assumes "list_all (\<lambda>c. d_tool_calls (ch_delta c) = None \<and> ch_finish c \<noteq> Some FR_ToolCalls) cs"
    and "r \<in> set (fst (map_accum (per_choice defer_one unified_default) states cs))" "c \<in> set (spread r)"
  shows "d_tool_calls (ch_delta c) = None \<and> ch_finish c \<noteq> Some FR_ToolCalls"
  using assms(1,2)
proof (induction cs arbitrary: states)
  case Nil
  then show ?case by simp
next
  case (Cons d cs)
  let ?r = "defer_one (unwrap_or unified_default (om_get states (ch_index d))) d"
  note keep = defer_one_keeps_calls [where s = "unwrap_or unified_default (om_get states (ch_index d))" and c = d]
  have "fst (per_choice defer_one unified_default states d) = fst ?r"
    by (simp add: per_choice_def Let_def split_beta)
  with Cons.prems(2) consider (this) "r = fst ?r"
    | (rest) states' where "r \<in> set (fst (map_accum (per_choice defer_one unified_default) states' cs))"
    by (auto simp: Let_def split_beta)
  then show ?case
  proof cases
    case this
    with assms(3) Cons.prems(1) keep(1,2) keep(3) [where p = c] show ?thesis
      by (auto simp: spread_def)
  next
    case rest
    with Cons show ?thesis by simp
  qed
qed

lemma unified_step_call_free:
  assumes "call_free fr" "f \<in> set (fst (unified_step e st fr))"
  shows "call_free f"
proof (cases "us_stopped st \<or> e fr \<or> a_data fr = None")
  case True
  with assms show ?thesis by (auto simp: unified_step_def split: if_splits option.splits)
next
  case False
  then obtain k where k: "a_data fr = Some k" "\<not> us_stopped st" "\<not> e fr" by auto
  let ?rs = "fst (map_accum (per_choice defer_one unified_default) (us_choices st) (k_choices k))"
  let ?fr = "fr\<lparr>a_data := Some (k\<lparr>k_choices := map fst ?rs\<rparr>)\<rparr>"
  have cs: "list_all (\<lambda>c. d_tool_calls (ch_delta c) = None \<and> ch_finish c \<noteq> Some FR_ToolCalls) (k_choices k)"
    using assms(1) k(1) by (simp add: call_free_def frame_choices_def)
  note free = defer_results_call_free [OF cs, of _ "us_choices st"]
  from assms(2) k consider "f = ?fr" | r c where "f = prefix_response ?fr c" "r \<in> set ?rs" "c \<in> set (snd r)"
    by (auto simp: unified_step_def Let_def split_beta)
  then show ?thesis
  proof cases
    case 1
    then show ?thesis using free by (fastforce simp: call_free_def frame_choices_def list_all_iff spread_def)
  next
    case 2
    then show ?thesis using free [of r c]
      by (simp add: call_free_def frame_choices_def prefix_response_def spread_def)
  qed
qed

lemma unified_flush_call_free: "list_all call_free (unified_flush scrub st)"
  by (auto simp: unified_flush_def call_free_def frame_choices_def list_all_iff recovery_choice_def Let_def
      split: option.split list.split)

lemma defer_unified_call_free:
  assumes "list_all call_free frs"
  shows "list_all call_free (defer_unified_reasoning_for_nonempty_content e scrub frs)"
proof -
  have "list_all call_free (run_stage (unified_step e) (unified_flush scrub) st frs)" for st
    using assms
  proof (induction frs arbitrary: st)
    case Nil
    then show ?case by (simp add: unified_flush_call_free)
  next
    case (Cons fr frs)
    then have "call_free fr" and rest: "list_all call_free (run_stage (unified_step e) (unified_flush scrub) (snd (unified_step e st fr)) frs)"
      by simp_all
    then have "list_all call_free (fst (unified_step e st fr))"
      unfolding list_all_iff by (blast intro: unified_step_call_free)
    with rest show ?case by simp
  qed
  then show ?thesis by (simp add: defer_unified_reasoning_for_nonempty_content_def)
qed

section \<open>Properties\<close>

text \<open>
  C14.  No tool call passes a request that does not permit one.  Whatever route the response
  takes, whatever the parsers and the jail produce, and whatever is recovered at the end of the
  stream: when tool calls are not parsed for the request, no chunk that reaches the client carries
  a tool call and no choice finishes with \<open>tool_calls\<close>.
\<close>

theorem no_unrequested_tool_calls:
  assumes "postprocessor_parsing_stream pp (Inr q) injected frs = Inr out" "\<not> pq_parsing_enabled q"
  shows "list_all call_free out"
proof -
  have "list_all call_free (apply_unified_response_policies pp False d fs)" for d fs
    using policy_call_free annotate_call_free defer_unified_call_free hold_call_free
    by (simp add: apply_unified_response_policies_def Let_def)
  then show ?thesis
    using assms policy_call_free
    by (auto simp: postprocessor_parsing_stream_def postprocessor_parsing_stream_with_constraint_def Let_def
        split: sum.splits tool_route.splits)
qed

text \<open>A request without tools, to a deployment whose unified parser reports a call anyway.\<close>

definition rogue_chunk :: frame where
  "rogue_chunk = frame_of \<lparr>k_choices = [(sample_choice [] (Some FR_ToolCalls))\<lparr>ch_delta :=
     (ch_delta (sample_choice [] None))\<lparr>d_tool_calls := Some [\<lparr>tc_index = 0, tc_value = JNull\<rparr>]\<rparr>\<rparr>],
     k_usage = None, k_nvext = None, k_metrics = None\<rparr>"

definition rogue_postprocessor :: "(nat, bool) postprocessor" where
  "rogue_postprocessor =
     \<lparr>pp_registry = sample_registry\<lparr>pr_unified_family := (\<lambda>_ _. None), pr_selected_family := (\<lambda>_ _. Some ''qwen3'')\<rparr>,
      pp_lib = sample_lib, pp_tool_parser = None, pp_reasoning_parser = None, pp_rollback = False,
      pp_parser = (\<lambda>_. line_kit), pp_jail = (\<lambda>_ _ _ _ _. hoarding_jail), pp_muse = (\<lambda>_ _ frs. frs),
      pp_unified = (\<lambda>_ _ _ _ _. [rogue_chunk]), pp_v2 = (\<lambda>_ _ frs. frs),
      pp_is_error = (\<lambda>_. False), pp_scrub = id, pp_scrubbed = (\<lambda>_. True)\<rparr>"

definition toolless_request :: parse_request where
  "toolless_request =
     \<lparr>pq_think = \<lparr>tr_thinking = None, tr_args = None, tr_tool_choice = None, tr_response_format = None\<rparr>,
      pq_structural_tag = False, pq_guided_json = False, pq_parsing_enabled = False, pq_has_tools = False,
      pq_tool_definitions = Inr []\<rparr>"

theorem no_unrequested_tool_calls_witness:
  "\<exists>out. postprocessor_parsing_stream rogue_postprocessor (Inr toolless_request) False [] = Inr out
     \<and> length out = 1 \<and> list_all call_free out"
proof -
  let ?out = "apply_unified_response_policies rogue_postprocessor False False [rogue_chunk]"
  have run: "postprocessor_parsing_stream rogue_postprocessor (Inr toolless_request) False [] = Inr ?out"
    by (simp add: postprocessor_parsing_stream_def postprocessor_parsing_stream_with_constraint_def Let_def
        tool_processing_route_def route_request_of_def rogue_postprocessor_def toolless_request_def
        wants_reasoning_as_content_when_empty_def arg_def)
  have "\<not> pq_parsing_enabled toolless_request" by (simp add: toolless_request_def)
  from no_unrequested_tool_calls [OF run this] run show ?thesis
    by (simp add: apply_unified_response_policies_def Let_def annotate_reasoning_usage_def apply_tool_call_response_policy_def)
qed

end
