(* ===== verification/Delta_Stream.thy ===== *)
theory Delta_Stream
  imports Chat_Types
begin

text \<open>
  From the output of the engine to response deltas
  (\<open>transform_postprocessor_stream_with_image_tokens\<close> in \<open>fix/dynamo/preprocessor.rs\<close>): every
  item becomes one response with its metrics, and the end of a stream that was finished brings
  the usage chunk.

  The delta generator and the tracker it holds are code outside the repository: \<open>'g\<close> is their
  state, \<open>'r\<close> the response type, and the record \<open>delta_kit\<close> the operations.  Traces and
  process-wide counters are left out; token counts are natural numbers.
\<close>

section \<open>Data\<close>

record routing_data =
  rd_timing :: "json option"
  rd_worker :: "json option"
  rd_tokens :: "token_id list option"

record backend_output =
  bo_index :: u32
  bo_token_ids :: "token_id list"
  bo_finish :: "json option"
  bo_routing :: "routing_data option"
  bo_rest :: json

record llm_metrics =
  lm_input :: nat
  lm_output :: nat
  lm_chunk :: nat
  lm_cached :: "nat option"
  lm_images :: nat
  lm_videos :: nat
  lm_audios :: nat
  lm_image_tokens :: "nat option"
  lm_workers :: json

record multimodal_counts =
  mc_image :: nat
  mc_video :: nat
  mc_audio :: nat

record ('g, 'r) delta_kit =
  dk_tracked :: bool
  dk_set_timing :: "json \<Rightarrow> 'g \<Rightarrow> 'g"
  dk_set_worker :: "json \<Rightarrow> 'g \<Rightarrow> 'g"
  dk_set_tokens :: "token_id list \<Rightarrow> 'g \<Rightarrow> 'g"
  dk_isl :: "'g \<Rightarrow> u32 option"
  dk_choice :: "'g \<Rightarrow> backend_output \<Rightarrow> (string + 'r) \<times> 'g"
  dk_usage_chunk :: "'g \<Rightarrow> 'r"
  dk_usage :: "'g \<Rightarrow> usage"
  dk_usage_enabled :: "'g \<Rightarrow> bool"
  dk_workers :: "'g \<Rightarrow> json"
  dk_chat_metrics :: "llm_metrics \<Rightarrow> 'r \<Rightarrow> 'r option"
  dk_annotation :: "llm_metrics \<Rightarrow> (string option \<times> string list option) option"
  dk_error :: "string \<Rightarrow> 'r annotated"
  dk_payload_usage :: string

record delta_config =
  dc_emit_payload :: bool
  dc_counts :: multimodal_counts
  dc_image_tokens :: "nat option"

record 'g delta_state =
  ds_gen :: 'g
  ds_cancelled :: bool
  ds_output :: nat
  ds_finish_sent :: bool

section \<open>Metrics\<close>

definition drain_router_routing_data ::
  "('g, 'r) delta_kit \<Rightarrow> backend_output option \<Rightarrow> 'g \<Rightarrow> backend_output option \<times> 'g" where
  "drain_router_routing_data K data g =
     (case Option.bind data bo_routing of
        None \<Rightarrow> (data, g)
      | Some rd \<Rightarrow>
          (map_option (\<lambda>d. d\<lparr>bo_routing := None\<rparr>) data,
           if \<not> dk_tracked K then g
           else
             let g1 = (case rd_timing rd of Some t \<Rightarrow> dk_set_timing K t g | None \<Rightarrow> g);
                 g2 = (case rd_worker rd of Some w \<Rightarrow> dk_set_worker K w g1 | None \<Rightarrow> g1) in
             (case rd_tokens rd of Some ts \<Rightarrow> dk_set_tokens K ts g2 | None \<Rightarrow> g2)))"

definition attach_metrics_annotation ::
  "('g, 'r) delta_kit \<Rightarrow> llm_metrics \<Rightarrow> 'r annotated \<Rightarrow> 'r annotated" where
  "attach_metrics_annotation K m fr =
     (case dk_annotation K m of
        Some (event, comment) \<Rightarrow> fr\<lparr>a_event := event, a_comment := comment\<rparr>
      | None \<Rightarrow> fr)"

definition attach_llm_metrics :: "('g, 'r) delta_kit \<Rightarrow> llm_metrics \<Rightarrow> 'r annotated \<Rightarrow> 'r annotated" where
  "attach_llm_metrics K m fr =
     (if a_event fr \<noteq> None then fr
      else case Option.bind (a_data fr) (dk_chat_metrics K m) of
        Some r \<Rightarrow> fr\<lparr>a_data := Some r\<rparr>
      | None \<Rightarrow> attach_metrics_annotation K m fr)"

definition build_llm_metric_annotation ::
  "('g, 'r) delta_kit \<Rightarrow> 'g \<Rightarrow> nat \<Rightarrow> nat \<Rightarrow> nat \<Rightarrow> nat option \<Rightarrow> multimodal_counts \<Rightarrow> nat option \<Rightarrow> llm_metrics" where
  "build_llm_metric_annotation K g input output chunk cached counts image_tokens =
     \<lparr>lm_input = input, lm_output = output, lm_chunk = chunk, lm_cached = cached,
      lm_images = mc_image counts, lm_videos = mc_video counts, lm_audios = mc_audio counts,
      lm_image_tokens = image_tokens, lm_workers = dk_workers K g\<rparr>"

section \<open>The stream\<close>

text \<open>\<open>Annotated::map_data\<close> with the delta generator; a failure cancels the request.\<close>

definition generate_delta ::
  "('g, 'r) delta_kit \<Rightarrow> backend_output annotated \<Rightarrow> 'g delta_state \<Rightarrow> 'r annotated \<times> 'g delta_state" where
  "generate_delta K item st =
     (case a_data item of
        None \<Rightarrow> (\<lparr>a_id = a_id item, a_data = None, a_event = a_event item, a_comment = a_comment item, a_error = a_error item\<rparr>, st)
      | Some out \<Rightarrow>
          (case dk_choice K (ds_gen st) out of
             (Inl e, g) \<Rightarrow> (dk_error K e, st\<lparr>ds_gen := g, ds_cancelled := True\<rparr>)
           | (Inr r, g) \<Rightarrow>
               (\<lparr>a_id = a_id item, a_data = Some r, a_event = a_event item, a_comment = a_comment item, a_error = a_error item\<rparr>,
                st\<lparr>ds_gen := g\<rparr>)))"

definition delta_item ::
  "('g, 'r) delta_kit \<Rightarrow> delta_config \<Rightarrow> backend_output annotated \<Rightarrow> 'g delta_state \<Rightarrow> 'r annotated \<times> 'g delta_state" where
  "delta_item K cfg item st =
     (let (data, g) = drain_router_routing_data K (a_data item) (ds_gen st);
          item1 = item\<lparr>a_data := data\<rparr>;
          chunk_tokens = (case data of Some out \<Rightarrow> length (bo_token_ids out) | None \<Rightarrow> 0);
          isl = (case data of Some _ \<Rightarrow> map_option unat (dk_isl K g) | None \<Rightarrow> None);
          st1 = st\<lparr>ds_gen := g, ds_output := ds_output st + chunk_tokens\<rparr>;
          (fr, st2) = generate_delta K item1 st1;
          m = build_llm_metric_annotation K (ds_gen st2) (unwrap_or 0 isl) (ds_output st1) chunk_tokens None
                (dc_counts cfg) (dc_image_tokens cfg) in
      (attach_llm_metrics K m fr,
       st2\<lparr>ds_finish_sent := (ds_finish_sent st2 \<or> is_some_and (\<lambda>out. is_some (bo_finish out)) data)\<rparr>))"

text \<open>The end of the stream: the usage chunk, and behind it the buffered one of the client.\<close>

definition delta_end :: "('g, 'r) delta_kit \<Rightarrow> delta_config \<Rightarrow> 'g delta_state \<Rightarrow> 'r annotated list" where
  "delta_end K cfg st =
     (if \<not> ds_finish_sent st then []
      else
        let g = ds_gen st; u = dk_usage K g; chunk = dk_usage_chunk K g;
            m = build_llm_metric_annotation K g (unat (u_prompt u)) (unat (u_completion u)) 0
                  (map_option unat (u_cached u)) (dc_counts cfg) (dc_image_tokens cfg);
            plain = (\<lambda>d. \<lparr>a_id = None, a_data = d, a_event = None, a_comment = None, a_error = None\<rparr>) in
        if dc_emit_payload cfg then
          \<lparr>a_id = None, a_data = Some chunk, a_event = Some (dk_payload_usage K),
           a_comment = (case dk_annotation K m of Some (_, c) \<Rightarrow> c | None \<Rightarrow> None), a_error = None\<rparr> #
          (if dk_usage_enabled K g then [plain (Some chunk)] else [])
        else [attach_llm_metrics K m (plain (if dk_usage_enabled K g then Some chunk else None))])"

fun delta_run ::
  "('g, 'r) delta_kit \<Rightarrow> delta_config \<Rightarrow> 'g delta_state \<Rightarrow> backend_output annotated list \<Rightarrow> 'r annotated list" where
  "delta_run K cfg st [] = delta_end K cfg st"
| "delta_run K cfg st (item # items) =
     (if ds_cancelled st then []
      else let (fr, st') = delta_item K cfg item st in fr # delta_run K cfg st' items)"

definition transform_postprocessor_stream_with_image_tokens ::
  "('g, 'r) delta_kit \<Rightarrow> delta_config \<Rightarrow> 'g \<Rightarrow> backend_output annotated list \<Rightarrow> 'r annotated list" where
  "transform_postprocessor_stream_with_image_tokens K cfg g items =
     delta_run K cfg \<lparr>ds_gen = g, ds_cancelled = False, ds_output = 0, ds_finish_sent = False\<rparr> items"

section \<open>What a client sees\<close>

text \<open>
  The payload chunk is for the request trace; a client never receives it, nor a frame without
  data.  Metrics are not serialized: \<open>bare\<close> takes them off a response.
\<close>

definition client_view :: "('g, 'r) delta_kit \<Rightarrow> ('r \<Rightarrow> 'r) \<Rightarrow> 'r annotated list \<Rightarrow> 'r list" where
  "client_view K bare frs =
     map bare (List.map_filter (\<lambda>fr. if a_event fr = Some (dk_payload_usage K) then None else a_data fr) frs)"

lemma client_view_simps [simp]:
  "client_view K bare [] = []"
  "client_view K bare (fr # frs) =
     (if a_event fr = Some (dk_payload_usage K) then client_view K bare frs
      else case a_data fr of Some r \<Rightarrow> bare r # client_view K bare frs | None \<Rightarrow> client_view K bare frs)"
  by (simp_all add: client_view_def map_filter_simps split: option.split)

lemma delta_end_view:
  assumes "\<And>m r r'. dk_chat_metrics K m r = Some r' \<Longrightarrow> bare r' = bare r"
    and "\<And>m event comment. dk_annotation K m = Some (event, comment) \<Longrightarrow> event \<noteq> Some (dk_payload_usage K)"
  shows "client_view K bare (delta_end K cfg st) =
     (if ds_finish_sent st \<and> dk_usage_enabled K (ds_gen st) then [bare (dk_usage_chunk K (ds_gen st))] else [])"
  using assms
  by (auto simp: delta_end_def Let_def attach_llm_metrics_def attach_metrics_annotation_def bind_eq_Some_conv
      split: option.splits prod.splits)

lemma delta_item_payload: "delta_item K (cfg\<lparr>dc_emit_payload := p\<rparr>) item st = delta_item K cfg item st"
  by (simp add: delta_item_def)

lemma delta_run_payload:
  assumes "\<And>m r r'. dk_chat_metrics K m r = Some r' \<Longrightarrow> bare r' = bare r"
    and "\<And>m event comment. dk_annotation K m = Some (event, comment) \<Longrightarrow> event \<noteq> Some (dk_payload_usage K)"
  shows "client_view K bare (delta_run K (cfg\<lparr>dc_emit_payload := p\<rparr>) st items) = client_view K bare (delta_run K cfg st items)"
proof (induction items arbitrary: st)
  case Nil
  show ?case by (simp add: delta_end_view [OF assms])
next
  case (Cons item items)
  then show ?case by (simp add: delta_item_payload Let_def split_beta split: option.split)
qed

section \<open>Accounting\<close>

text \<open>The metrics of a frame, where \<open>metrics_of\<close> reads them off a response.\<close>

definition frame_metrics :: "('r \<Rightarrow> llm_metrics option) \<Rightarrow> 'r annotated \<Rightarrow> llm_metrics option" where
  "frame_metrics metrics_of fr = Option.bind (a_data fr) metrics_of"

text \<open>Items of a healthy stream: they carry output the generator accepts, and no event.\<close>

fun healthy :: "('g, 'r) delta_kit \<Rightarrow> delta_config \<Rightarrow> 'g delta_state \<Rightarrow> backend_output annotated list \<Rightarrow> bool" where
  "healthy K cfg st [] = (\<not> ds_cancelled st)"
| "healthy K cfg st (item # items) =
     (\<not> ds_cancelled st \<and> a_data item \<noteq> None \<and> a_event item = None
      \<and> healthy K cfg (snd (delta_item K cfg item st)) items)"

definition item_tokens :: "backend_output annotated \<Rightarrow> nat" where
  "item_tokens item = (case a_data item of Some out \<Rightarrow> length (bo_token_ids out) | None \<Rightarrow> 0)"

definition item_finishes :: "backend_output annotated \<Rightarrow> bool" where
  "item_finishes item = is_some_and (\<lambda>out. is_some (bo_finish out)) (a_data item)"

lemma drain_keeps:
  assumes "drain_router_routing_data K data g = (data', g')"
  shows "map_option bo_token_ids data' = map_option bo_token_ids data" "map_option bo_finish data' = map_option bo_finish data"
  using assms by (cases data; auto simp: drain_router_routing_data_def split: option.splits)+

lemma delta_item_account:
  assumes "\<And>m r. \<exists>r'. dk_chat_metrics K m r = Some r' \<and> metrics_of r' = Some m"
    and "delta_item K cfg item st = (fr, st')" "a_data item = Some out" "a_event item = None" "\<not> ds_cancelled st'"
  shows "map_option lm_chunk (frame_metrics metrics_of fr) = Some (item_tokens item)
    \<and> map_option lm_output (frame_metrics metrics_of fr) = Some (ds_output st + item_tokens item)
    \<and> ds_output st' = ds_output st + item_tokens item \<and> ds_finish_sent st' = (ds_finish_sent st \<or> item_finishes item)"
proof -
  obtain data g where dr: "drain_router_routing_data K (a_data item) (ds_gen st) = (data, g)" by fastforce
  from drain_keeps [OF dr] assms(3) obtain out' where
    out': "data = Some out'" "bo_token_ids out' = bo_token_ids out" "bo_finish out' = bo_finish out"
    by (cases data) auto
  obtain res g' where ch: "dk_choice K g out' = (res, g')" by fastforce
  show ?thesis
  proof (cases res)
    case (Inl e)
    with assms(2,5) dr out' ch have False
      by (auto simp: delta_item_def generate_delta_def Let_def)
    then show ?thesis ..
  next
    case (Inr r)
    have attached: "frame_metrics metrics_of (attach_llm_metrics K m
        \<lparr>a_id = i, a_data = Some r, a_event = None, a_comment = c, a_error = e\<rparr>) = Some m" for m i c e
      using assms(1) [of m r] by (auto simp: attach_llm_metrics_def frame_metrics_def)
    from Inr assms(2-4) dr out' ch show ?thesis
      by (auto simp: delta_item_def generate_delta_def Let_def attached build_llm_metric_annotation_def
          item_tokens_def item_finishes_def)
  qed
qed

lemma healthy_step: "healthy K cfg st (item # items) \<Longrightarrow> \<not> ds_cancelled (snd (delta_item K cfg item st))"
  by (cases items) simp_all

lemma delta_run_account:
  assumes "\<And>m r. \<exists>r'. dk_chat_metrics K m r = Some r' \<and> metrics_of r' = Some m" "healthy K cfg st items"
  shows "\<exists>frs tail. delta_run K cfg st items = frs @ tail \<and> length frs = length items
    \<and> map (\<lambda>fr. map_option lm_chunk (frame_metrics metrics_of fr)) frs = map (\<lambda>item. Some (item_tokens item)) items
    \<and> (\<forall>i < length items. map_option lm_output (frame_metrics metrics_of (frs ! i)) =
         Some (ds_output st + sum_list (map item_tokens (take (Suc i) items))))
    \<and> (tail \<noteq> [] \<longleftrightarrow> ds_finish_sent st \<or> list_ex item_finishes items)"
  using assms(2)
proof (induction items arbitrary: st)
  case Nil
  show ?case by (rule exI [of _ "[]"], rule exI [of _ "delta_end K cfg st"]) (simp add: delta_end_def Let_def)
next
  case (Cons item items)
  obtain fr st' where it: "delta_item K cfg item st = (fr, st')" by fastforce
  from Cons.prems obtain out where out: "a_data item = Some out" "a_event item = None" "\<not> ds_cancelled st"
    and rest: "healthy K cfg st' items" using it by auto
  have "\<not> ds_cancelled st'" using healthy_step [OF Cons.prems] it by simp
  note acc = delta_item_account [OF assms(1) it out(1,2) this]
  from Cons.IH [OF rest] obtain frs tail where IH: "delta_run K cfg st' items = frs @ tail" "length frs = length items"
    "map (\<lambda>fr. map_option lm_chunk (frame_metrics metrics_of fr)) frs = map (\<lambda>item. Some (item_tokens item)) items"
    "\<forall>i < length items. map_option lm_output (frame_metrics metrics_of (frs ! i)) =
       Some (ds_output st' + sum_list (map item_tokens (take (Suc i) items)))"
    "tail \<noteq> [] \<longleftrightarrow> ds_finish_sent st' \<or> list_ex item_finishes items" by (elim exE conjE)
  have "map_option lm_output (frame_metrics metrics_of ((fr # frs) ! i)) =
      Some (ds_output st + sum_list (map item_tokens (take (Suc i) (item # items))))" if "i < length (item # items)" for i
    using that acc IH(4) by (cases i) (auto simp: add.assoc)
  then show ?case
    using IH acc it out(3) by (intro exI [of _ "fr # frs"] exI [of _ tail]) auto
qed

section \<open>Properties\<close>

text \<open>
  C28.  Capturing the payload of a request does not change what its client receives: whatever the
  engine delivers and wherever the stream breaks off, the responses that reach the client, in
  order and without their internal metrics, are the same with and without the payload chunk;
  in particular the usage chunk is there exactly when the client asked for it.
\<close>

theorem payload_capture_is_invisible:
  assumes "\<forall>m r r'. dk_chat_metrics K m r = Some r' \<longrightarrow> bare r' = bare r"
    and "\<forall>m event comment. dk_annotation K m = Some (event, comment) \<longrightarrow> event \<noteq> Some (dk_payload_usage K)"
  shows "client_view K bare (transform_postprocessor_stream_with_image_tokens K (cfg\<lparr>dc_emit_payload := True\<rparr>) g items) =
         client_view K bare (transform_postprocessor_stream_with_image_tokens K (cfg\<lparr>dc_emit_payload := False\<rparr>) g items)"
  unfolding transform_postprocessor_stream_with_image_tokens_def
  using delta_run_payload [where K = K and bare = bare and cfg = cfg and p = True]
    delta_run_payload [where K = K and bare = bare and cfg = cfg and p = False] assms by metis

text \<open>
  Every token is counted once.  On a stream whose items the generator accepts, each item
  becomes one response, in order; its metrics carry the number of its own tokens and the number of
  all tokens up to it; and the stream is followed by a usage chunk exactly if a finish reason
  was seen.
\<close>

lemma delta_metrics_count_every_token:
  assumes "\<forall>m r. \<exists>r'. dk_chat_metrics K m r = Some r' \<and> metrics_of r' = Some m"
    and "healthy K cfg \<lparr>ds_gen = g, ds_cancelled = False, ds_output = 0, ds_finish_sent = False\<rparr> items"
  shows "\<exists>frs tail. transform_postprocessor_stream_with_image_tokens K cfg g items = frs @ tail \<and> length frs = length items
    \<and> map (\<lambda>fr. map_option lm_chunk (frame_metrics metrics_of fr)) frs = map (\<lambda>item. Some (item_tokens item)) items
    \<and> (\<forall>i < length items. map_option lm_output (frame_metrics metrics_of (frs ! i)) =
         Some (sum_list (map item_tokens (take (Suc i) items))))
    \<and> (tail \<noteq> [] \<longleftrightarrow> list_ex item_finishes items)"
proof -
  have "\<exists>r'. dk_chat_metrics K m r = Some r' \<and> metrics_of r' = Some m" for m r using assms(1) by blast
  from delta_run_account [OF this assms(2)] show ?thesis
    unfolding transform_postprocessor_stream_with_image_tokens_def by simp
qed

section \<open>A sample stream\<close>

text \<open>Responses that are numbers with metrics, from a generator that numbers them.\<close>

definition sample_delta_kit :: "(nat, nat \<times> llm_metrics option) delta_kit" where
  "sample_delta_kit =
     \<lparr>dk_tracked = True, dk_set_timing = (\<lambda>_ g. g), dk_set_worker = (\<lambda>_ g. g), dk_set_tokens = (\<lambda>_ g. g),
      dk_isl = (\<lambda>_. Some 3), dk_choice = (\<lambda>g _. (Inr (g, None), Suc g)), dk_usage_chunk = (\<lambda>g. (g, None)),
      dk_usage = (\<lambda>_. \<lparr>u_prompt = 3, u_completion = 2, u_cached = None, u_details = None\<rparr>),
      dk_usage_enabled = (\<lambda>_. True), dk_workers = (\<lambda>_. JNull), dk_chat_metrics = (\<lambda>m r. Some (fst r, Some m)),
      dk_annotation = (\<lambda>_. Some (Some ''llm_metrics'', None)),
      dk_error = (\<lambda>e. \<lparr>a_id = None, a_data = None, a_event = Some ''error'', a_comment = None, a_error = Some e\<rparr>),
      dk_payload_usage = ''payload_usage''\<rparr>"

definition sample_output :: "token_id list \<Rightarrow> json option \<Rightarrow> backend_output annotated" where
  "sample_output ts fin =
     \<lparr>a_id = None, a_data = Some \<lparr>bo_index = 0, bo_token_ids = ts, bo_finish = fin, bo_routing = None, bo_rest = JNull\<rparr>,
      a_event = None, a_comment = None, a_error = None\<rparr>"

definition sample_delta_config :: delta_config where
  "sample_delta_config =
     \<lparr>dc_emit_payload = False, dc_counts = \<lparr>mc_image = 0, mc_video = 0, mc_audio = 0\<rparr>, dc_image_tokens = None\<rparr>"

definition sample_outputs :: "backend_output annotated list" where
  "sample_outputs = [sample_output [5, 6] None, sample_output [7] (Some (JString ''stop''))]"

theorem payload_capture_is_invisible_witness:
  "client_view sample_delta_kit (\<lambda>r. (fst r, None))
     (transform_postprocessor_stream_with_image_tokens sample_delta_kit (sample_delta_config\<lparr>dc_emit_payload := True\<rparr>) 0 sample_outputs) =
   client_view sample_delta_kit (\<lambda>r. (fst r, None))
     (transform_postprocessor_stream_with_image_tokens sample_delta_kit (sample_delta_config\<lparr>dc_emit_payload := False\<rparr>) 0 sample_outputs)"
  by (rule payload_capture_is_invisible) (simp_all add: sample_delta_kit_def)

lemma delta_metrics_count_every_token_sample:
  "\<exists>frs tail. transform_postprocessor_stream_with_image_tokens sample_delta_kit sample_delta_config 0 sample_outputs = frs @ tail
     \<and> map (\<lambda>fr. map_option lm_chunk (frame_metrics snd fr)) frs = [Some 2, Some 1] \<and> tail \<noteq> []"
proof -
  have h: "healthy sample_delta_kit sample_delta_config
      \<lparr>ds_gen = 0, ds_cancelled = False, ds_output = 0, ds_finish_sent = False\<rparr> sample_outputs"
    by (simp add: sample_outputs_def sample_output_def delta_item_def generate_delta_def drain_router_routing_data_def
        sample_delta_kit_def Let_def)
  have "\<forall>m r. \<exists>r'. dk_chat_metrics sample_delta_kit m r = Some r' \<and> snd r' = Some m"
    by (simp add: sample_delta_kit_def)
  from delta_metrics_count_every_token [OF this h] obtain frs tail where
    "transform_postprocessor_stream_with_image_tokens sample_delta_kit sample_delta_config 0 sample_outputs = frs @ tail"
    "map (\<lambda>fr. map_option lm_chunk (frame_metrics snd fr)) frs = map (\<lambda>item. Some (item_tokens item)) sample_outputs"
    "tail \<noteq> [] \<longleftrightarrow> list_ex item_finishes sample_outputs" by (elim exE conjE)
  moreover have "map (\<lambda>item. Some (item_tokens item)) sample_outputs = [Some 2, Some 1]" "list_ex item_finishes sample_outputs"
    by (simp_all add: sample_outputs_def sample_output_def item_tokens_def item_finishes_def)
  ultimately show ?thesis by (intro exI [of _ frs] exI [of _ tail]) simp
qed

end
