(* ===== verification/Chat_Generate.thy ===== *)
theory Chat_Generate
  imports Preprocess Pipeline Delta_Stream Tool_Warmup
begin

text \<open>
  The operators of the preprocessor (\<open>generate\<close> for chat and for completions in
  \<open>fix/dynamo/preprocessor.rs\<close>): normalization and preprocessing of the request, the call of the
  engine, the response stages, and the wrapper of the warmup around the stream.

  The engine, the response generator, the guided decoding of tool choices and the aggregation for
  request traces are code outside the repository: functions of \<open>chat_env\<close>.  The items of the
  engine's stream are given as the list of all of them.
\<close>

section \<open>Environment and requests\<close>

record chat_context =
  cx_lora :: "string option"
  cx_preserve_omitted :: bool
  cx_agent_context :: "json option"
  cx_session_affinity :: "string option"

record engine_request =
  er_request :: built_request
  er_agent_context :: "json option"
  er_image_cache_scope :: "string option"

record chat_request =
  cq_request :: build_request
  cq_stream :: "bool option"
  cq_n :: "u8 option"
  cq_parsing_enabled :: bool
  cq_has_tools :: bool
  cq_tool_definitions :: "string + json list"

record ('g, 'j, 'p) chat_env =
  ce_lib :: build_lib
  ce_media :: media_env
  ce_deployment :: deployment
  ce_default_thinking :: "json option"
  ce_artifacts_supported :: bool
  ce_post :: "('j, 'p) postprocessor"
  ce_delta :: "('g, chunk) delta_kit"
  ce_generator :: "build_request \<Rightarrow> bool \<Rightarrow> 'g"
  ce_capture :: "token_id list \<Rightarrow> 'g \<Rightarrow> 'g"
  ce_update_isl :: "u32 \<Rightarrow> 'g \<Rightarrow> 'g"
  ce_guided :: "build_request \<Rightarrow> built_request \<Rightarrow> bool \<Rightarrow> request_error + built_request \<times> bool \<times> bool"
  ce_engine :: "engine_request \<Rightarrow> request_error + backend_output annotated list"
  ce_payload :: "build_request \<Rightarrow> (frame list \<Rightarrow> frame list) option"
  ce_annotation :: "string \<Rightarrow> string \<Rightarrow> frame list"

section \<open>The parts of the operator\<close>

definition attach_request_context_metadata :: "chat_context \<Rightarrow> built_request \<Rightarrow> engine_request" where
  "attach_request_context_metadata cx b =
     \<lparr>er_request = b, er_agent_context = cx_agent_context cx, er_image_cache_scope = cx_session_affinity cx\<rparr>"

definition multimodal_counts_of :: "built_request \<Rightarrow> multimodal_counts" where
  "multimodal_counts_of b =
     (let count = (\<lambda>key. case Option.bind (bt_media b) (\<lambda>m. om_get m key) of Some slots \<Rightarrow> length slots | None \<Rightarrow> 0) in
      \<lparr>mc_image = count ''image_url'', mc_video = count ''video_url'', mc_audio = count ''audio_url''\<rparr>)"

definition normalized_request :: "('g, 'j, 'p) chat_env \<Rightarrow> build_request \<Rightarrow> build_request" where
  "normalized_request env r =
     (let t = bq_think r;
          D = ce_deployment env;
          from_client = request_has_client_thinking_control t;
          t1 = apply_default_thinking_mode (ce_default_thinking env) t;
          t2 = normalize_thinking_arg_with_source (bl_thinking (ce_lib env)) (dp_reasoning_parser D) (dp_tool_parser D)
                 from_client t1 in
      r\<lparr>bq_think := normalize_kimi_k3_named_tool_choice (dp_tool_parser D) t2\<rparr>)"

definition speculative_hint :: "build_request \<Rightarrow> bool option" where
  "speculative_hint r =
     Option.bind (Option.bind (bq_nvext r) nx_agent_hints) ah_speculative_prefill"

text \<open>
  The identity the first continuation contract supports: a plain text model without namespace.
  Hints that serialize like the default are the default.
\<close>

definition speculative_identity_supported ::
  "('g, 'j, 'p) chat_env \<Rightarrow> build_request \<Rightarrow> built_request \<Rightarrow> bool" where
  "speculative_identity_supported env r b =
     (ce_artifacts_supported env
      \<and> speculative_hint r = Some True
      \<and> \<not> dp_normalize_tool_call_args (ce_deployment env)
      \<and> Option.bind (bq_nvext r) nx_use_raw_prompt \<noteq> Some True
      \<and> Option.bind (bq_nvext r) nx_token_data = None
      \<and> bt_prompt_embeds b = None
      \<and> bt_media b = None
      \<and> (case bt_routing b of None \<Rightarrow> True | Some h \<Rightarrow> h = default_hints))"

definition warm_options_of :: "chat_request \<Rightarrow> build_request \<Rightarrow> warm_options" where
  "warm_options_of cq r =
     \<lparr>wo_nvext = map_option (\<lambda>nx. map_option ah_speculative_prefill (nx_agent_hints nx)) (bq_nvext r),
      wo_n = cq_n cq, wo_continue_final = bq_continue_final r\<rparr>"

definition parse_request_of :: "chat_request \<Rightarrow> build_request \<Rightarrow> bool \<Rightarrow> bool \<Rightarrow> parse_request" where
  "parse_request_of cq r structural_tag guided_json =
     \<lparr>pq_think = bq_think r, pq_structural_tag = structural_tag, pq_guided_json = guided_json,
      pq_parsing_enabled = cq_parsing_enabled cq, pq_has_tools = cq_has_tools cq,
      pq_tool_definitions = cq_tool_definitions cq\<rparr>"

text \<open>The response side: deltas, parsing, roles and the aggregation for the trace.\<close>

definition chat_stream ::
  "('g, 'j, 'p) chat_env \<Rightarrow> parse_request \<Rightarrow> tool_route \<Rightarrow> bool \<Rightarrow> (frame list \<Rightarrow> frame list) option \<Rightarrow> delta_config \<Rightarrow> 'g \<Rightarrow>
     backend_output annotated list \<Rightarrow> string + frame list" where
  "chat_stream env q route injected payload cfg g items =
     map_sum id (\<lambda>fs. let fs1 = normalize_chat_stream_roles fs in
         case payload of Some aggregate \<Rightarrow> aggregate fs1 | None \<Rightarrow> fs1)
       (postprocessor_parsing_stream_with_constraint (ce_post env) q injected route
          (transform_postprocessor_stream_with_image_tokens (ce_delta env) cfg g items))"

section \<open>The operators\<close>

definition chat_generate ::
  "message protocol \<Rightarrow> ('g, 'j, 'p) chat_env \<Rightarrow> chat_context \<Rightarrow> chat_request \<Rightarrow> request_error + frame list \<times> message option" where
  "chat_generate P env cx cq =
     (let D = ce_deployment env;
          payload = ce_payload env (cq_request cq);
          r = normalized_request env (cq_request cq);
          g = ce_generator env r (unwrap_or False (cq_stream cq)) in
      case preprocess_request_with_options (ce_lib env) (ce_media env) D r True (cx_preserve_omitted cx) (cx_lora cx) of
        Inl e \<Rightarrow> Inl e
      | Inr out \<Rightarrow>
          (case ce_guided env r (pp_request out) (pp_prompt_injected out) of
             Inl e \<Rightarrow> Inl e
           | Inr (b, structural_tag, guided_json) \<Rightarrow>
               let q = parse_request_of cq r structural_tag guided_json;
                   route = tool_processing_route (pp_registry (ce_post env)) (dp_tool_parser D) (dp_reasoning_parser D)
                             (route_request_of q) in
               (case validate_legacy_jail_nvext_choice_count (unwrap_or 1 (cq_n cq))
                       (Option.bind (bq_nvext r) nx_extra_fields) (uses_legacy_jail route) of
                  Inl e \<Rightarrow> Inl (Invalid_Argument e)
                | Inr _ \<Rightarrow>
                    let identity = speculative_identity_supported env r b;
                        g1 = (case pp_captured out of Some ts \<Rightarrow> ce_capture env ts g | None \<Rightarrow> g);
                        g2 = (if bt_prompt_embeds b = None then ce_update_isl env (of_nat (length (bt_tokens b))) g1 else g1);
                        cfg = \<lparr>dc_emit_payload = is_some payload, dc_counts = multimodal_counts_of b,
                               dc_image_tokens = pp_image_tokens out\<rparr>;
                        notes = concat (map (\<lambda>(k, v). ce_annotation env k v) (pp_annotations out)) in
                    (case ce_engine env (attach_request_context_metadata cx b) of
                       Inl e \<Rightarrow> Inl e
                     | Inr items \<Rightarrow>
                         map_sum Internal_Error (\<lambda>fs.
                             let (fs', warm) = maybe_wrap_stream P (warm_options_of cq r) identity fs in
                             (notes @ fs', warm))
                           (chat_stream env q route (pp_prompt_injected out) payload cfg g2 items)))))"

text \<open>Completions: embeddings skip tokenization, media get no routing information of their own.\<close>

definition completion_request ::
  "build_lib \<Rightarrow> media_env \<Rightarrow> deployment \<Rightarrow> build_request \<Rightarrow> string option \<Rightarrow> string option \<Rightarrow>
     request_error + built_request \<times> annotation_map" where
  "completion_request L E D r prompt_embeds lora =
     (case builder_with_lora L D r lora of
        Inl e \<Rightarrow> Inl e
      | Inr b \<Rightarrow>
          (case (case prompt_embeds of
                   Some em \<Rightarrow> Inr (b\<lparr>bt_tokens := [], bt_prompt_embeds := Some em\<rparr>, [])
                 | None \<Rightarrow> map_sum id (\<lambda>(toks, notes). (b\<lparr>bt_tokens := toks\<rparr>, notes)) (gather_tokens L r None)) of
             Inl e \<Rightarrow> Inl e
           | Inr (b1, notes) \<Rightarrow>
               (case gather_multi_modal_data_with_image_tokens E D r None [] b1 of
                  Inl e \<Rightarrow> Inl e
                | Inr (b2, _, _) \<Rightarrow>
                    map_sum Over_Budget (\<lambda>_. (b2, notes))
                      (validate_preprocessed_token_budget (budget_view b2) (dp_budget D)))))"

definition completion_generate ::
  "('g, 'j, 'p) chat_env \<Rightarrow> ('g, 'r) delta_kit \<Rightarrow> (string \<Rightarrow> string \<Rightarrow> 'r annotated list) \<Rightarrow> chat_context \<Rightarrow> build_request \<Rightarrow>
     bool \<Rightarrow> string option \<Rightarrow> request_error + 'r annotated list" where
  "completion_generate env K annotation cx r streaming prompt_embeds =
     (let g = ce_generator env r streaming in
      case completion_request (ce_lib env) (ce_media env) (ce_deployment env) r prompt_embeds (cx_lora cx) of
        Inl e \<Rightarrow> Inl e
      | Inr (b, notes) \<Rightarrow>
          let g1 = (if prompt_embeds = None
                    then (case capture_prompt_token_ids r True (bt_tokens b) of Some ts \<Rightarrow> ce_capture env ts g | None \<Rightarrow> g)
                    else g);
              g2 = (if bt_prompt_embeds b = None then ce_update_isl env (of_nat (length (bt_tokens b))) g1 else g1);
              cfg = \<lparr>dc_emit_payload = False, dc_counts = \<lparr>mc_image = 0, mc_video = 0, mc_audio = 0\<rparr>, dc_image_tokens = None\<rparr> in
          map_sum id (\<lambda>items. concat (map (\<lambda>(k, v). annotation k v) notes)
              @ transform_postprocessor_stream_with_image_tokens K cfg g2 items)
            (ce_engine env (attach_request_context_metadata cx b)))"

section \<open>Lemmas\<close>

lemma normalized_keeps:
  "bq_cache_salt (normalized_request env r) = bq_cache_salt r" "bq_nvext (normalized_request env r) = bq_nvext r"
  "bq_parts (normalized_request env r) = bq_parts r" "bq_continue_final (normalized_request env r) = bq_continue_final r"
  by (simp_all add: normalized_request_def Let_def)

lemma preprocess_builds:
  assumes "preprocess_request_with_options L E D r tracked preserve lora = Inr out"
  obtains b prompt toks b1 es n where "builder_with_lora L D r lora = Inr b"
    "gather_multi_modal_data_with_image_tokens E D r prompt toks b = Inr (b1, es, n)"
    "bt_routing (pp_request out) = bt_routing b1" "bt_media (pp_request out) = bt_media b1"
proof (rule preprocessE [OF assms])
  fix b b1 b3 :: built_request and formatted toks es n
  let ?b = "b1\<lparr>bt_tokens := toks, bt_router := (case Option.bind (bq_nvext r) nx_router of Some p \<Rightarrow> Some p | None \<Rightarrow> bt_router b1)\<rparr>"
  assume b: "builder_with_lora L D r lora = Inr b"
    and g: "gather_multi_modal_data_with_image_tokens E D r (map_option rp_text formatted) toks b = Inr (b1, es, n)"
    and a: "attach_reasoning_ended D (map_option rp_text formatted) ?b = Inr b3"
    and s: "settle_built preserve (dp_budget D) b3 = Inr (pp_request out)"
  have "bt_routing b3 = bt_routing b1" "bt_media b3 = bt_media b1"
    using a by (auto simp: attach_reasoning_ended_def split: option.splits json.splits)
  moreover have "bt_routing (pp_request out) = bt_routing b3" "bt_media (pp_request out) = bt_media b3"
    using s by (auto simp: settle_built_def elim!: map_sum_eq_InrE)
  ultimately show thesis using that [OF b g] by simp
qed

lemma built_routing:
  assumes "preprocess_request_with_options L E D r tracked preserve lora = Inr out"
  shows "bt_routing (pp_request out) = request_routing L D r lora"
proof (rule preprocess_builds [OF assms])
  fix b prompt toks b1 es n
  assume "builder_with_lora L D r lora = Inr b" "bt_routing (pp_request out) = bt_routing b1"
    and g: "gather_multi_modal_data_with_image_tokens E D r prompt toks b = Inr (b1, es, n)"
  then show ?thesis
    using gather_args [OF g] by (auto simp: builder_with_lora_def split: sum.splits)
qed

lemma built_media:
  assumes "preprocess_request_with_options L E D r tracked preserve lora = Inr out" "bt_media (pp_request out) = None"
    and "bq_parts r = Some msgs" "ordered_parts (me_message_order E r) msgs = Inr ps"
  shows "ps = []"
proof (rule preprocess_builds [OF assms(1)])
  fix b prompt toks b1 es n
  assume g: "gather_multi_modal_data_with_image_tokens E D r prompt toks b = Inr (b1, es, n)"
    and m: "bt_media (pp_request out) = bt_media b1"
  from gatherE [OF g assms(3,4)] obtain sc st tokens where sc: "scan_ok E (dp_media_loader D) ps sc"
    "resolve_media E r sc = Inr st" "install_media E D r prompt toks sc st b = (b1, es, tokens)" .
  from sc(3) assms(2) m have "fs_media st = []"
    by (auto simp: install_media_def Let_def split: if_splits)
  with resolved_slots [OF sc(1,2)] slot_map_Nil show ?thesis by (metis om_get_Nil)
qed

lemma plain_routing:
  assumes "bq_nvext r = Some nx" "request_routing L D r lora = Some default_hints"
  shows "bq_cache_salt r = None" "dp_lora D = None" "lora = None" "nx_backend_instance nx = None"
    "nx_prefill_worker nx = None" "nx_decode_worker nx = None"
  using assms
  by (auto simp: request_routing_def Let_def default_hints_def split: prod.splits option.splits)

text \<open>A successful chat request, as far as the warmup depends on it.\<close>

lemma chat_generateE:
  fixes env :: "('g, 'j, 'p) chat_env"
  assumes "chat_generate P env cx cq = Inr (frs, warm)"
  obtains out b tag json fs where
    "preprocess_request_with_options (ce_lib env) (ce_media env) (ce_deployment env) (normalized_request env (cq_request cq)) True
       (cx_preserve_omitted cx) (cx_lora cx) = Inr out"
    "ce_guided env (normalized_request env (cq_request cq)) (pp_request out) (pp_prompt_injected out) = Inr (b, tag, json)"
    "warm = snd (maybe_wrap_stream P (warm_options_of cq (normalized_request env (cq_request cq)))
       (speculative_identity_supported env (normalized_request env (cq_request cq)) b) fs)"
    "\<exists>notes. frs = notes @ fs"
proof -
  have through: "fst (maybe_wrap_stream P w i fs) = fs" for w i fs
    by (simp add: maybe_wrap_stream_def run_stage_def watch_emits)
  let ?r = "normalized_request env (cq_request cq)"
  obtain out where
    out: "preprocess_request_with_options (ce_lib env) (ce_media env) (ce_deployment env) ?r True
       (cx_preserve_omitted cx) (cx_lora cx) = Inr out"
    using assms by (auto simp: chat_generate_def Let_def split: sum.splits)
  obtain b tag json where b: "ce_guided env ?r (pp_request out) (pp_prompt_injected out) = Inr (b, tag, json)"
    using assms out by (auto simp: chat_generate_def Let_def split: sum.splits)
  define wrapped where "wrapped = maybe_wrap_stream P (warm_options_of cq ?r) (speculative_identity_supported env ?r b)"
  from assms out b obtain fs ns where res: "(frs, warm) = (ns @ fst (wrapped fs), snd (wrapped fs))"
    by (auto simp: chat_generate_def Let_def split_beta split: sum.splits elim!: map_sum_eq_InrE simp flip: wrapped_def)
  then have warm: "warm = snd (maybe_wrap_stream P (warm_options_of cq ?r) (speculative_identity_supported env ?r b) fs)"
    and frs: "frs = ns @ fst (maybe_wrap_stream P (warm_options_of cq ?r) (speculative_identity_supported env ?r b) fs)"
    by (simp_all add: wrapped_def)
  from frs have "\<exists>notes. frs = notes @ fs" by (simp add: through)
  from that [OF out b warm this] show thesis .
qed

section \<open>A sample chat\<close>

text \<open>
  A plain request with the hint, an engine whose outputs the generator turns into the
  tool-calling stream of \<open>Tool_Turn\<close>, and a route that passes it on.
\<close>

definition sample_hints :: agent_hints where
  "sample_hints =
     \<lparr>ah_priority = None, ah_latency_sensitivity = None, ah_strict_priority = None, ah_osl = None,
      ah_speculative_prefill = Some True\<rparr>"

definition sample_nv_ext :: nv_ext where
  "sample_nv_ext =
     \<lparr>nx_extra_fields = None, nx_metadata_upload = None, nx_token_data = None, nx_agent_hints = Some sample_hints,
      nx_request_timestamp = None, nx_backend_instance = None, nx_prefill_worker = None, nx_decode_worker = None,
      nx_dp_rank = None, nx_prefill_dp_rank = None, nx_routing_constraints = None, nx_router = None, nx_use_raw_prompt = None\<rparr>"

definition sample_chat_request :: chat_request where
  "sample_chat_request =
     \<lparr>cq_request = sample_build_request\<lparr>bq_nvext := Some sample_nv_ext, bq_cache_salt := None\<rparr>,
      cq_stream = Some True, cq_n = None, cq_parsing_enabled = True, cq_has_tools = True, cq_tool_definitions = Inr []\<rparr>"

definition sample_chunk_kit :: "(nat, chunk) delta_kit" where
  "sample_chunk_kit =
     \<lparr>dk_tracked = True, dk_set_timing = (\<lambda>_ g. g), dk_set_worker = (\<lambda>_ g. g), dk_set_tokens = (\<lambda>_ g. g),
      dk_isl = (\<lambda>_. Some 3), dk_choice = (\<lambda>g _. (Inr (sample_stream ! g), Suc g)), dk_usage_chunk = (\<lambda>_. sample_stream ! 0),
      dk_usage = (\<lambda>_. \<lparr>u_prompt = 3, u_completion = 2, u_cached = None, u_details = None\<rparr>),
      dk_usage_enabled = (\<lambda>_. False), dk_workers = (\<lambda>_. JNull), dk_chat_metrics = (\<lambda>m k. Some (k\<lparr>k_metrics := Some (lm_chunk m)\<rparr>)),
      dk_annotation = (\<lambda>_. None), dk_error = (\<lambda>e. (frame_of (sample_stream ! 0))\<lparr>a_error := Some e\<rparr>),
      dk_payload_usage = ''payload_usage''\<rparr>"

definition sample_chat_env :: "(nat, nat, bool) chat_env" where
  "sample_chat_env =
     \<lparr>ce_lib = sample_build_lib, ce_media = sample_media_env, ce_deployment = sample_deployment, ce_default_thinking = None,
      ce_artifacts_supported = True, ce_post = rogue_postprocessor\<lparr>pp_registry := sample_registry\<lparr>pr_unified_family := (\<lambda>_ _. None), pr_selected_family := (\<lambda>_ _. None)\<rparr>\<rparr>,
      ce_delta = sample_chunk_kit, ce_generator = (\<lambda>_ _. 0), ce_capture = (\<lambda>_ g. g), ce_update_isl = (\<lambda>_ g. g),
      ce_guided = (\<lambda>_ b _. Inr (b, False, False)),
      ce_engine = (\<lambda>_. Inr (map (\<lambda>_. sample_output [5] None) sample_stream)), ce_payload = (\<lambda>_. None), ce_annotation = (\<lambda>_ _. [])\<rparr>"

definition sample_context :: chat_context where
  "sample_context = \<lparr>cx_lora = None, cx_preserve_omitted = False, cx_agent_context = None, cx_session_affinity = None\<rparr>"

lemma sample_chat:
  "map_sum (\<lambda>_. ()) snd (chat_generate sample_message_protocol sample_chat_env sample_context sample_chat_request) =
     Inr (Some (sample_turn ! 1))"
  by code_simp

section \<open>Properties\<close>

text \<open>
  C7.  A warmup is prepared only for a request with the plain identity.  If a chat request hands
  a completed turn to the warmup, then the deployment uses supported artifacts; the client asked
  for the warmup, for one choice and not for the continuation of its last message; and its
  request has no cache salt, no LoRA adapter from deployment or client, no pinned workers, no
  media, no supplied tokens and no raw prompt: the warmed prefix cannot be attributed to another
  namespace.  The client sees the turn of the response unchanged, behind its annotations.
\<close>

theorem warmup_only_for_plain_identity:
  assumes "chat_generate P env cx cq = Inr (frs, Some m)"
    and "\<forall>r b i b' tag json. ce_guided env r b i = Inr (b', tag, json) \<longrightarrow>
           bt_routing b' = bt_routing b \<and> bt_media b' = bt_media b"
  shows "ce_artifacts_supported env
    \<and> unwrap_or 1 (cq_n cq) = 1 \<and> bq_continue_final (cq_request cq) \<noteq> Some True
    \<and> bq_cache_salt (cq_request cq) = None \<and> dp_lora (ce_deployment env) = None \<and> cx_lora cx = None
    \<and> (\<exists>nx. bq_nvext (cq_request cq) = Some nx \<and> Option.bind (nx_agent_hints nx) ah_speculative_prefill = Some True
         \<and> nx_backend_instance nx = None \<and> nx_prefill_worker nx = None \<and> nx_decode_worker nx = None
         \<and> nx_token_data nx = None \<and> nx_use_raw_prompt nx \<noteq> Some True)
    \<and> (\<forall>msgs ps. bq_parts (cq_request cq) = Some msgs
         \<and> ordered_parts (me_message_order (ce_media env) (normalized_request env (cq_request cq))) msgs = Inr ps \<longrightarrow> ps = [])
    \<and> (\<exists>fs. suffix fs frs \<and> Option.bind (run_turn P (item_chunks fs)) (finish P) = Some m)"
proof -
  let ?r = "normalized_request env (cq_request cq)"
  from chat_generateE [OF assms(1)] obtain out b tag json fs where
    out: "preprocess_request_with_options (ce_lib env) (ce_media env) (ce_deployment env) ?r True
       (cx_preserve_omitted cx) (cx_lora cx) = Inr out"
    and b: "ce_guided env ?r (pp_request out) (pp_prompt_injected out) = Inr (b, tag, json)"
    and warm: "Some m = snd (maybe_wrap_stream P (warm_options_of cq ?r) (speculative_identity_supported env ?r b) fs)"
    and frs: "\<exists>notes. frs = notes @ fs" .
  have keep: "bt_routing b = bt_routing (pp_request out)" "bt_media b = bt_media (pp_request out)"
    using assms(2) b by blast+
  have wraps: "wraps_stream (warm_options_of cq ?r) (speculative_identity_supported env ?r b)"
    using warm by (auto simp: maybe_wrap_stream_def split: if_splits)
  then have opts: "unwrap_or 1 (cq_n cq) = 1" "bq_continue_final (cq_request cq) \<noteq> Some True"
    and id: "speculative_identity_supported env ?r b"
    by (auto simp: wraps_stream_def warm_options_of_def normalized_keeps)
  from id obtain nx where nx: "bq_nvext (cq_request cq) = Some nx"
    "Option.bind (nx_agent_hints nx) ah_speculative_prefill = Some True"
    "nx_token_data nx = None" "nx_use_raw_prompt nx \<noteq> Some True"
    by (auto simp: speculative_identity_supported_def speculative_hint_def normalized_keeps bind_eq_Some_conv)
  have "request_routing (ce_lib env) (ce_deployment env) ?r (cx_lora cx) = Some default_hints"
    using id keep(1) built_routing [OF out] nx(1)
    by (auto simp: speculative_identity_supported_def request_routing_def normalized_keeps Let_def
        split: option.splits prod.splits)
  note plain = plain_routing [OF _ this, unfolded normalized_keeps, OF nx(1)]
  have media: "bt_media (pp_request out) = None" "ce_artifacts_supported env"
    using id keep(2) by (simp_all add: speculative_identity_supported_def)
  have none: "ps = []" if "bq_parts (cq_request cq) = Some msgs"
    "ordered_parts (me_message_order (ce_media env) ?r) msgs = Inr ps" for msgs ps
    using built_media [OF out media(1)] that by (simp add: normalized_keeps)
  have "Option.bind (final (watch_step P) (Some turn_default) fs) (finish P) = Some m"
    using warm wraps by (simp add: maybe_wrap_stream_def)
  then have "Option.bind (run_turn P (item_chunks fs)) (finish P) = Some m"
    using watch_final_run [OF watch_sent_clean, of P "Some turn_default" fs m P "Some turn_default"] by (simp add: run_turn_def)
  moreover have "suffix fs frs" using frs by (auto simp: suffix_def)
  ultimately show ?thesis using opts nx plain media(2) none by blast
qed

theorem warmup_only_for_plain_identity_witness:
  "\<exists>frs. chat_generate sample_message_protocol sample_chat_env sample_context sample_chat_request = Inr (frs, Some (sample_turn ! 1))
     \<and> bq_cache_salt (cq_request sample_chat_request) = None
     \<and> (\<exists>fs. suffix fs frs \<and> Option.bind (run_turn sample_message_protocol (item_chunks fs)) (finish sample_message_protocol)
          = Some (sample_turn ! 1))"
proof -
  from sample_chat obtain frs where
    frs: "chat_generate sample_message_protocol sample_chat_env sample_context sample_chat_request = Inr (frs, Some (sample_turn ! 1))"
    by (auto elim!: map_sum_eq_InrE)
  have "\<forall>r b i b' tag json. ce_guided sample_chat_env r b i = Inr (b', tag, json) \<longrightarrow>
      bt_routing b' = bt_routing b \<and> bt_media b' = bt_media b"
    by (simp add: sample_chat_env_def)
  from warmup_only_for_plain_identity [OF frs this] frs show ?thesis by blast
qed

end
