(* ===== verification/Embedding.thy ===== *)
theory Embedding
  imports Token_Budget Chat_Types
begin

text \<open>
  The embedding path of \<open>fix/dynamo/preprocessor.rs\<close>: the truncation limit, the token ids
  of an embedding request, and the responses made of the vectors the worker returns.  The
  tokenizers and the base64 decoder are code outside the repository.
\<close>

unbundle bit_operations_syntax

section \<open>Requests\<close>

datatype embedding_error =
    Truncate_Too_Small int
  | Truncate_Needs_Context
  | Truncate_Too_Large int
  | Truncate_Exceeds nat nat
  | Tokenizers_Unavailable
  | Tokenizer_Failed string

datatype embedding_input =
    EI_String string
  | EI_StringArray "string list"
  | EI_IntegerArray "token_id list"
  | EI_ArrayOfIntegerArray "token_id list list"

record embedding_tokenizer =
  et_encode :: "string \<Rightarrow> string + token_id list"
  et_encode_batch :: "string list \<Rightarrow> string + token_id list list"

text \<open>
  \<open>EmbeddingTokenizerState\<close>: two tokenizers, made on first use from the model card, one
  that adds special tokens and one that does not.
\<close>

record tokenizer_state =
  ts_with :: "embedding_tokenizer option"
  ts_without :: "embedding_tokenizer option"
  ts_default :: "bool option"

definition embedding_add_special_tokens_env ::
  "(string \<Rightarrow> bool option) \<Rightarrow> (bool + string) \<Rightarrow> unit + bool option" where
  "embedding_add_special_tokens_env parse_bool var =
     (case var of
        Inr v \<Rightarrow> (case parse_bool v of Some b \<Rightarrow> Inr (Some b) | None \<Rightarrow> Inl ())
      | Inl not_unicode \<Rightarrow> if not_unicode then Inl () else Inr None)"

definition state_tokenizer ::
  "(bool \<Rightarrow> string + embedding_tokenizer) \<Rightarrow> bool \<Rightarrow> tokenizer_state \<Rightarrow>
     (string + embedding_tokenizer) \<times> tokenizer_state" where
  "state_tokenizer mdc add_special st =
     (case (if add_special then ts_with st else ts_without st) of
        Some t \<Rightarrow> (Inr t, st)
      | None \<Rightarrow>
          (case mdc add_special of
             Inl e \<Rightarrow> (Inl e, st)
           | Inr t \<Rightarrow> (Inr t, if add_special then st\<lparr>ts_with := Some t\<rparr> else st\<lparr>ts_without := Some t\<rparr>)))"

definition embedding_truncation_limit ::
  "u32 \<Rightarrow> int option \<Rightarrow> bool \<Rightarrow> embedding_error + nat option" where
  "embedding_truncation_limit context_length requested is_text =
     (case requested of
        None \<Rightarrow> Inr None
      | Some n \<Rightarrow>
          if n < -1 then Inl (Truncate_Too_Small n)
          else if \<not> is_text then Inr None
          else
            let model_limit = unat context_length in
            if n = -1 then
              (if model_limit = 0 then Inl Truncate_Needs_Context else Inr (Some model_limit))
            else if int usize_max < n then Inl (Truncate_Too_Large n)
            else if 0 < model_limit \<and> model_limit < nat n then Inl (Truncate_Exceeds (nat n) model_limit)
            else Inr (Some (nat n)))"

fun is_text_input :: "embedding_input \<Rightarrow> bool" where
  "is_text_input (EI_String _) = True"
| "is_text_input (EI_StringArray _) = True"
| "is_text_input _ = False"

record embedding_request =
  er_input :: embedding_input
  er_add_special :: "bool option"
  er_truncate :: "int option"

fun embedding_tokens ::
  "(bool \<Rightarrow> string + embedding_tokenizer) \<Rightarrow> bool \<Rightarrow> embedding_input \<Rightarrow> tokenizer_state \<Rightarrow>
     (embedding_error + token_id list list) \<times> tokenizer_state" where
  "embedding_tokens mdc add (EI_String s) st =
     (case state_tokenizer mdc add st of
        (Inl e, st') \<Rightarrow> (Inl (Tokenizer_Failed e), st')
      | (Inr t, st') \<Rightarrow>
          (case et_encode t s of
             Inl e \<Rightarrow> (Inl (Tokenizer_Failed e), st')
           | Inr ids \<Rightarrow> (Inr [ids], st')))"
| "embedding_tokens mdc add (EI_StringArray ss) st =
     (case state_tokenizer mdc add st of
        (Inl e, st') \<Rightarrow> (Inl (Tokenizer_Failed e), st')
      | (Inr t, st') \<Rightarrow>
          (case et_encode_batch t ss of
             Inl e \<Rightarrow> (Inl (Tokenizer_Failed e), st')
           | Inr idss \<Rightarrow> (Inr idss, st')))"
| "embedding_tokens mdc add (EI_IntegerArray ids) st = (Inr [ids], st)"
| "embedding_tokens mdc add (EI_ArrayOfIntegerArray idss) st = (Inr idss, st)"

definition preprocess_embedding_request ::
  "(bool \<Rightarrow> string + embedding_tokenizer) \<Rightarrow> u32 \<Rightarrow> embedding_request \<Rightarrow> tokenizer_state option \<Rightarrow>
     (embedding_error + token_id list list) \<times> tokenizer_state option" where
  "preprocess_embedding_request mdc context_length r state =
     (case state of
        None \<Rightarrow> (Inl Tokenizers_Unavailable, None)
      | Some st \<Rightarrow>
          let add = unwrap_or True (opt_or (er_add_special r) (ts_default st)) in
          (case embedding_truncation_limit context_length (er_truncate r) (is_text_input (er_input r)) of
             Inl e \<Rightarrow> (Inl e, Some st)
           | Inr limit \<Rightarrow>
               (case embedding_tokens mdc add (er_input r) st of
                  (Inl e, st') \<Rightarrow> (Inl e, Some st')
                | (Inr idss, st') \<Rightarrow>
                    (Inr (case limit of None \<Rightarrow> idss | Some n \<Rightarrow> map (take n) idss), Some st'))))"

section \<open>Responses\<close>

text \<open>
  A 32-bit float is the word of its bits.  \<open>f32::from_le_bytes\<close> puts the first byte lowest.
\<close>

definition from_le_bytes :: "u8 \<Rightarrow> u8 \<Rightarrow> u8 \<Rightarrow> u8 \<Rightarrow> u32" where
  "from_le_bytes a b c d =
     ucast a OR push_bit 8 (ucast b) OR push_bit 16 (ucast c) OR push_bit 24 (ucast d)"

definition to_le_bytes :: "u32 \<Rightarrow> u8 list" where
  "to_le_bytes w = [ucast w, ucast (drop_bit 8 w), ucast (drop_bit 16 w), ucast (drop_bit 24 w)]"

fun chunks_exact4 :: "u8 list \<Rightarrow> u32 list" where
  "chunks_exact4 (a # b # c # d # bs) = from_le_bytes a b c d # chunks_exact4 bs"
| "chunks_exact4 _ = []"

datatype decode_error = Bad_Base64 string | Bad_Length nat | Empty_Embeddings

definition decode_base64_to_floats ::
  "(string \<Rightarrow> string + u8 list) \<Rightarrow> string \<Rightarrow> decode_error + u32 list" where
  "decode_base64_to_floats decode encoded =
     (case decode encoded of
        Inl e \<Rightarrow> Inl (Bad_Base64 e)
      | Inr bytes \<Rightarrow>
          if length bytes mod 4 \<noteq> 0 then Inl (Bad_Length (length bytes))
          else Inr (chunks_exact4 bytes))"

datatype embedding_vector = EV_Base64 string | EV_Float "u32 list"

record engine_embeddings =
  ee_embeddings :: "string list"
  ee_prompt_tokens :: u32
  ee_total_tokens :: u32

record embedding_response =
  rs_model :: string
  rs_data :: "(u32 \<times> embedding_vector) list"
  rs_prompt_tokens :: u32
  rs_total_tokens :: u32

fun collect :: "('a \<Rightarrow> 'e + 'b) \<Rightarrow> 'a list \<Rightarrow> 'e + 'b list" where
  "collect f [] = Inr []"
| "collect f (x # xs) =
     (case f x of
        Inl e \<Rightarrow> Inl e
      | Inr y \<Rightarrow> (case collect f xs of Inl e \<Rightarrow> Inl e | Inr ys \<Rightarrow> Inr (y # ys)))"

definition embedding_item ::
  "(string \<Rightarrow> string + u8 list) \<Rightarrow> bool \<Rightarrow> nat \<times> string \<Rightarrow> decode_error + (u32 \<times> embedding_vector)" where
  "embedding_item decode encode_base64 p =
     (case p of (index, encoded) \<Rightarrow>
        if encode_base64 then Inr (as_u32 index, EV_Base64 encoded)
        else case decode_base64_to_floats decode encoded of
          Inl e \<Rightarrow> Inl e
        | Inr v \<Rightarrow> Inr (as_u32 index, EV_Float v))"

definition embedding_response_of ::
  "(string \<Rightarrow> string + u8 list) \<Rightarrow> bool \<Rightarrow> string \<Rightarrow> engine_embeddings \<Rightarrow> decode_error + embedding_response" where
  "embedding_response_of decode encode_base64 model out =
     (if ee_embeddings out = [] then Inl Empty_Embeddings
      else case collect (embedding_item decode encode_base64) (enumerate 0 (ee_embeddings out)) of
        Inl e \<Rightarrow> Inl e
      | Inr vs \<Rightarrow>
          Inr \<lparr>rs_model = model, rs_data = vs, rs_prompt_tokens = ee_prompt_tokens out,
               rs_total_tokens = ee_total_tokens out\<rparr>)"

text \<open>
  \<open>Annotated::map_data\<close> keeps the envelope and turns an error of the closure into an error
  item.
\<close>

definition transform_embedding_postprocessor_stream ::
  "(string \<Rightarrow> string + u8 list) \<Rightarrow> bool \<Rightarrow> string \<Rightarrow> (decode_error \<Rightarrow> embedding_response annotated) \<Rightarrow>
     engine_embeddings annotated list \<Rightarrow> embedding_response annotated list" where
  "transform_embedding_postprocessor_stream decode encode_base64 model error_item outs =
     map (\<lambda>out. case a_data out of
            None \<Rightarrow> \<lparr>a_id = a_id out, a_data = None, a_event = a_event out, a_comment = a_comment out, a_error = a_error out\<rparr>
          | Some e \<Rightarrow>
              (case embedding_response_of decode encode_base64 model e of
                 Inl err \<Rightarrow> error_item err
               | Inr resp \<Rightarrow>
                   \<lparr>a_id = a_id out, a_data = Some resp, a_event = a_event out, a_comment = a_comment out, a_error = a_error out\<rparr>))
       outs"

section \<open>The operator\<close>

text \<open>
  The rest of an embedding request, and the request the worker gets.  A worker item and an
  annotation are as the response generator of the other crate frames them.
\<close>

record embedding_call =
  eq_request :: embedding_request
  eq_model :: string
  eq_base64 :: "bool option"
  eq_dimensions :: "u32 option"
  eq_annotations :: "string list"

record preprocessed_embedding =
  pe_tokens :: "token_id list list"
  pe_model :: string
  pe_encoding :: "string option"
  pe_truncate :: "int option"
  pe_dimensions :: "u32 option"
  pe_annotations :: "string list"
  pe_mdcsum :: "string option"

record embedding_env =
  ev_card :: "bool \<Rightarrow> string + embedding_tokenizer"
  ev_context_length :: u32
  ev_mdcsum :: string
  ev_decode :: "string \<Rightarrow> string + u8 list"
  ev_show_tokens :: "token_id list list \<Rightarrow> string"
  ev_annotation :: "string \<Rightarrow> string \<Rightarrow> embedding_response annotated list"
  ev_error_item :: "decode_error \<Rightarrow> embedding_response annotated"
  ev_engine :: "preprocessed_embedding \<Rightarrow> embedding_error + engine_embeddings annotated list"

definition build_embedding_request :: "embedding_env \<Rightarrow> embedding_call \<Rightarrow> token_id list list \<Rightarrow> preprocessed_embedding" where
  "build_embedding_request V c idss =
     \<lparr>pe_tokens = idss, pe_model = eq_model c,
      pe_encoding = map_option (\<lambda>b64. if b64 then ''base64'' else ''float'') (eq_base64 c),
      pe_truncate = er_truncate (eq_request c), pe_dimensions = eq_dimensions c, pe_annotations = eq_annotations c,
      pe_mdcsum = Some (ev_mdcsum V)\<rparr>"

definition embedding_generate ::
  "embedding_env \<Rightarrow> embedding_call \<Rightarrow> tokenizer_state option \<Rightarrow>
     (embedding_error + embedding_response annotated list) \<times> tokenizer_state option" where
  "embedding_generate V c state =
     (case preprocess_embedding_request (ev_card V) (ev_context_length V) (eq_request c) state of
        (Inl e, st) \<Rightarrow> (Inl e, st)
      | (Inr idss, st) \<Rightarrow>
          let notes = (if ''token_ids'' \<in> set (eq_annotations c) then [(''token_ids'', ev_show_tokens V idss)] else []) in
          (map_sum id (\<lambda>outs. concat (map (\<lambda>(k, v). ev_annotation V k v) notes)
               @ transform_embedding_postprocessor_stream (ev_decode V) (unwrap_or False (eq_base64 c)) (eq_model c)
                   (ev_error_item V) outs)
             (ev_engine V (build_embedding_request V c idss)), st))"

section \<open>Lemmas\<close>

lemma le_bytes_roundtrip:
  "from_le_bytes (ucast w) (ucast (drop_bit 8 w)) (ucast (drop_bit 16 w)) (ucast (drop_bit 24 w)) = w"
proof (rule bit_word_eqI)
  fix n :: nat
  assume "n < LENGTH(32)"
  then have n: "n < 32" by simp
  consider "n < 8" | "8 \<le> n" "n < 16" | "16 \<le> n" "n < 24" | "24 \<le> n" by linarith
  then show "bit (from_le_bytes (ucast w) (ucast (drop_bit 8 w)) (ucast (drop_bit 16 w)) (ucast (drop_bit 24 w))) n = bit w n"
    using n
    by cases (auto simp: from_le_bytes_def bit_simps)
qed

lemma chunks_roundtrip: "chunks_exact4 (concat (map to_le_bytes ws)) = ws"
  by (induction ws) (simp_all add: to_le_bytes_def le_bytes_roundtrip)

lemma length_le_bytes: "length (concat (map to_le_bytes ws)) = 4 * length ws"
  by (induction ws) (simp_all add: to_le_bytes_def)

lemma collect_Inr: "collect f xs = Inr ys \<Longrightarrow> list_all2 (\<lambda>x y. f x = Inr y) xs ys"
  by (induction xs arbitrary: ys) (auto split: sum.splits)

lemma state_tokenizer_cached:
  assumes "state_tokenizer mdc add st = (Inr t, st')"
  shows "state_tokenizer mdc2 add st' = (Inr t, st')"
  using assms by (auto simp: state_tokenizer_def split: option.splits sum.splits if_splits)

section \<open>Properties\<close>

text \<open>
  C39.  Embedding vectors survive the transport: the bytes of any vector of 32-bit floats,
  base64 encoded by an encoder that the decoder inverts, decode to the same vector, bit for
  bit.  A payload whose length is not a multiple of four bytes is an error.
\<close>

theorem embedding_floats_roundtrip:
  assumes "decode (encode (concat (map to_le_bytes ws))) = Inr (concat (map to_le_bytes ws))"
  shows "decode_base64_to_floats decode (encode (concat (map to_le_bytes ws))) = Inr ws"
  using assms by (simp add: decode_base64_to_floats_def length_le_bytes chunks_roundtrip)

definition sample_decode :: "string \<Rightarrow> string + u8 list" where
  "sample_decode s = Inr (map (\<lambda>c. of_nat (of_char c)) s)"

definition sample_b64 :: "u8 list \<Rightarrow> string" where
  "sample_b64 bs = map (\<lambda>b. char_of (unat b)) bs"

theorem embedding_floats_roundtrip_witness:
  "decode_base64_to_floats sample_decode (sample_b64 (concat (map to_le_bytes [1, 0x3F800000]))) =
     Inr [1, 0x3F800000]"
proof -
  have "sample_decode (sample_b64 (concat (map to_le_bytes [1, 0x3F800000]))) =
      Inr (concat (map to_le_bytes [1, 0x3F800000]))"
    by (simp add: sample_decode_def sample_b64_def to_le_bytes_def)
  then show ?thesis by (rule embedding_floats_roundtrip)
qed

text \<open>A successful response has every vector of the worker, under its position, in the requested form.\<close>

definition vectors_match :: "(string \<Rightarrow> string + u8 list) \<Rightarrow> bool \<Rightarrow> engine_embeddings \<Rightarrow> embedding_response \<Rightarrow> bool" where
  "vectors_match decode b64 out resp \<longleftrightarrow>
     length (rs_data resp) = length (ee_embeddings out)
     \<and> (\<forall>k < length (ee_embeddings out).
          fst (rs_data resp ! k) = as_u32 k \<and>
          (if b64 then snd (rs_data resp ! k) = EV_Base64 (ee_embeddings out ! k)
           else \<exists>v. decode_base64_to_floats decode (ee_embeddings out ! k) = Inr v
                  \<and> snd (rs_data resp ! k) = EV_Float v))"

lemma embedding_response_complete:
  assumes "embedding_response_of decode b64 model out = Inr resp"
  shows "vectors_match decode b64 out resp"
proof -
  have "list_all2 (\<lambda>x y. embedding_item decode b64 x = Inr y) (enumerate 0 (ee_embeddings out)) (rs_data resp)"
    using assms by (auto simp: embedding_response_of_def split: if_splits sum.splits intro: collect_Inr)
  then have len: "length (rs_data resp) = length (ee_embeddings out)"
    and item: "\<And>k. k < length (ee_embeddings out) \<Longrightarrow>
      embedding_item decode b64 (k, ee_embeddings out ! k) = Inr (rs_data resp ! k)"
    by (simp_all add: list_all2_conv_all_nth nth_enumerate_eq)
  have "fst (rs_data resp ! k) = as_u32 k \<and>
      (if b64 then snd (rs_data resp ! k) = EV_Base64 (ee_embeddings out ! k)
       else \<exists>v. decode_base64_to_floats decode (ee_embeddings out ! k) = Inr v
              \<and> snd (rs_data resp ! k) = EV_Float v)" if "k < length (ee_embeddings out)" for k
    using item [OF that]
    by (cases "rs_data resp ! k") (auto simp: embedding_item_def split: if_splits sum.splits)
  with len show ?thesis by (simp add: vectors_match_def)
qed

text \<open>
  The embedding operator answers every item of the worker, in order, behind its own
  annotations.  The worker gets the tokens of the preprocessed request; a response holds all
  vectors of the worker's item under their positions, none dropped or reordered, in the requested
  format, base64 payloads verbatim; an item without vectors or with a payload that cannot be
  decoded becomes an error item.
\<close>

lemma embedding_generate_complete:
  assumes "embedding_generate V c state = (Inr items, st')"
  shows "\<exists>idss outs notes resps.
      preprocess_embedding_request (ev_card V) (ev_context_length V) (eq_request c) state = (Inr idss, st')
      \<and> ev_engine V (build_embedding_request V c idss) = Inr outs
      \<and> items = notes @ resps \<and> (eq_annotations c = [] \<longrightarrow> notes = [])
      \<and> list_all2 (\<lambda>out item.
           case a_data out of
             None \<Rightarrow> a_data item = None \<and> a_error item = a_error out
           | Some e \<Rightarrow>
               (\<exists>err. embedding_response_of (ev_decode V) (unwrap_or False (eq_base64 c)) (eq_model c) e = Inl err
                  \<and> item = ev_error_item V err)
               \<or> (\<exists>resp. a_data item = Some resp \<and> rs_model resp = eq_model c
                    \<and> vectors_match (ev_decode V) (unwrap_or False (eq_base64 c)) e resp)) outs resps"
proof -
  let ?b64 = "unwrap_or False (eq_base64 c)"
  obtain idss where pre: "preprocess_embedding_request (ev_card V) (ev_context_length V) (eq_request c) state = (Inr idss, st')"
    using assms by (auto simp: embedding_generate_def Let_def split: prod.splits sum.splits)
  obtain outs where eng: "ev_engine V (build_embedding_request V c idss) = Inr outs"
    using assms pre by (cases "ev_engine V (build_embedding_request V c idss)") (auto simp: embedding_generate_def Let_def)
  let ?notes = "concat (map (\<lambda>(k, v). ev_annotation V k v)
      (if ''token_ids'' \<in> set (eq_annotations c) then [(''token_ids'', ev_show_tokens V idss)] else []))"
  let ?resps = "transform_embedding_postprocessor_stream (ev_decode V) ?b64 (eq_model c) (ev_error_item V) outs"
  have items: "items = ?notes @ ?resps" "eq_annotations c = [] \<longrightarrow> ?notes = []"
    using assms pre eng by (auto simp: embedding_generate_def Let_def)
  have model: "embedding_response_of d b m e = Inr resp \<Longrightarrow> rs_model resp = m" for d b m e resp
    by (auto simp: embedding_response_of_def split: if_splits sum.splits)
  have "list_all2 (\<lambda>out item.
       case a_data out of
         None \<Rightarrow> a_data item = None \<and> a_error item = a_error out
       | Some e \<Rightarrow>
           (\<exists>err. embedding_response_of (ev_decode V) ?b64 (eq_model c) e = Inl err \<and> item = ev_error_item V err)
           \<or> (\<exists>resp. a_data item = Some resp \<and> rs_model resp = eq_model c \<and> vectors_match (ev_decode V) ?b64 e resp)) outs ?resps"
    by (auto simp: transform_embedding_postprocessor_stream_def list_all2_conv_all_nth
        intro: model embedding_response_complete split: option.split sum.split)
  with pre eng items show ?thesis by blast
qed

definition sample_embedding_env :: embedding_env where
  "sample_embedding_env =
     \<lparr>ev_card = (\<lambda>_. Inl ''no tokenizer''), ev_context_length = 8, ev_mdcsum = ''sum'', ev_decode = sample_decode,
      ev_show_tokens = (\<lambda>_. []), ev_annotation = (\<lambda>_ _. []),
      ev_error_item = (\<lambda>_. \<lparr>a_id = None, a_data = None, a_event = Some ''error'', a_comment = None, a_error = None\<rparr>),
      ev_engine = (\<lambda>r. Inr [\<lparr>a_id = None, a_data = Some \<lparr>ee_embeddings = map (\<lambda>_. ''a'') (pe_tokens r), ee_prompt_tokens = 3,
        ee_total_tokens = 3\<rparr>, a_event = None, a_comment = None, a_error = None\<rparr>])\<rparr>"

definition sample_embedding_call :: embedding_call where
  "sample_embedding_call =
     \<lparr>eq_request = \<lparr>er_input = EI_ArrayOfIntegerArray [[1, 2], [3]], er_add_special = None, er_truncate = None\<rparr>,
      eq_model = ''m'', eq_base64 = Some True, eq_dimensions = None, eq_annotations = []\<rparr>"

lemma embedding_generate_complete_sample:
  "\<exists>items st' outs. embedding_generate sample_embedding_env sample_embedding_call
        (Some \<lparr>ts_with = None, ts_without = None, ts_default = None\<rparr>) = (Inr items, st')
     \<and> ev_engine sample_embedding_env (build_embedding_request sample_embedding_env sample_embedding_call [[1, 2], [3]]) = Inr outs
     \<and> length items = length outs"
proof -
  let ?st = "Some \<lparr>ts_with = None, ts_without = None, ts_default = None\<rparr>"
  obtain items st' where g: "embedding_generate sample_embedding_env sample_embedding_call ?st = (Inr items, st')"
    by (simp add: embedding_generate_def preprocess_embedding_request_def embedding_truncation_limit_def sample_embedding_env_def
        sample_embedding_call_def Let_def)
  have "idss = [[1, 2], [3]]" if "preprocess_embedding_request (ev_card sample_embedding_env)
      (ev_context_length sample_embedding_env) (eq_request sample_embedding_call) ?st = (Inr idss, st')" for idss
    using that by (simp add: preprocess_embedding_request_def embedding_truncation_limit_def sample_embedding_call_def Let_def)
  note tokens = this
  from embedding_generate_complete [OF g] show ?thesis
  proof (elim exE conjE)
    fix idss outs ns resps
    assume pre: "preprocess_embedding_request (ev_card sample_embedding_env)
        (ev_context_length sample_embedding_env) (eq_request sample_embedding_call) ?st = (Inr idss, st')"
      and eng: "ev_engine sample_embedding_env (build_embedding_request sample_embedding_env sample_embedding_call idss) = Inr outs"
      and items: "items = ns @ resps" and "eq_annotations sample_embedding_call = [] \<longrightarrow> ns = []"
      and "list_all2 (\<lambda>out item. case a_data out of
             None \<Rightarrow> a_data item = None \<and> a_error item = a_error out
           | Some e \<Rightarrow>
               (\<exists>err. embedding_response_of (ev_decode sample_embedding_env) (unwrap_or False (eq_base64 sample_embedding_call))
                    (eq_model sample_embedding_call) e = Inl err \<and> item = ev_error_item sample_embedding_env err)
               \<or> (\<exists>resp. a_data item = Some resp \<and> rs_model resp = eq_model sample_embedding_call
                    \<and> vectors_match (ev_decode sample_embedding_env) (unwrap_or False (eq_base64 sample_embedding_call)) e resp))
           outs resps"
    then have "length items = length outs" by (auto simp: sample_embedding_call_def dest: list_all2_lengthD)
    with g eng tokens [OF pre] show ?thesis by blast
  qed
qed

text \<open>
  Truncation of embedding requests: a successful request on texts has no more tokens per
  text than the limit it was given (the model's context length for \<open>-1\<close>), each list is a
  prefix of the text's own tokens, and token ids supplied by the caller are never cut.
\<close>

lemma embedding_truncation_is_prefix:
  assumes "preprocess_embedding_request mdc ctx r (Some st) = (Inr idss, st')"
  shows "\<exists>full st''. embedding_tokens mdc (unwrap_or True (opt_or (er_add_special r) (ts_default st))) (er_input r) st = (Inr full, st'')
     \<and> list_all2 prefix idss full
     \<and> (is_text_input (er_input r) \<or> idss = full)
     \<and> (\<forall>n. is_text_input (er_input r) \<longrightarrow> er_truncate r = Some n \<longrightarrow>
          (\<forall>ids \<in> set idss. length ids \<le> (if n = -1 then unat ctx else nat n)
             \<and> (unat ctx = 0 \<or> length ids \<le> unat ctx)))"
proof -
  obtain limit full st'' where
    limit: "embedding_truncation_limit ctx (er_truncate r) (is_text_input (er_input r)) = Inr limit"
    and full: "embedding_tokens mdc (unwrap_or True (opt_or (er_add_special r) (ts_default st))) (er_input r) st = (Inr full, st'')"
    and idss: "idss = (case limit of None \<Rightarrow> full | Some n \<Rightarrow> map (take n) full)"
    using assms by (auto simp: preprocess_embedding_request_def Let_def split: sum.splits prod.splits)
  have "list_all2 prefix idss full"
    using idss by (cases limit) (auto simp: list_all2_conv_all_nth take_is_prefix)
  moreover have "is_text_input (er_input r) \<or> idss = full"
    using limit idss by (auto simp: embedding_truncation_limit_def split: option.splits if_splits)
  moreover have "length ids \<le> (if n = -1 then unat ctx else nat n) \<and> (unat ctx = 0 \<or> length ids \<le> unat ctx)"
    if "is_text_input (er_input r)" "er_truncate r = Some n" "ids \<in> set idss" for n ids
    using limit idss that
    by (auto simp: embedding_truncation_limit_def Let_def split: if_splits)
  ultimately show ?thesis using full by blast
qed

definition sample_embedding_tokenizer :: embedding_tokenizer where
  "sample_embedding_tokenizer =
     \<lparr>et_encode = (\<lambda>s. Inr (map (\<lambda>c. of_nat (of_char c)) s)), et_encode_batch = (\<lambda>ss. Inr (map (map (\<lambda>c. of_nat (of_char c))) ss))\<rparr>"

lemma embedding_truncation_is_prefix_sample:
  "\<exists>idss full. preprocess_embedding_request (\<lambda>_. Inr sample_embedding_tokenizer) 2
       \<lparr>er_input = EI_String ''abc'', er_add_special = None, er_truncate = Some (-1)\<rparr>
       (Some \<lparr>ts_with = None, ts_without = None, ts_default = None\<rparr>) = (Inr idss, Some \<lparr>ts_with = Some sample_embedding_tokenizer, ts_without = None, ts_default = None\<rparr>)
     \<and> list_all2 prefix idss full \<and> length full = 1"
proof -
  have e: "preprocess_embedding_request (\<lambda>_. Inr sample_embedding_tokenizer) 2
       \<lparr>er_input = EI_String ''abc'', er_add_special = None, er_truncate = Some (-1)\<rparr>
       (Some \<lparr>ts_with = None, ts_without = None, ts_default = None\<rparr>) =
      (Inr [map (\<lambda>c. of_nat (of_char c)) ''ab''], Some \<lparr>ts_with = Some sample_embedding_tokenizer, ts_without = None, ts_default = None\<rparr>)"
    by (simp add: preprocess_embedding_request_def embedding_truncation_limit_def state_tokenizer_def
        sample_embedding_tokenizer_def)
  from embedding_truncation_is_prefix [OF e] obtain full where "list_all2 prefix [map (\<lambda>c. of_nat (of_char c)) ''ab'' :: token_id list] full"
    by blast
  with e show ?thesis by (metis length_Cons list.size(3) list_all2_lengthD One_nat_def)
qed

end
