(* ===== verification/Construction.thy ===== *)
theory Construction
  imports Chat_Generate Embedding
begin

text \<open>
  Construction of a preprocessor from a model deployment card (\<open>new\<close>,
  \<open>new_for_embeddings\<close> and \<open>new_with_parts_inner\<close> in
  \<open>fix/dynamo/preprocessor.rs\<close>), in a build with multimodal routing and video decoding: which
  parts of a card turn which feature on, and which failures stop the construction.

  Reading files, and the constructors of tokenizers, formatters, media loaders, image counters and
  video processors are code outside the repository: the fields of \<open>construct_lib\<close> hold what
  they return.
\<close>

section \<open>Cards\<close>

record hf_config =
  hc_path :: "string option"

record model_info =
  io_model_type :: string
  io_eos :: "token_id list"

datatype formatter_artifact = Hf_Tokenizer_Config "string option" string | Other_Artifact string

fun artifact_checksum :: "formatter_artifact \<Rightarrow> string" where
  "artifact_checksum (Hf_Tokenizer_Config _ c) = c"
| "artifact_checksum (Other_Artifact c) = c"

record ('q, 'n) deployment_card =
  ca_mdcsum :: string
  ca_source_path :: string
  ca_tokenizer_checksum :: "string option"
  ca_formatter :: "formatter_artifact option"
  ca_template_file :: "string option"
  ca_model_info :: "hf_config option"
  ca_lora :: "string option"
  ca_tokenizer_backend :: string
  ca_fastokens :: bool
  ca_tool_parser :: "string option"
  ca_reasoning_parser :: "string option"
  ca_json_object_arguments :: bool
  ca_token_budget :: "string + token_budget option"
  ca_generate_capability :: "bool option"
  ca_qwen_contract :: "string + 'q option"
  ca_nemotron_contract :: "string + 'n option"
  ca_block_size :: u32
  ca_context_length :: u32
  ca_media_decoder :: bool
  ca_supports_embedding :: bool

record routing_tokens =
  rt_kind :: "prompt_kind option"
  rt_chat_placeholder :: "token_id option"
  rt_exact_image_token :: "bool \<Rightarrow> token_id option"
  rt_bos :: "string option"

datatype image_runtime = Vllm_Native_Generate | Backend_Neutral

type_synonym video_processor = "nat \<times> nat \<times> nat \<Rightarrow> rat \<times> rat list \<Rightarrow> string + video_routing"

record ('f, 'q, 'n) construct_lib =
  cl_formatter :: "string + 'f"
  cl_no_op_formatter :: 'f
  cl_tokenizer :: "string + routing_kit"
  cl_read_json :: "string \<Rightarrow> string + json"
  cl_model_info :: "hf_config \<Rightarrow> string + model_info"
  cl_parent :: "string \<Rightarrow> string option"
  cl_media_loader :: "string option"
  cl_counter :: "string \<Rightarrow> string \<Rightarrow> string \<Rightarrow> image_runtime \<Rightarrow> string + image_counter"
  cl_routing_tokens :: "string \<Rightarrow> string \<Rightarrow> image_counter option \<Rightarrow> routing_tokens"
  cl_video :: "string \<Rightarrow> string \<Rightarrow> string \<Rightarrow> 'q option \<Rightarrow> 'n option \<Rightarrow> string + video_processor option"
  cl_add_special_default :: "unit + bool option"
  cl_dim_client :: "string option"

record ('f, 'k) preprocessor =
  pr_formatter :: 'f
  pr_kit :: routing_kit
  pr_embedding :: "tokenizer_state option"
  pr_artifacts_supported :: bool
  pr_deployment :: deployment
  pr_setup :: routing_setup
  pr_dimension_policy :: dimension_policy
  pr_video :: "video_processor option"
  pr_warm_cancel :: "'k option"

section \<open>Parts of the construction\<close>

definition mdc_model_dir :: "('f, 'q, 'n) construct_lib \<Rightarrow> ('q, 'n) deployment_card \<Rightarrow> string option" where
  "mdc_model_dir L mdc = Option.bind (Option.bind (ca_model_info mdc) hc_path) (cl_parent L)"

definition embedding_chat_template_present ::
  "('f, 'q, 'n) construct_lib \<Rightarrow> ('q, 'n) deployment_card \<Rightarrow> string + bool" where
  "embedding_chat_template_present L mdc =
     (if is_some (ca_template_file mdc) then Inr True
      else case ca_formatter mdc of
        None \<Rightarrow> Inr False
      | Some (Other_Artifact _) \<Rightarrow> Inr True
      | Some (Hf_Tokenizer_Config None _) \<Rightarrow> Inr True
      | Some (Hf_Tokenizer_Config (Some path) _) \<Rightarrow>
          map_sum id (\<lambda>config. is_some_and (\<lambda>t. t \<noteq> JNull) (json_get ''chat_template'' config)) (cl_read_json L path))"

definition embedding_prompt_formatter :: "('f, 'q, 'n) construct_lib \<Rightarrow> ('q, 'n) deployment_card \<Rightarrow> string + 'f" where
  "embedding_prompt_formatter L mdc =
     (case cl_formatter L of
        Inr f \<Rightarrow> Inr f
      | Inl err \<Rightarrow>
          (case embedding_chat_template_present L mdc of
             Inl e \<Rightarrow> Inl e
           | Inr present \<Rightarrow> if present then Inl err else Inr (cl_no_op_formatter L)))"

definition embedding_state_new :: "('f, 'q, 'n) construct_lib \<Rightarrow> string + tokenizer_state" where
  "embedding_state_new L =
     (case cl_add_special_default L of
        Inl _ \<Rightarrow> Inl ''invalid embedding tokenization default''
      | Inr d \<Rightarrow> Inr \<lparr>ts_with = None, ts_without = None, ts_default = d\<rparr>)"

text \<open>The parts of image routing: the counter, the placeholder id, the layout and the text of the BOS token.\<close>

record image_routing =
  ir_counter :: "image_counter option"
  ir_token :: "token_id option"
  ir_layout :: "image_layout option"
  ir_bos :: "string option"

definition no_image_routing :: image_routing where
  "no_image_routing = \<lparr>ir_counter = None, ir_token = None, ir_layout = None, ir_bos = None\<rparr>"

definition sum_ok :: "'e + 'a \<Rightarrow> 'a option" where
  "sum_ok r = (case r of Inl _ \<Rightarrow> None | Inr a \<Rightarrow> Some a)"

definition resolve_image_routing ::
  "('f, 'q, 'n) construct_lib \<Rightarrow> ('q, 'n) deployment_card \<Rightarrow> routing_kit \<Rightarrow> string \<Rightarrow> string \<Rightarrow> string \<Rightarrow> image_routing" where
  "resolve_image_routing L mdc K model_id model_type model_dir =
     (let counter = sum_ok (cl_counter L model_id model_type model_dir
            (if unwrap_or False (ca_generate_capability mdc) then Vllm_Native_Generate else Backend_Neutral)) in
      if ca_fastokens mdc then no_image_routing\<lparr>ir_counter := counter\<rparr>
      else
        let tokens = cl_routing_tokens L model_id model_dir counter;
            layout = Option.bind (rt_kind tokens)
              (\<lambda>kind. sum_ok (resolve_routing_image_prompt_layout K kind (rt_chat_placeholder tokens)));
            ready = (is_some counter \<and> is_some layout) in
        \<lparr>ir_counter = counter, ir_token = rt_exact_image_token tokens ready,
         ir_layout = opt_filter (\<lambda>_. is_some counter) layout, ir_bos = rt_bos tokens\<rparr>)"

text \<open>The id of the model, its type and its directory, when the card was read from disk.\<close>

type_synonym routing_inputs = "(string \<times> string \<times> string) option"

text \<open>A contract in the runtime metadata that cannot be read is ignored.\<close>

definition resolve_video_routing ::
  "('f, 'q, 'n) construct_lib \<Rightarrow> ('q, 'n) deployment_card \<Rightarrow> routing_inputs \<Rightarrow> video_processor option" where
  "resolve_video_routing L mdc inputs =
     (let qwen = Option.bind (sum_ok (ca_qwen_contract mdc)) id;
          nemotron = Option.bind (sum_ok (ca_nemotron_contract mdc)) id in
      if ca_fastokens mdc then None
      else case inputs of
        Some (model_id, model_type, model_dir) \<Rightarrow>
          if is_some qwen \<or> is_some nemotron
          then Option.bind (sum_ok (cl_video L model_id model_type model_dir qwen nemotron)) id
          else None
      | None \<Rightarrow> None)"

text \<open>The BOS token is prepended only when it is a single id.\<close>

definition routing_prepend_bos :: "routing_kit \<Rightarrow> string option \<Rightarrow> token_id option" where
  "routing_prepend_bos K bos = Option.bind bos (\<lambda>t. case rk_encode K t of Inr [x] \<Rightarrow> Some x | _ \<Rightarrow> None)"

definition normalizes_tool_call_args :: "('q, 'n) deployment_card \<Rightarrow> bool" where
  "normalizes_tool_call_args mdc = (ca_json_object_arguments mdc \<or> ca_tool_parser mdc = Some ''glm47'')"

section \<open>The constructors\<close>

definition image_routing_of ::
  "('f, 'q, 'n) construct_lib \<Rightarrow> ('q, 'n) deployment_card \<Rightarrow> routing_kit \<Rightarrow> routing_inputs \<Rightarrow> image_routing" where
  "image_routing_of L mdc K inputs =
     (case inputs of
        None \<Rightarrow> no_image_routing
      | Some (model_id, model_type, dir) \<Rightarrow> resolve_image_routing L mdc K model_id model_type dir)"

text \<open>
  The HTTP client for image headers is built at this point, if it can be needed at all; a failure
  there is a panic that ends the start of the process.
\<close>

definition force_dim_client :: "('f, 'q, 'n) construct_lib \<Rightarrow> image_routing \<Rightarrow> string option" where
  "force_dim_client L im = (if is_some (ir_counter im) \<or> is_some (ir_token im) then cl_dim_client L else None)"

definition assembled ::
  "('f, 'q, 'n) construct_lib \<Rightarrow> ('q, 'n) deployment_card \<Rightarrow> 'f \<Rightarrow> routing_kit \<Rightarrow> tokenizer_state option \<Rightarrow> 'k option \<Rightarrow>
     model_info \<Rightarrow> routing_inputs \<Rightarrow> ('f, 'k) preprocessor" where
  "assembled L mdc formatter K embedding cancel info inputs =
     (let im = image_routing_of L mdc K inputs in
      \<lparr>pr_formatter = formatter, pr_kit = K, pr_embedding = embedding,
       pr_artifacts_supported =
         supported_artifacts (ca_tokenizer_checksum mdc) (map_option artifact_checksum (ca_formatter mdc))
           (ca_tokenizer_backend mdc),
       pr_deployment =
         \<lparr>dp_eos = io_eos info, dp_tool_parser = ca_tool_parser mdc, dp_reasoning_parser = ca_reasoning_parser mdc,
          dp_lora = ca_lora mdc, dp_mdcsum = ca_mdcsum mdc, dp_media_loader = ca_media_decoder mdc,
          dp_budget = Option.bind (sum_ok (ca_token_budget mdc)) id,
          dp_normalize_tool_call_args = normalizes_tool_call_args mdc\<rparr>,
       pr_setup =
         \<lparr>su_counter = ir_counter im, su_image_token = ir_token im, su_layout = ir_layout im,
          su_block_size = unat (ca_block_size mdc), su_bos = routing_prepend_bos K (ir_bos im),
          su_context = ca_context_length mdc\<rparr>,
       pr_dimension_policy =
         routing_image_dimension_policy (ca_generate_capability mdc) (ca_media_decoder mdc) (ir_layout im),
       pr_video = resolve_video_routing L mdc inputs,
       pr_warm_cancel = cancel\<rparr>)"

definition new_with_parts_inner ::
  "('f, 'q, 'n) construct_lib \<Rightarrow> ('q, 'n) deployment_card \<Rightarrow> 'f \<Rightarrow> routing_kit \<Rightarrow> tokenizer_state option \<Rightarrow> 'k option \<Rightarrow>
     string + ('f, 'k) preprocessor" where
  "new_with_parts_inner L mdc formatter K embedding cancel =
     (case ca_model_info mdc of
        None \<Rightarrow> Inl ''Blank ModelDeploymentCard cannot be used for pre-processing, no model_info''
      | Some config \<Rightarrow>
          (case cl_model_info L config of
             Inl e \<Rightarrow> Inl e
           | Inr info \<Rightarrow>
               let inputs = map_option (\<lambda>dir. (ca_source_path mdc, io_model_type info, dir)) (mdc_model_dir L mdc) in
               (case (if ca_media_decoder mdc then cl_media_loader L else None) of
                  Some e \<Rightarrow> Inl e
                | None \<Rightarrow>
                    (case force_dim_client L (image_routing_of L mdc K inputs) of
                       Some e \<Rightarrow> Inl e
                     | None \<Rightarrow> Inr (assembled L mdc formatter K embedding cancel info inputs)))))"

definition new_with_parts_and_cancel ::
  "('f, 'q, 'n) construct_lib \<Rightarrow> ('q, 'n) deployment_card \<Rightarrow> 'f \<Rightarrow> routing_kit \<Rightarrow> 'k option \<Rightarrow> string + ('f, 'k) preprocessor" where
  "new_with_parts_and_cancel L mdc formatter K cancel = new_with_parts_inner L mdc formatter K None cancel"

definition new_preprocessor ::
  "('f, 'q, 'n) construct_lib \<Rightarrow> ('q, 'n) deployment_card \<Rightarrow> string + ('f, 'k) preprocessor" where
  "new_preprocessor L mdc =
     (case cl_formatter L of
        Inl e \<Rightarrow> Inl e
      | Inr formatter \<Rightarrow>
          (case cl_tokenizer L of
             Inl e \<Rightarrow> Inl e
           | Inr K \<Rightarrow> new_with_parts_and_cancel L mdc formatter K None))"

definition new_for_embeddings ::
  "('f, 'q, 'n) construct_lib \<Rightarrow> ('q, 'n) deployment_card \<Rightarrow> string + ('f, 'k) preprocessor" where
  "new_for_embeddings L mdc =
     (if \<not> ca_supports_embedding mdc then Inl ''embedding preprocessor requires an embedding-capable model''
      else case cl_tokenizer L of
        Inl e \<Rightarrow> Inl e
      | Inr K \<Rightarrow>
          (case embedding_prompt_formatter L mdc of
             Inl e \<Rightarrow> Inl e
           | Inr formatter \<Rightarrow>
               (case embedding_state_new L of
                  Inl e \<Rightarrow> Inl e
                | Inr st \<Rightarrow> new_with_parts_inner L mdc formatter K (Some st) None)))"

section \<open>Lemmas\<close>

lemma sum_ok_Some [simp]: "sum_ok r = Some a \<longleftrightarrow> r = Inr a"
  by (cases r) (auto simp: sum_ok_def)

lemma new_with_parts_innerE:
  assumes "new_with_parts_inner L mdc f K em k = Inr p"
  obtains info inputs where "p = assembled L mdc f K em k info inputs"
  using assms by (auto simp: new_with_parts_inner_def Let_def split: option.splits sum.splits)

lemma image_routing_bundle:
  assumes "\<And>i d c. rt_exact_image_token (cl_routing_tokens L i d c) False = None"
  shows "ir_token (image_routing_of L mdc K inputs) \<noteq> None \<Longrightarrow>
      ir_counter (image_routing_of L mdc K inputs) \<noteq> None \<and> ir_layout (image_routing_of L mdc K inputs) \<noteq> None"
    and "ir_layout (image_routing_of L mdc K inputs) \<noteq> None \<Longrightarrow> ir_counter (image_routing_of L mdc K inputs) \<noteq> None"
    and "ca_fastokens mdc \<Longrightarrow> ir_token (image_routing_of L mdc K inputs) = None
      \<and> ir_layout (image_routing_of L mdc K inputs) = None \<and> ir_bos (image_routing_of L mdc K inputs) = None"
  using assms
  by (auto simp: image_routing_of_def no_image_routing_def resolve_image_routing_def Let_def is_some_def opt_filter_def
      split: if_splits option.splits)

section \<open>Properties\<close>

text \<open>
  C22. Exact image routing is turned on as a whole or not at all.  A preprocessor has a placeholder
  token only together with a counter and a prompt layout, and a layout only together with a counter;
  with the fast tokenizer backend it has none of them, no video processor, and builds no routing
  information for images; and it transposes dimensions only for an engine that decodes Kimi-K3
  images itself.
\<close>

theorem routing_bundle_all_or_nothing:
  assumes "new_with_parts_inner L mdc f K em k = Inr p"
    and "\<And>i d c. rt_exact_image_token (cl_routing_tokens L i d c) False = None"
  shows "(su_image_token (pr_setup p) \<noteq> None \<longrightarrow> su_counter (pr_setup p) \<noteq> None \<and> su_layout (pr_setup p) \<noteq> None)
    \<and> (su_layout (pr_setup p) \<noteq> None \<longrightarrow> su_counter (pr_setup p) \<noteq> None)
    \<and> (ca_fastokens mdc \<longrightarrow> su_image_token (pr_setup p) = None \<and> su_layout (pr_setup p) = None \<and> su_bos (pr_setup p) = None
        \<and> pr_video p = None
        \<and> (\<forall>entries toks n. list_all (\<lambda>e. \<not> is_video e) entries \<longrightarrow>
             build_mm_exact_routing_info K (pr_setup p) entries toks n = None))
    \<and> (pr_dimension_policy p = ExifTransposed \<longrightarrow> ca_generate_capability mdc = Some True \<and> \<not> ca_media_decoder mdc
        \<and> (\<exists>b c e. su_layout (pr_setup p) = Some (KimiK3 b c e)))"
proof -
  obtain info inputs where p: "p = assembled L mdc f K em k info inputs" using new_with_parts_innerE [OF assms(1)] .
  define im where "im = image_routing_of L mdc K inputs"
  have fields: "su_image_token (pr_setup p) = ir_token im" "su_counter (pr_setup p) = ir_counter im"
    "su_layout (pr_setup p) = ir_layout im" "su_bos (pr_setup p) = routing_prepend_bos K (ir_bos im)"
    "pr_video p = resolve_video_routing L mdc inputs"
    "pr_dimension_policy p = routing_image_dimension_policy (ca_generate_capability mdc) (ca_media_decoder mdc) (ir_layout im)"
    by (simp_all add: p assembled_def Let_def im_def)
  note all = image_routing_bundle [OF assms(2), of mdc K inputs, folded im_def]
  have "build_mm_exact_routing_info K (pr_setup p) entries toks n = None"
    if "ca_fastokens mdc" "list_all (\<lambda>e. \<not> is_video e) entries" for entries toks n
    using that all(3) fields by (cases entries) (auto simp: build_mm_exact_routing_info_def)
  moreover have "ca_generate_capability mdc = Some True \<and> \<not> ca_media_decoder mdc \<and> (\<exists>b c e. ir_layout im = Some (KimiK3 b c e))"
    if "pr_dimension_policy p = ExifTransposed"
    using that fields(6)
    by (cases "ca_generate_capability mdc") (auto simp: routing_image_dimension_policy_def split: if_splits option.splits image_layout.splits)
  ultimately show ?thesis
    using all fields by (auto simp: routing_prepend_bos_def resolve_video_routing_def)
qed

text \<open>The environment of a chat request that runs on a constructed preprocessor.\<close>

definition runs_on :: "('f, 'k) preprocessor \<Rightarrow> ('g, 'j, 'p) chat_env \<Rightarrow> bool" where
  "runs_on p env \<longleftrightarrow> ce_artifacts_supported env = pr_artifacts_supported p \<and> ce_deployment env = pr_deployment p"

text \<open>
  C11. A warmup is prepared only on a preprocessor whose card names the pinned tokenizer and template
  artifacts and the default tokenizer backend, which is no LoRA adapter, and which renders the
  arguments of tool calls as the client sent them.
\<close>

theorem warmup_needs_pinned_artifacts:
  fixes env :: "('g, 'j, 'p) chat_env"
  assumes "new_with_parts_inner L mdc f K em k = Inr p" "runs_on p env"
    and "chat_generate P env cx cq = Inr (frs, Some m)"
    and "\<forall>r b i b' tag json. ce_guided env r b i = Inr (b', tag, json) \<longrightarrow> bt_routing b' = bt_routing b"
  shows "ca_tokenizer_checksum mdc = Some tokenizer_sum
    \<and> map_option artifact_checksum (ca_formatter mdc) = Some config_sum \<and> ca_tokenizer_backend mdc = ''default''
    \<and> ca_lora mdc = None \<and> \<not> ca_json_object_arguments mdc \<and> ca_tool_parser mdc \<noteq> Some ''glm47''"
proof -
  let ?r = "normalized_request env (cq_request cq)"
  from chat_generateE [OF assms(3)] obtain out b tag json fs where
    out: "preprocess_request_with_options (ce_lib env) (ce_media env) (ce_deployment env) ?r True
       (cx_preserve_omitted cx) (cx_lora cx) = Inr out"
    and b: "ce_guided env ?r (pp_request out) (pp_prompt_injected out) = Inr (b, tag, json)"
    and warm: "Some m = snd (maybe_wrap_stream P (warm_options_of cq ?r) (speculative_identity_supported env ?r b) fs)"
    and "\<exists>notes. frs = notes @ fs" .
  from warm have id: "speculative_identity_supported env ?r b"
    by (auto simp: maybe_wrap_stream_def wraps_stream_def split: if_splits)
  then obtain nx where nx: "bq_nvext ?r = Some nx"
    by (auto simp: speculative_identity_supported_def speculative_hint_def bind_eq_Some_conv)
  have "bt_routing b = request_routing (ce_lib env) (ce_deployment env) ?r (cx_lora cx)"
    using assms(4) b built_routing [OF out] by metis
  with id nx have "request_routing (ce_lib env) (ce_deployment env) ?r (cx_lora cx) = Some default_hints"
    by (auto simp: speculative_identity_supported_def request_routing_def Let_def split: option.splits prod.splits)
  with plain_routing(2) [OF nx] have "dp_lora (pr_deployment p) = None" using assms(2) by (auto simp: runs_on_def)
  moreover have "pr_artifacts_supported p" "\<not> dp_normalize_tool_call_args (pr_deployment p)"
    using id assms(2) by (auto simp: runs_on_def speculative_identity_supported_def)
  moreover obtain info inputs where "p = assembled L mdc f K em k info inputs" using new_with_parts_innerE [OF assms(1)] .
  ultimately show ?thesis
    by (simp add: assembled_def Let_def normalizes_tool_call_args_def supported_artifacts_def)
qed

text \<open>
  An embedding preprocessor never ignores a chat template.  It is built only for a model that
  supports embeddings, with both of its tokenizers still to be made; if the formatter of the card
  could not be built, the construction goes on without one only when the card has no chat template.
\<close>

lemma embedding_template_not_ignored:
  assumes "new_for_embeddings L mdc = Inr p"
  shows "ca_supports_embedding mdc
    \<and> (\<exists>d. pr_embedding p = Some \<lparr>ts_with = None, ts_without = None, ts_default = d\<rparr>)
    \<and> (case cl_formatter L of
         Inr f \<Rightarrow> pr_formatter p = f
       | Inl _ \<Rightarrow> embedding_chat_template_present L mdc = Inr False \<and> pr_formatter p = cl_no_op_formatter L)"
proof -
  obtain K f st where parts: "ca_supports_embedding mdc" "embedding_prompt_formatter L mdc = Inr f"
    "embedding_state_new L = Inr st" "new_with_parts_inner L mdc f K (Some st) None = Inr p"
    using assms by (auto simp: new_for_embeddings_def split: if_splits sum.splits)
  have "pr_formatter p = f" "pr_embedding p = Some st"
    by (rule new_with_parts_innerE [OF parts(4)], simp add: assembled_def Let_def)+
  with parts show ?thesis
    by (auto simp: embedding_prompt_formatter_def embedding_state_new_def split: sum.splits if_splits)
qed

section \<open>Samples\<close>

definition sample_card :: "(unit, unit) deployment_card" where
  "sample_card =
     \<lparr>ca_mdcsum = ''sum'', ca_source_path = ''Qwen/Qwen3-8B'', ca_tokenizer_checksum = Some tokenizer_sum,
      ca_formatter = Some (Hf_Tokenizer_Config None config_sum), ca_template_file = None,
      ca_model_info = Some \<lparr>hc_path = Some ''/m/config.json''\<rparr>, ca_lora = None, ca_tokenizer_backend = ''default'',
      ca_fastokens = False, ca_tool_parser = None, ca_reasoning_parser = Some ''minimax_m2'', ca_json_object_arguments = False,
      ca_token_budget = Inr None, ca_generate_capability = Some True, ca_qwen_contract = Inr None,
      ca_nemotron_contract = Inl ''invalid'', ca_block_size = 16, ca_context_length = 4096, ca_media_decoder = True,
      ca_supports_embedding = True\<rparr>"

definition sample_counter :: image_counter where
  "sample_counter = \<lparr>ic_request_budget = False, ic_count_images = (\<lambda>ds _ _. Inr (map (\<lambda>_. 1) ds)), ic_count = (\<lambda>_ _. 1)\<rparr>"

text \<open>No formatter can be built from the card; the counter supports its images.\<close>

definition sample_construct :: "(nat, unit, unit) construct_lib" where
  "sample_construct =
     \<lparr>cl_formatter = Inl ''no template'', cl_no_op_formatter = 0, cl_tokenizer = Inr sample_routing_kit,
      cl_read_json = (\<lambda>_. Inr (JObject [])), cl_model_info = (\<lambda>_. Inr \<lparr>io_model_type = ''qwen3'', io_eos = [2]\<rparr>),
      cl_parent = (\<lambda>_. Some ''/m''), cl_media_loader = None, cl_counter = (\<lambda>_ _ _ _. Inr sample_counter),
      cl_routing_tokens = (\<lambda>_ _ _. \<lparr>rt_kind = Some Kind_RepeatedPad, rt_chat_placeholder = Some 7,
         rt_exact_image_token = (\<lambda>ready. then_some ready 7), rt_bos = Some ''<s>''\<rparr>),
      cl_video = (\<lambda>_ _ _ _ _. Inr None), cl_add_special_default = Inr None, cl_dim_client = None\<rparr>"

definition sample_preprocessor :: "(nat, unit) preprocessor" where
  "sample_preprocessor =
     assembled sample_construct sample_card 1 sample_routing_kit None None \<lparr>io_model_type = ''qwen3'', io_eos = [2]\<rparr>
       (Some (''Qwen/Qwen3-8B'', ''qwen3'', ''/m''))"

lemma sample_new: "new_with_parts_inner sample_construct sample_card 1 sample_routing_kit None None = Inr sample_preprocessor"
  by (simp add: new_with_parts_inner_def sample_preprocessor_def sample_construct_def sample_card_def mdc_model_dir_def
      force_dim_client_def Let_def)

lemma sample_exact_token: "rt_exact_image_token (cl_routing_tokens sample_construct i d c) False = None"
  by (simp add: sample_construct_def)

lemma sample_image_token: "su_image_token (pr_setup sample_preprocessor) = Some 7"
  by (simp add: sample_preprocessor_def assembled_def image_routing_of_def resolve_image_routing_def sample_construct_def
      sample_card_def sum_ok_def resolve_routing_image_prompt_layout_def Let_def)

theorem routing_bundle_all_or_nothing_witness:
  "su_counter (pr_setup sample_preprocessor) \<noteq> None \<and> su_layout (pr_setup sample_preprocessor) \<noteq> None"
  using routing_bundle_all_or_nothing [OF sample_new sample_exact_token] sample_image_token by simp

lemma sample_runs_on: "runs_on sample_preprocessor sample_chat_env"
  by (simp add: runs_on_def sample_preprocessor_def assembled_def sample_chat_env_def sample_card_def sample_deployment_def
      supported_artifacts_def normalizes_tool_call_args_def sum_ok_def Let_def)

theorem warmup_needs_pinned_artifacts_witness:
  "ca_tokenizer_checksum sample_card = Some tokenizer_sum \<and> ca_lora sample_card = None"
proof -
  from sample_chat obtain frs where
    frs: "chat_generate sample_message_protocol sample_chat_env sample_context sample_chat_request = Inr (frs, Some (sample_turn ! 1))"
    by (auto elim!: map_sum_eq_InrE)
  have "\<forall>r b i b' tag json. ce_guided sample_chat_env r b i = Inr (b', tag, json) \<longrightarrow> bt_routing b' = bt_routing b"
    by (simp add: sample_chat_env_def)
  from warmup_needs_pinned_artifacts [OF sample_new sample_runs_on frs this] show ?thesis by simp
qed

lemma embedding_template_not_ignored_sample:
  "\<exists>p :: (nat, unit) preprocessor. new_for_embeddings sample_construct (sample_card\<lparr>ca_formatter := None\<rparr>) = Inr p
     \<and> pr_formatter p = 0 \<and> embedding_chat_template_present sample_construct (sample_card\<lparr>ca_formatter := None\<rparr>) = Inr False"
proof -
  let ?st = "\<lparr>ts_with = None, ts_without = None, ts_default = None\<rparr>"
  have "embedding_prompt_formatter sample_construct (sample_card\<lparr>ca_formatter := None\<rparr>) = Inr 0"
    "embedding_state_new sample_construct = Inr ?st" "cl_tokenizer sample_construct = Inr sample_routing_kit"
    "ca_supports_embedding (sample_card\<lparr>ca_formatter := None\<rparr>)"
    by (simp_all add: embedding_prompt_formatter_def embedding_chat_template_present_def embedding_state_new_def
        sample_construct_def sample_card_def)
  moreover have "force_dim_client sample_construct im = None" "(if b then cl_media_loader sample_construct else None) = None" for im b
    by (simp_all add: force_dim_client_def sample_construct_def)
  moreover have "ca_model_info (sample_card\<lparr>ca_formatter := None\<rparr>) = Some \<lparr>hc_path = Some ''/m/config.json''\<rparr>"
    "cl_model_info sample_construct \<lparr>hc_path = Some ''/m/config.json''\<rparr> = Inr \<lparr>io_model_type = ''qwen3'', io_eos = [2]\<rparr>"
    by (simp_all add: sample_construct_def sample_card_def)
  ultimately obtain p :: "(nat, unit) preprocessor"
    where p: "new_for_embeddings sample_construct (sample_card\<lparr>ca_formatter := None\<rparr>) = Inr p"
    by (simp add: new_for_embeddings_def new_with_parts_inner_def Let_def)
  then show ?thesis
    using embedding_template_not_ignored [OF p] by (simp add: sample_construct_def)
qed

end
