(* ===== verification/Release_Jail.thy ===== *)
theory Release_Jail
  imports Jail_Adapter
begin

text \<open>
  \<open>apply_tool_calling_jail\<close> of the released version
  (\<open>current-code/sources/release/preprocessor.rs\<close>).  It moves metrics and extension data around the
  jail like the adapter of \<open>Jail_Adapter\<close>, but treats a GLM call that is cut off by the token limit
  differently: it keeps, for every choice, the text from the last start marker on, and sends that
  text to the client in front of the chunk that ends the choice.

  Texts are UTF-8 bytes; the buffers are only cut where a character begins.
  \<open>scrub_synthetic_chunk_metadata\<close> is code outside the file: the parameter \<open>scrub\<close>.
\<close>

section \<open>State\<close>

text \<open>\<open>ChoiceRecovery\<close>, and the metadata of the adapter, whose own recovery map stays empty here.\<close>

record release_recovery =
  rr_input :: string
  rr_emitted :: string
  rr_recovered :: bool

definition release_recovery_default :: release_recovery where
  "release_recovery_default = \<lparr>rr_input = [], rr_emitted = [], rr_recovered = False\<rparr>"

record 'j release_jail_state =
  rj_base :: "'j jail_state"
  rj_recovery :: "(u32, release_recovery) omap"

definition release_jail_init :: "'j jail_kit \<Rightarrow> 'j release_jail_state" where
  "release_jail_init K = \<lparr>rj_base = jail_init K, rj_recovery = []\<rparr>"

section \<open>Buffers that start at the last marker\<close>

definition continuation_byte :: "char \<Rightarrow> bool" where
  "continuation_byte c = (let n = of_char c :: nat in 0x80 \<le> n \<and> n < 0xC0)"

definition is_char_boundary :: "string \<Rightarrow> nat \<Rightarrow> bool" where
  "is_char_boundary s i = (i = 0 \<or> i = length s \<or> i < length s \<and> \<not> continuation_byte (s ! i))"

fun walk_back :: "string \<Rightarrow> nat \<Rightarrow> nat" where
  "walk_back s 0 = 0"
| "walk_back s (Suc n) = (if is_char_boundary s (Suc n) then Suc n else walk_back s n)"

definition keep_from :: "string \<Rightarrow> string \<Rightarrow> nat" where
  "keep_from start s =
     walk_back s (case rfind_sub start s of Some p \<Rightarrow> p | None \<Rightarrow> length s - (length start - 1))"

definition keep_marker :: "string \<Rightarrow> string \<Rightarrow> string" where
  "keep_marker start s = drop (keep_from start s) s"

section \<open>The way in\<close>

definition release_retain_text ::
  "'j jail_kit \<Rightarrow> (u32, release_recovery) omap \<Rightarrow> choice \<Rightarrow> (u32, release_recovery) omap" where
  "release_retain_text K states c =
     (case d_content (ch_delta c) of
        Some (Text t) \<Rightarrow>
          let s = unwrap_or release_recovery_default (om_get states (ch_index c)) in
          om_insert (ch_index c) (s\<lparr>rr_input := keep_marker (jk_call_start K) (rr_input s @ t)\<rparr>) states
      | _ \<Rightarrow> states)"

definition release_jail_input ::
  "'j jail_kit \<Rightarrow> bool \<Rightarrow> frame \<Rightarrow> 'j release_jail_state \<Rightarrow> frame \<times> 'j release_jail_state" where
  "release_jail_input K is_glm47 fr st =
     (let (bare, base) = jail_input K False fr (rj_base st) in
      (bare, st\<lparr>rj_base := base,
        rj_recovery := (if is_glm47 then fold (\<lambda>c states. release_retain_text K states c) (frame_choices fr) (rj_recovery st)
                        else rj_recovery st)\<rparr>))"

section \<open>The way out\<close>

text \<open>
  The first pass: which choices of the chunk end on the token limit with an open call, its text, and
  whether the jail has already released that text.
\<close>

type_synonym pending_recovery = "u32 \<times> string \<times> bool"

definition note_emitted :: "'j jail_kit \<Rightarrow> release_recovery \<Rightarrow> choice \<Rightarrow> release_recovery" where
  "note_emitted K s c =
     (case d_content (ch_delta c) of
        Some (Text t) \<Rightarrow>
          if rr_recovered s then s else s\<lparr>rr_emitted := keep_marker (jk_call_start K) (rr_emitted s @ t)\<rparr>
      | _ \<Rightarrow> s)"

definition unclosed_tail :: "'j jail_kit \<Rightarrow> string \<Rightarrow> string option" where
  "unclosed_tail K s =
     Option.bind (rfind_sub (jk_call_start K) s)
       (\<lambda>p. if contains_sub (jk_call_end K) (drop p s) then None else Some (drop p s))"

definition recover_choice ::
  "'j jail_kit \<Rightarrow> release_recovery \<Rightarrow> choice \<Rightarrow> pending_recovery option \<times> release_recovery" where
  "recover_choice K s0 c =
     (let s = note_emitted K s0 c in
      if rr_recovered s \<or> ch_finish c \<noteq> Some FR_Length then (None, s)
      else case unclosed_tail K (rr_input s) of
        None \<Rightarrow> (None, s)
      | Some tail \<Rightarrow> (Some (ch_index c, tail, contains_sub tail (rr_emitted s)), s\<lparr>rr_recovered := True\<rparr>))"

text \<open>The second pass takes the content off the choices whose open call was released already.\<close>

definition suppress_content :: "pending_recovery list \<Rightarrow> choice \<Rightarrow> choice" where
  "suppress_content prs c =
     (if list_ex (\<lambda>(i, _, already). already \<and> i = ch_index c) prs
      then c\<lparr>ch_delta := (ch_delta c)\<lparr>d_content := None\<rparr>\<rparr> else c)"

text \<open>The third pass: a chunk with the open call, for every choice that has one.\<close>

definition tail_choice :: "string \<Rightarrow> choice \<Rightarrow> choice" where
  "tail_choice tail c =
     c\<lparr>ch_delta := (ch_delta c)\<lparr>d_content := Some (Text tail), d_tool_calls := None\<rparr>, ch_finish := None, ch_logprobs := None\<rparr>"

definition recovery_frames :: "(frame \<Rightarrow> frame) \<Rightarrow> frame \<Rightarrow> pending_recovery \<Rightarrow> frame list" where
  "recovery_frames scrub fr pr =
     (let (i, tail, _) = pr;
          rec = scrub (fr\<lparr>a_id := None\<rparr>) in
      case a_data rec of
        None \<Rightarrow> []
      | Some k \<Rightarrow> [rec\<lparr>a_data := Some (k\<lparr>k_choices := map (tail_choice tail) (with_index i (k_choices k))\<rparr>)\<rparr>])"

definition release_jail_output ::
  "'j jail_kit \<Rightarrow> (frame \<Rightarrow> frame) \<Rightarrow> bool \<Rightarrow> 'j release_jail_state \<Rightarrow> frame \<Rightarrow> frame list \<times> 'j release_jail_state" where
  "release_jail_output K scrub is_glm47 st fr =
     (let (fr1, base) = jail_output K False (rj_base st) fr in
      if is_glm47 then
        let (found, states) = map_accum (per_choice (recover_choice K) release_recovery_default) (rj_recovery st) (frame_choices fr1);
            prs = List.map_filter id found;
            fr2 = fr1\<lparr>a_data := map_option (\<lambda>k. k\<lparr>k_choices := map (suppress_content prs) (k_choices k)\<rparr>) (a_data fr1)\<rparr> in
        (concat (map (recovery_frames scrub fr2) prs) @ [fr2], st\<lparr>rj_base := base, rj_recovery := states\<rparr>)
      else ([fr1], st\<lparr>rj_base := base\<rparr>))"

section \<open>The stream\<close>

fun release_jail_outputs ::
  "'j jail_kit \<Rightarrow> (frame \<Rightarrow> frame) \<Rightarrow> bool \<Rightarrow> 'j release_jail_state \<Rightarrow> frame list \<Rightarrow> frame list \<times> 'j release_jail_state" where
  "release_jail_outputs K scrub g st [] = ([], st)"
| "release_jail_outputs K scrub g st (fr # frs) =
     (let (outs, st1) = release_jail_output K scrub g st fr;
          (outs', st2) = release_jail_outputs K scrub g st1 frs in
      (outs @ outs', st2))"

definition release_jail_step ::
  "'j jail_kit \<Rightarrow> (frame \<Rightarrow> frame) \<Rightarrow> bool \<Rightarrow> ('j release_jail_state, frame, frame) stage_step" where
  "release_jail_step K scrub is_glm47 st fr =
     (if js_failed (rj_base st) then ([], st)
      else if jk_is_error K fr then ([fr], st\<lparr>rj_base := (rj_base st)\<lparr>js_failed := True\<rparr>\<rparr>)
      else
        let (bare, st1) = release_jail_input K is_glm47 fr st;
            (outs, j) = jk_step K (js_jail (rj_base st1)) bare in
        release_jail_outputs K scrub is_glm47 (st1\<lparr>rj_base := (rj_base st1)\<lparr>js_jail := j\<rparr>\<rparr>) outs)"

definition release_jail_flush ::
  "'j jail_kit \<Rightarrow> (frame \<Rightarrow> frame) \<Rightarrow> bool \<Rightarrow> 'j release_jail_state \<Rightarrow> frame list" where
  "release_jail_flush K scrub is_glm47 st =
     (if js_failed (rj_base st) then []
      else
        let (outs, st') = release_jail_outputs K scrub is_glm47 st (jk_flush K (js_jail (rj_base st))) in
        outs @ eof_metadata (rj_base st'))"

definition release_apply_tool_calling_jail ::
  "'j jail_kit \<Rightarrow> (frame \<Rightarrow> frame) \<Rightarrow> string option \<Rightarrow> frame list \<Rightarrow> frame list" where
  "release_apply_tool_calling_jail K scrub tool_call_parser frs =
     (let is_glm47 = (tool_call_parser = Some ''glm47'') in
      hold_usage_until_stream_end
        (run_stage (release_jail_step K scrub is_glm47) (release_jail_flush K scrub is_glm47) (release_jail_init K) frs))"

section \<open>The buffer\<close>

lemma rfind_drop:
  assumes "rfind_sub pat s = Some p" "q \<le> p"
  shows "rfind_sub pat (drop q s) = Some (p - q)"
proof -
  have p: "p + length pat \<le> length s" "prefix pat (drop p s)" using rfind_sub_sound [OF assms(1)] by simp_all
  then have "prefix pat (drop (p - q) (drop q s))" "p - q \<le> length (drop q s)" using assms(2) by simp_all
  from rfind_sub_last [OF this] obtain i where i: "rfind_sub pat (drop q s) = Some i" by blast
  from rfind_sub_append [OF i, of "take q s"] have "rfind_sub pat s = Some (length (take q s) + i)" by simp
  with assms p(1) i show ?thesis by simp
qed

lemma rfind_drop_None: "rfind_sub pat s = None \<Longrightarrow> rfind_sub pat (drop q s) = None"
proof (rule ccontr)
  assume none: "rfind_sub pat s = None" and "rfind_sub pat (drop q s) \<noteq> None"
  then obtain i where "rfind_sub pat (drop q s) = Some i" by blast
  from rfind_sub_append [OF this, of "take q s"] none show False by simp
qed

lemma rfind_append_None: "rfind_sub pat (s @ t) = None \<Longrightarrow> rfind_sub pat s = None"
proof (rule ccontr)
  assume none: "rfind_sub pat (s @ t) = None" and "rfind_sub pat s \<noteq> None"
  then obtain p where "rfind_sub pat s = Some p" by blast
  from rfind_sub_sound [OF this] have "prefix pat (drop p (s @ t))" "p \<le> length (s @ t)" by (auto simp: prefix_def)
  from rfind_sub_last [OF this] none show False by simp
qed

lemma walk_back_le: "walk_back s n \<le> n"
  by (induction n) simp_all

lemma walk_back_boundary: "is_char_boundary s (walk_back s n)"
  by (induction n) (simp_all add: is_char_boundary_def)

lemma walk_back_stays: "is_char_boundary s n \<Longrightarrow> walk_back s n = n"
  by (cases n) simp_all

text \<open>A marker is not empty and starts a character.\<close>

definition marker_ok :: "string \<Rightarrow> bool" where
  "marker_ok start = (start \<noteq> [] \<and> \<not> continuation_byte (hd start))"

lemma marker_at_boundary:
  assumes "marker_ok start" "rfind_sub start s = Some p"
  shows "is_char_boundary s p"
proof -
  have p: "p + length start \<le> length s" "prefix start (drop p s)" using rfind_sub_sound [OF assms(2)] by simp_all
  with assms(1) have "s ! p = hd start" "p < length s"
    by (auto simp: marker_ok_def prefix_def hd_append hd_drop_conv_nth [symmetric] Suc_le_eq simp flip: length_greater_0_conv)
  with assms(1) show ?thesis by (simp add: is_char_boundary_def marker_ok_def)
qed

text \<open>What a buffer must hold of a text: everything from the last marker on, or enough to complete one.\<close>

definition kept :: "string \<Rightarrow> string \<Rightarrow> string \<Rightarrow> bool" where
  "kept start s r =
     (suffix r s
      \<and> (case rfind_sub start s of Some p \<Rightarrow> r = drop p s | None \<Rightarrow> min (length start - 1) (length s) \<le> length r))"

lemma kept_Nil: "start \<noteq> [] \<Longrightarrow> kept start [] []"
  by (simp add: kept_def)

text \<open>A marker in the longer text starts inside the buffer.\<close>

lemma kept_covers:
  assumes "kept start s r" "rfind_sub start (s @ t) = Some p" "start \<noteq> []"
  shows "length s - length r \<le> p"
proof (cases "rfind_sub start s")
  case (Some p0)
  from Some assms(1) have r: "r = drop p0 s" by (simp add: kept_def)
  from rfind_sub_sound [OF Some] have p0: "p0 \<le> length s" "prefix start (drop p0 s)" by simp_all
  then have "prefix start (drop p0 (s @ t))" by (auto simp: prefix_def)
  from rfind_sub_last [OF this] p0(1) assms(2) have "p0 \<le> p" by auto
  with r p0(1) show ?thesis by simp
next
  case None
  show ?thesis
  proof (rule ccontr)
    assume less: "\<not> ?thesis"
    with None assms(1) have "length start - 1 \<le> length r" by (auto simp: kept_def)
    with less assms(3) have inside: "p + length start \<le> length s" by (cases start) auto
    from rfind_sub_sound [OF assms(2)] have "prefix start (drop p (s @ t))" by simp
    with inside have "prefix start (drop p s)" by (auto intro: prefix_length_prefix [of _ "drop p (s @ t)"])
    from rfind_sub_last [OF this] inside None show False by simp
  qed
qed

lemma kept_step:
  assumes "marker_ok start" "kept start s r"
  shows "kept start (s @ t) (keep_marker start (r @ t))"
proof -
  define q where "q = length s - length r"
  have ne: "start \<noteq> []" using assms(1) by (simp add: marker_ok_def)
  have "r = drop q s" "q \<le> length s" using assms(2) by (auto simp: kept_def q_def suffix_def)
  then have rt: "r @ t = drop q (s @ t)" by simp
  have suf: "suffix (keep_marker start (r @ t)) (s @ t)"
    unfolding keep_marker_def rt drop_drop by (rule suffix_drop)
  show ?thesis
  proof (cases "rfind_sub start (s @ t)")
    case (Some p)
    have "q \<le> p" using kept_covers [OF assms(2) Some ne] by (simp add: q_def)
    from rfind_drop [OF Some this] have f: "rfind_sub start (r @ t) = Some (p - q)" by (simp add: rt)
    then have "keep_from start (r @ t) = p - q"
      by (simp add: keep_from_def walk_back_stays marker_at_boundary [OF assms(1)])
    with \<open>q \<le> p\<close> have "keep_marker start (r @ t) = drop p (s @ t)" by (simp add: keep_marker_def rt del: drop_append)
    with Some suf show ?thesis by (simp add: kept_def)
  next
    case None
    then have "rfind_sub start (r @ t) = None" by (simp add: rt rfind_drop_None del: drop_append)
    then have "keep_from start (r @ t) \<le> length (r @ t) - (length start - 1)"
      by (simp add: keep_from_def walk_back_le)
    moreover have "min (length start - 1) (length (s @ t)) \<le> length (r @ t)"
    proof -
      have "min (length start - 1) (length s) \<le> length r"
        using assms(2) rfind_append_None [OF None] by (simp add: kept_def)
      then show ?thesis by simp
    qed
    ultimately show ?thesis using None suf by (simp add: kept_def keep_marker_def)
  qed
qed

text \<open>The buffer answers like the whole text.\<close>

lemma kept_unclosed_tail:
  assumes "kept (jk_call_start K) s r"
  shows "unclosed_tail K r = unclosed_tail K s"
proof (cases "rfind_sub (jk_call_start K) s")
  case (Some p)
  with assms have r: "r = drop p s" by (simp add: kept_def)
  with rfind_drop [OF Some, of p] have "rfind_sub (jk_call_start K) r = Some 0" by simp
  with Some r show ?thesis by (simp add: unclosed_tail_def)
next
  case None
  from assms obtain x where "s = x @ r" by (auto simp: kept_def suffix_def)
  with rfind_drop_None [OF None, of "length x"] have "rfind_sub (jk_call_start K) r = None" by simp
  with None show ?thesis by (simp add: unclosed_tail_def)
qed

section \<open>The stream keeps the buffers\<close>

abbreviation recovery_of :: "'j release_jail_state \<Rightarrow> u32 \<Rightarrow> release_recovery" where
  "recovery_of st i \<equiv> choice_state release_recovery_default (rj_recovery st) i"

definition buffers_kept :: "'j jail_kit \<Rightarrow> frame list \<Rightarrow> 'j release_jail_state \<Rightarrow> bool" where
  "buffers_kept K frs st \<longleftrightarrow>
     (\<forall>i. kept (jk_call_start K) (choice_text content_text i frs) (rr_input (recovery_of st i)))"

lemma retain_text_kept:
  assumes "marker_ok (jk_call_start K)"
    and "\<And>i. kept (jk_call_start K) (s i) (rr_input (choice_state release_recovery_default states i))"
  shows "kept (jk_call_start K) (s i @ concat (map (\<lambda>c. if ch_index c = i then content_text (ch_delta c) else []) cs))
    (rr_input (choice_state release_recovery_default (fold (\<lambda>c states. release_retain_text K states c) cs states) i))"
  using assms(2)
proof (induction cs arbitrary: s states)
  case Nil
  then show ?case by simp
next
  case (Cons c cs)
  let ?s = "\<lambda>i. s i @ (if ch_index c = i then content_text (ch_delta c) else [])"
  have "kept (jk_call_start K) (?s i) (rr_input (choice_state release_recovery_default (release_retain_text K states c) i))" for i
    using Cons.prems [of i] kept_step [OF assms(1) Cons.prems [of i], of "content_text (ch_delta c)"]
    by (auto simp: release_retain_text_def content_text_def choice_state_insert Let_def simp flip: choice_state_def
        split: option.split content.split)
  from Cons.IH [of ?s, OF this] show ?case by simp
qed

lemma recover_choice_input: "rr_input (snd (recover_choice K s c)) = rr_input s"
  by (auto simp: recover_choice_def note_emitted_def Let_def split: option.split content.split)

lemma recover_choices_input: "rr_input (snd (map_accum (recover_choice K) s cs)) = rr_input s"
  by (induction cs arbitrary: s) (simp_all add: recover_choice_input Let_def split_beta)

lemma release_output_input:
  "rr_input (recovery_of (snd (release_jail_output K scrub g st fr)) i) = rr_input (recovery_of st i)"
  using per_choice_isolated [of i _ "recover_choice K" release_recovery_default "rj_recovery st"]
  by (simp add: release_jail_output_def Let_def split_beta recover_choices_input)

lemma release_outputs_input:
  "rr_input (recovery_of (snd (release_jail_outputs K scrub g st frs)) i) = rr_input (recovery_of st i)"
  by (induction frs arbitrary: st) (simp_all add: release_output_input Let_def split_beta)

lemma release_input_kept:
  assumes "marker_ok (jk_call_start K)" "buffers_kept K frs st"
  shows "buffers_kept K (frs @ [fr]) (snd (release_jail_input K True fr st))"
  using retain_text_kept [OF assms(1), of "\<lambda>i. choice_text content_text i frs"] assms(2)
  by (simp add: buffers_kept_def release_jail_input_def Let_def split_beta choice_text_def [of _ _ "[fr]"])

lemma release_step_kept:
  assumes "marker_ok (jk_call_start K)" "buffers_kept K frs st" "\<not> js_failed (rj_base st)" "\<not> jk_is_error K fr"
  shows "buffers_kept K (frs @ [fr]) (snd (release_jail_step K scrub True st fr))"
  using release_input_kept [OF assms(1,2), of fr] assms(3,4)
  by (simp add: buffers_kept_def release_jail_step_def Let_def split_beta release_outputs_input)

lemma release_output_failed:
  "js_failed (rj_base (snd (release_jail_output K scrub g st fr))) = js_failed (rj_base st)"
  by (simp add: release_jail_output_def jail_output_def take_metadata_def Let_def split_beta split: option.split)

lemma release_outputs_failed:
  "js_failed (rj_base (snd (release_jail_outputs K scrub g st frs))) = js_failed (rj_base st)"
  by (induction frs arbitrary: st) (simp_all add: release_output_failed Let_def split_beta)

lemma release_step_failed:
  assumes "\<not> js_failed (rj_base st)" "\<not> jk_is_error K fr"
  shows "\<not> js_failed (rj_base (snd (release_jail_step K scrub g st fr)))"
  using assms
  by (simp add: release_jail_step_def release_jail_input_def jail_input_def buffer_metadata_def Let_def split_beta
      release_outputs_failed split: option.split)

lemma release_run_kept:
  assumes "marker_ok (jk_call_start K)" "list_all (\<lambda>fr. \<not> jk_is_error K fr) frs"
  shows "buffers_kept K frs (final (release_jail_step K scrub True) (release_jail_init K) frs)
    \<and> \<not> js_failed (rj_base (final (release_jail_step K scrub True) (release_jail_init K) frs))"
  using assms(2)
proof (induction frs rule: rev_induct)
  case Nil
  then show ?case
    using assms(1) by (simp add: buffers_kept_def release_jail_init_def jail_init_def choice_state_def kept_Nil
        marker_ok_def release_recovery_default_def)
next
  case (snoc fr frs)
  then show ?case
    by (simp add: final_append release_step_kept [OF assms(1)] release_step_failed)
qed

section \<open>One chunk\<close>

lemma jail_output_choices: "frame_choices (fst (jail_output K False st fr)) = frame_choices fr"
  by (simp add: jail_output_def frame_choices_def Let_def split_beta split: option.split)

lemma release_output_single:
  assumes "keeps_choices scrub" "frame_choices fr = [c]"
  shows "stream_choices (ch_index c) (fst (release_jail_output K scrub True st fr)) =
    (case fst (recover_choice K (recovery_of st (ch_index c)) c) of
       None \<Rightarrow> [c]
     | Some (_, tail, already) \<Rightarrow>
         [tail_choice tail c, if already then c\<lparr>ch_delta := (ch_delta c)\<lparr>d_content := None\<rparr>\<rparr> else c])"
proof -
  let ?fr1 = "fst (jail_output K False (rj_base st) fr)"
  let ?r = "recover_choice K (recovery_of st (ch_index c)) c"
  have one: "frame_choices ?fr1 = [c]" using assms(2) by (simp add: jail_output_choices)
  then obtain k where k: "a_data ?fr1 = Some k" "k_choices k = [c]"
    by (auto simp: frame_choices_def split: option.splits)
  have rec: "frame_choices (scrub fr') = frame_choices fr'" for fr' using assms(1) by (simp add: keeps_choices_def)
  show ?thesis
  proof (cases "fst ?r")
    case None
    then show ?thesis
      using one k by (simp add: release_jail_output_def per_choice_def choice_state_def Let_def split_beta map_filter_def
          suppress_content_def frame_choices_def with_index_def)
  next
    case (Some pr)
    then obtain tail already where pr: "pr = (ch_index c, tail, already)"
      by (auto simp: recover_choice_def Let_def split: if_splits option.splits)
    let ?c = "if already then c\<lparr>ch_delta := (ch_delta c)\<lparr>d_content := None\<rparr>\<rparr> else c"
    let ?fr2 = "?fr1\<lparr>a_data := Some (k\<lparr>k_choices := [?c]\<rparr>)\<rparr>"
    have out: "fst (release_jail_output K scrub True st fr) = recovery_frames scrub ?fr2 pr @ [?fr2]"
      using one k Some pr
      by (simp add: release_jail_output_def per_choice_def choice_state_def Let_def split_beta map_filter_def suppress_content_def)
    have "frame_choices (scrub (?fr2\<lparr>a_id := None\<rparr>)) = [?c]" using rec [of "?fr2\<lparr>a_id := None\<rparr>"] by (simp add: frame_choices_def)
    then obtain k2 where k2: "a_data (scrub (?fr2\<lparr>a_id := None\<rparr>)) = Some k2" "k_choices k2 = [?c]"
      by (auto simp: frame_choices_def split: option.splits)
    have "frame_choices (hd (recovery_frames scrub ?fr2 pr)) = [tail_choice tail ?c]" "length (recovery_frames scrub ?fr2 pr) = 1"
      using k2 pr by (simp_all add: recovery_frames_def frame_choices_def with_index_def)
    moreover have "tail_choice tail ?c = tail_choice tail c" by (simp add: tail_choice_def)
    ultimately show ?thesis
      unfolding out using Some pr
      by (cases "recovery_frames scrub ?fr2 pr") (simp_all add: frame_choices_def with_index_def tail_choice_def)
  qed
qed

section \<open>Token counts\<close>

text \<open>What the clean-up of a synthetic chunk is for: the chunk carries no counts of its own, and no error.\<close>

definition scrub_clean :: "(frame \<Rightarrow> frame) \<Rightarrow> bool" where
  "scrub_clean scrub \<longleftrightarrow> (\<forall>fr. frame_tokens (scrub fr) = 0 \<and> a_error (scrub fr) = a_error fr)"

lemma recovery_frames_clean:
  assumes "scrub_clean scrub"
  shows "token_sum (recovery_frames scrub fr pr) = 0"
    and "a_error fr = None \<Longrightarrow> list_all (\<lambda>fr. a_error fr = None) (recovery_frames scrub fr pr)"
proof -
  have "frame_tokens (scrub (fr\<lparr>a_id := None\<rparr>)) = 0" "a_error (scrub (fr\<lparr>a_id := None\<rparr>)) = a_error fr"
    using assms by (simp_all add: scrub_clean_def)
  then show "token_sum (recovery_frames scrub fr pr) = 0"
    and "a_error fr = None \<Longrightarrow> list_all (\<lambda>fr. a_error fr = None) (recovery_frames scrub fr pr)"
    by (simp_all add: recovery_frames_def frame_tokens_def split_beta Let_def split: option.splits)
qed

lemma recovery_frames_all_clean:
  assumes "scrub_clean scrub"
  shows "token_sum (concat (map (recovery_frames scrub fr) prs)) = 0"
    and "a_error fr = None \<Longrightarrow> list_all (\<lambda>fr. a_error fr = None) (concat (map (recovery_frames scrub fr) prs))"
  by (induction prs) (simp_all add: recovery_frames_clean [OF assms])

abbreviation counts_ok :: "(frame \<Rightarrow> frame) \<Rightarrow> 'j release_jail_state \<Rightarrow> bool" where
  "counts_ok scrub st \<equiv> scrub_clean scrub \<and> metadata_ok (rj_base st)"

lemma release_output_law:
  assumes "counts_ok scrub st"
  shows "token_sum (fst (release_jail_output K scrub g st fr)) + js_tokens (rj_base (snd (release_jail_output K scrub g st fr))) =
      js_tokens (rj_base st)
    \<and> metadata_ok (rj_base (snd (release_jail_output K scrub g st fr)))
    \<and> list_all (\<lambda>fr. a_error fr = None) (fst (release_jail_output K scrub g st fr))"
proof -
  have upd: "frame_tokens (fr\<lparr>a_data := map_option (\<lambda>k. k\<lparr>k_choices := f k\<rparr>) (a_data fr)\<rparr>) = frame_tokens fr" for fr f
    by (simp add: frame_tokens_def split: option.split)
  have ok: "metadata_ok (rj_base st)" "scrub_clean scrub" using assms by simp_all
  show ?thesis
    using jail_output_law [OF ok(1), of K False fr]
    by (simp add: release_jail_output_def Let_def split_beta upd recovery_frames_all_clean [OF ok(2)])
qed

lemma release_outputs_law:
  assumes "counts_ok scrub st"
  shows "token_sum (fst (release_jail_outputs K scrub g st frs)) + js_tokens (rj_base (snd (release_jail_outputs K scrub g st frs))) =
      js_tokens (rj_base st)
    \<and> metadata_ok (rj_base (snd (release_jail_outputs K scrub g st frs)))
    \<and> list_all (\<lambda>fr. a_error fr = None) (fst (release_jail_outputs K scrub g st frs))"
  using assms
proof (induction frs arbitrary: st)
  case Nil
  then show ?case by simp
next
  case (Cons fr frs)
  note one = release_output_law [OF Cons.prems, of K g fr]
  with Cons.prems Cons.IH [of "snd (release_jail_output K scrub g st fr)"] show ?case by (simp add: Let_def split_beta)
qed

lemma release_step_law:
  assumes "counts_ok scrub st" "js_tokens (rj_base st) + frame_tokens fr \<le> usize_max" "\<not> jk_is_error K fr"
  shows "token_sum (fst (release_jail_step K scrub g st fr)) + js_tokens (rj_base (snd (release_jail_step K scrub g st fr))) =
      js_tokens (rj_base st) + frame_tokens fr
    \<and> counts_ok scrub (snd (release_jail_step K scrub g st fr))
    \<and> list_all (\<lambda>fr. a_error fr = None) (fst (release_jail_step K scrub g st fr))"
proof -
  let ?in = "release_jail_input K g fr st"
  let ?r = "jk_step K (js_jail (rj_base (snd ?in))) (fst ?in)"
  let ?st = "(snd ?in)\<lparr>rj_base := (rj_base (snd ?in))\<lparr>js_jail := snd ?r\<rparr>\<rparr>"
  have ok: "metadata_ok (rj_base st)" using assms(1) by simp
  have "rj_base (snd ?in) = snd (jail_input K False fr (rj_base st))"
    by (simp add: release_jail_input_def split_beta Let_def)
  with jail_input_law [OF ok assms(2), of K False]
  have "js_tokens (rj_base ?st) = js_tokens (rj_base st) + frame_tokens fr" "counts_ok scrub ?st"
    using assms(1) by (simp_all add: metadata_ok_def)
  with release_outputs_law [of scrub ?st K g "fst ?r"] assms(1,3) ok show ?thesis
    by (simp add: release_jail_step_def metadata_ok_def [of "rj_base st"] Let_def split_beta)
qed

lemma release_flush_law:
  assumes "counts_ok scrub st"
  shows "token_sum (release_jail_flush K scrub g st) = js_tokens (rj_base st)
    \<and> list_all (\<lambda>fr. a_error fr = None) (release_jail_flush K scrub g st)"
  using release_outputs_law [OF assms, of K g "jk_flush K (js_jail (rj_base st))"] assms
  by (simp add: release_jail_flush_def metadata_ok_def [of "rj_base st"] Let_def split_beta eof_metadata_law)

interpretation release_counts: counting_adapter "release_jail_step K scrub g" "release_jail_flush K scrub g"
    "counts_ok scrub" "\<lambda>st. js_tokens (rj_base st)" "jk_is_error K" for K scrub g
  by unfold_locales (simp_all add: release_step_law release_flush_law)

section \<open>Other parsers\<close>

lemma release_outputs_plain:
  "release_jail_outputs K scrub False st frs =
     (fst (map_accum (jail_output K False) (rj_base st) frs), st\<lparr>rj_base := snd (map_accum (jail_output K False) (rj_base st) frs)\<rparr>)"
  by (induction frs arbitrary: st) (simp_all add: release_jail_output_def Let_def split_beta)

lemma release_step_plain:
  "release_jail_step K scrub False st fr =
     (fst (jail_adapter_step K False (rj_base st) fr), st\<lparr>rj_base := snd (jail_adapter_step K False (rj_base st) fr)\<rparr>)"
  by (simp add: release_jail_step_def jail_adapter_step_def release_jail_input_def release_outputs_plain Let_def split_beta)

lemma release_run_plain:
  "run_stage (release_jail_step K scrub False) (release_jail_flush K scrub False) st frs =
     run_stage (jail_adapter_step K False) (jail_adapter_flush K False) (rj_base st) frs"
proof (induction frs arbitrary: st)
  case Nil
  then show ?case
    by (simp add: release_jail_flush_def jail_adapter_flush_def release_outputs_plain Let_def split_beta)
next
  case (Cons fr frs)
  then show ?case by (simp add: release_step_plain)
qed

section \<open>Properties\<close>

text \<open>
  C18.  The released version recovers a truncated call exactly.  When the jail passes on the chunk
  that ends a choice on the token limit, the client gets, in front of it, the text of the whole
  response of that choice from its last start marker on, if no end marker follows it, however the
  response was cut into chunks; the content of the chunk itself is dropped exactly if the jail had
  released that text.  If there is no open call, the client gets the chunk as it is.
\<close>

theorem release_truncated_call_recovered:
  assumes "marker_ok (jk_call_start K)" "keeps_choices scrub" "list_all (\<lambda>fr. \<not> jk_is_error K fr) (frs @ [fr])"
    and st: "st = final (release_jail_step K scrub True) (release_jail_init K) frs"
    and jail: "jk_step K (js_jail (rj_base st)) (fst (release_jail_input K True fr st)) = ([out], j)"
    and out: "frame_choices out = [c]" "ch_finish c = Some FR_Length"
    and fresh: "\<not> rr_recovered (recovery_of (snd (release_jail_input K True fr st)) (ch_index c))"
  shows "stream_choices (ch_index c) (fst (release_jail_step K scrub True st fr)) =
    (case unclosed_tail K (choice_text content_text (ch_index c) (frs @ [fr])) of
       None \<Rightarrow> [c]
     | Some tail \<Rightarrow>
         [tail_choice tail c,
          if contains_sub tail (rr_emitted (note_emitted K (recovery_of (snd (release_jail_input K True fr st)) (ch_index c)) c))
          then c\<lparr>ch_delta := (ch_delta c)\<lparr>d_content := None\<rparr>\<rparr> else c])"
proof -
  let ?in = "release_jail_input K True fr st"
  let ?st = "(snd ?in)\<lparr>rj_base := (rj_base (snd ?in))\<lparr>js_jail := j\<rparr>\<rparr>"
  let ?s = "recovery_of (snd ?in) (ch_index c)"
  have pre: "list_all (\<lambda>fr. \<not> jk_is_error K fr) frs" and fr: "\<not> jk_is_error K fr" using assms(3) by simp_all
  note run = release_run_kept [OF assms(1) pre, of scrub, folded st]
  have "buffers_kept K (frs @ [fr]) (snd ?in)" using release_input_kept [OF assms(1)] run by blast
  then have tail: "unclosed_tail K (rr_input ?s) = unclosed_tail K (choice_text content_text (ch_index c) (frs @ [fr]))"
    by (intro kept_unclosed_tail) (simp add: buffers_kept_def)
  have "js_jail (rj_base (snd ?in)) = js_jail (rj_base st)"
    by (simp add: release_jail_input_def jail_input_def buffer_metadata_def Let_def split_beta split: option.split)
  with jail run fr have "fst (release_jail_step K scrub True st fr) = fst (release_jail_output K scrub True ?st out)"
    by (simp add: release_jail_step_def Let_def split_beta)
  moreover have "\<not> rr_recovered (note_emitted K ?s c)" "rr_input (note_emitted K ?s c) = rr_input ?s"
    using fresh by (auto simp: note_emitted_def split: option.split content.split)
  ultimately show ?thesis
    using release_output_single [OF assms(2) out(1), of K ?st] out(2) tail
    by (simp add: recover_choice_def Let_def split: option.split)
qed

text \<open>
  Recovered chunks are not counted twice.  The token counts that leave the adapter of the
  released version add up to the counts that entered it, recovered calls included.
\<close>

lemma release_jail_conserves_token_counts:
  assumes "scrub_clean scrub" "list_all (\<lambda>fr. \<not> jk_is_error K fr) frs" "token_sum frs \<le> usize_max"
  shows "token_sum (release_apply_tool_calling_jail K scrub parser frs) = token_sum frs"
proof -
  have "counts_ok scrub (release_jail_init K)" "js_tokens (rj_base (release_jail_init K)) = 0"
    using assms(1) by (simp_all add: metadata_ok_def jail_init_def release_jail_init_def)
  from release_counts.conserves [OF this assms(3,2)] show ?thesis
    by (simp add: release_apply_tool_calling_jail_def Let_def)
qed

text \<open>
  The versions of the adapter agree for every parser but GLM: they send the same frames for
  every stream and every jail, error streams included.
\<close>

lemma jail_versions_agree:
  assumes "parser \<noteq> Some ''glm47''"
  shows "release_apply_tool_calling_jail K scrub parser frs = apply_tool_calling_jail K parser frs"
  using assms
  by (simp add: release_apply_tool_calling_jail_def apply_tool_calling_jail_def release_run_plain release_jail_init_def)

section \<open>Samples\<close>

text \<open>A jail that withholds all content, and a response that is cut off inside a call.\<close>

definition silent_jail :: "unit jail_kit" where
  "silent_jail =
     \<lparr>jk_init = (),
      jk_step = (\<lambda>j fr. ([fr\<lparr>a_data := map_option (\<lambda>k. k\<lparr>k_choices :=
         map (\<lambda>c. c\<lparr>ch_delta := (ch_delta c)\<lparr>d_content := None\<rparr>\<rparr>) (k_choices k)\<rparr>) (a_data fr)\<rparr>], j)),
      jk_flush = (\<lambda>_. []), jk_merge_nvext = opt_or, jk_first_marker = find_sub ''<tool_call>'',
      jk_marker_or_prefix = find_sub ''<tool_call>'', jk_call_start = ''<tool_call>'', jk_call_end = ''</tool_call>'',
      jk_payload_usage = ''usage'', jk_is_error = (\<lambda>fr. a_error fr \<noteq> None)\<rparr>"

definition drop_metadata :: "frame \<Rightarrow> frame" where
  "drop_metadata fr = fr\<lparr>a_data := map_option (\<lambda>k. k\<lparr>k_nvext := None, k_metrics := None\<rparr>) (a_data fr)\<rparr>"

definition glm_choice :: "string option \<Rightarrow> finish_reason option \<Rightarrow> choice" where
  "glm_choice t fin =
     \<lparr>ch_index = 0,
      ch_delta = \<lparr>d_role = None, d_content = map_option Text t, d_reasoning = None, d_tool_calls = None, d_function_call = None,
        d_refusal = None\<rparr>,
      ch_finish = fin, ch_logprobs = None\<rparr>"

definition glm_frame :: "string \<Rightarrow> finish_reason option \<Rightarrow> frame" where
  "glm_frame t fin = frame_of \<lparr>k_choices = [glm_choice (Some t) fin], k_usage = None, k_nvext = None, k_metrics = Some 2\<rparr>"

definition truncated_response :: "frame list" where
  "truncated_response = [glm_frame ''so <tool'' None, glm_frame ''_call>f'' None]"

definition truncated_state :: "unit release_jail_state" where
  "truncated_state = final (release_jail_step silent_jail drop_metadata True) (release_jail_init silent_jail) truncated_response"

lemma drop_metadata_laws: "keeps_choices drop_metadata" "scrub_clean drop_metadata"
  by (simp_all add: keeps_choices_def scrub_clean_def drop_metadata_def frame_choices_def frame_tokens_def split: option.split)

lemma truncated_marker: "marker_ok (jk_call_start silent_jail)"
  by code_simp

lemma truncated_frames_clean:
  "list_all (\<lambda>fr. \<not> jk_is_error silent_jail fr) (truncated_response @ [glm_frame ''(x'' (Some FR_Length)])"
  by (simp add: silent_jail_def truncated_response_def glm_frame_def)

lemmas release_eval = release_jail_step_def release_jail_input_def jail_input_def buffer_metadata_def Let_def silent_jail_def
  glm_frame_def glm_choice_def release_jail_init_def jail_init_def release_retain_text_def frame_choices_def keep_marker_def
  keep_from_def is_char_boundary_def release_jail_output_def jail_output_def take_metadata_def per_choice_def recover_choice_def
  note_emitted_def map_filter_def suppress_content_def opt_or_def release_recovery_default_def usize_saturating_add_def
  usize_max_def om_get_Cons continuation_byte_def walk_back_stays unclosed_tail_def contains_sub_def choice_state_def
  content_text_def choice_text_def truncated_response_def

lemma truncated_state_eq:
  "truncated_state =
     \<lparr>rj_base = \<lparr>js_jail = (), js_metrics = False, js_tokens = 0, js_nvext = None, js_response = True, js_recovery = [],
        js_failed = False\<rparr>,
      rj_recovery = [(0, \<lparr>rr_input = ''<tool_call>f'', rr_emitted = [], rr_recovered = False\<rparr>)]\<rparr>"
  unfolding truncated_state_def truncated_response_def by (simp add: release_eval)

lemma truncated_step:
  "fst (jk_step silent_jail (js_jail (rj_base truncated_state))
     (fst (release_jail_input silent_jail True (glm_frame ''(x'' (Some FR_Length)) truncated_state))) =
       [frame_of \<lparr>k_choices = [glm_choice None (Some FR_Length)], k_usage = None, k_nvext = None, k_metrics = None\<rparr>]"
  "\<not> rr_recovered (recovery_of (snd (release_jail_input silent_jail True (glm_frame ''(x'' (Some FR_Length)) truncated_state)) 0)"
  by (simp_all add: truncated_state_eq release_eval)

lemma truncated_tail:
  "unclosed_tail silent_jail (choice_text content_text 0 (truncated_response @ [glm_frame ''(x'' (Some FR_Length)])) =
     Some ''<tool_call>f(x''"
  "contains_sub ''<tool_call>f(x'' (rr_emitted (note_emitted silent_jail
     (recovery_of (snd (release_jail_input silent_jail True (glm_frame ''(x'' (Some FR_Length)) truncated_state)) 0)
     (glm_choice None (Some FR_Length)))) = False"
  by (simp_all add: truncated_state_eq release_eval)

theorem release_truncated_call_recovered_witness:
  "stream_choices 0 (fst (release_jail_step silent_jail drop_metadata True truncated_state (glm_frame ''(x'' (Some FR_Length)))) =
     [tail_choice ''<tool_call>f(x'' (glm_choice None (Some FR_Length)), glm_choice None (Some FR_Length)]"
proof -
  let ?out = "frame_of \<lparr>k_choices = [glm_choice None (Some FR_Length)], k_usage = None, k_nvext = None, k_metrics = None\<rparr>"
  have index: "ch_index (glm_choice None (Some FR_Length)) = 0" and fin: "ch_finish (glm_choice None (Some FR_Length)) = Some FR_Length"
    by (simp_all add: glm_choice_def)
  have "jk_step silent_jail (js_jail (rj_base truncated_state))
      (fst (release_jail_input silent_jail True (glm_frame ''(x'' (Some FR_Length)) truncated_state)) = ([?out], ())"
    using truncated_step(1) by (simp add: prod_eq_iff)
  from release_truncated_call_recovered [OF truncated_marker drop_metadata_laws(1) truncated_frames_clean truncated_state_def this
      _ fin, unfolded index, OF _ truncated_step(2)] truncated_tail
  show ?thesis by (simp add: frame_choices_def)
qed

lemma release_jail_conserves_token_counts_sample:
  "token_sum (release_apply_tool_calling_jail silent_jail drop_metadata (Some ''glm47'')
     (truncated_response @ [glm_frame ''(x'' (Some FR_Length)])) = 6"
proof -
  have sum: "token_sum (truncated_response @ [glm_frame ''(x'' (Some FR_Length)]) = 6"
    by (simp add: truncated_response_def glm_frame_def frame_tokens_def)
  from release_jail_conserves_token_counts [OF drop_metadata_laws(2) truncated_frames_clean, of "Some ''glm47''"] sum
  show ?thesis by (simp add: usize_max_def)
qed

lemma jail_versions_agree_sample:
  "release_apply_tool_calling_jail silent_jail drop_metadata (Some ''hermes'') truncated_response =
     apply_tool_calling_jail silent_jail (Some ''hermes'') truncated_response"
  using jail_versions_agree [of "Some ''hermes''"] by simp

end
