(* ===== verification/Versions.thy ===== *)
theory Versions
  imports Chat_Generate Stock_Warmup Release_Jail
begin

text \<open>
  What the fix changes for a client, and what it does not.  The chat operator of
  \<open>current-code/sources/main/preprocessor.rs\<close> is the one of the fix up to the wrapper of the warmup:
  it has no identity check and hands the text of the response to the stock warmup.
\<close>

section \<open>The chat operator of main\<close>

definition main_chat_generate ::
  "('g, 'j, 'p) chat_env \<Rightarrow> chat_context \<Rightarrow> chat_request \<Rightarrow> request_error + frame list \<times> string option" where
  "main_chat_generate env cx cq =
     (let D = ce_deployment env;
          payload = ce_payload env (cq_request cq);
          r = normalized_request env (cq_request cq);
          g = ce_generator env r (unwrap_or False (cq_stream cq)) in
      case preprocess_request_with_options (ce_lib env) (ce_media env) D r True (cx_preserve_omitted cx) (cx_lora cx) of
        Inl e \<Rightarrow> Inl e
      | Inr out \<Rightarrow>
          (case ce_guided env r (pp_request out) (pp_prompt_injected out) of
             Inl e \<Rightarrow> Inl e
           | Inr (b, structural_tag, guided_json) \<Rightarrow>
               let q = parse_request_of cq r structural_tag guided_json;
                   route = tool_processing_route (pp_registry (ce_post env)) (dp_tool_parser D) (dp_reasoning_parser D)
                             (route_request_of q) in
               (case validate_legacy_jail_nvext_choice_count (unwrap_or 1 (cq_n cq))
                       (Option.bind (bq_nvext r) nx_extra_fields) (uses_legacy_jail route) of
                  Inl e \<Rightarrow> Inl (Invalid_Argument e)
                | Inr _ \<Rightarrow>
                    let g1 = (case pp_captured out of Some ts \<Rightarrow> ce_capture env ts g | None \<Rightarrow> g);
                        g2 = (if bt_prompt_embeds b = None then ce_update_isl env (of_nat (length (bt_tokens b))) g1 else g1);
                        cfg = \<lparr>dc_emit_payload = is_some payload, dc_counts = multimodal_counts_of b,
                               dc_image_tokens = pp_image_tokens out\<rparr>;
                        notes = concat (map (\<lambda>(k, v). ce_annotation env k v) (pp_annotations out)) in
                    (case ce_engine env (attach_request_context_metadata cx b) of
                       Inl e \<Rightarrow> Inl e
                     | Inr items \<Rightarrow>
                         map_sum Internal_Error (\<lambda>fs.
                             let (fs', warm) = stock_wrap_stream (warm_options_of cq r) fs in
                             (notes @ fs', warm))
                           (chat_stream env q route (pp_prompt_injected out) payload cfg g2 items)))))"

section \<open>Lemmas\<close>

subsection \<open>The text the stock warmup sends\<close>

definition response_text :: "frame list \<Rightarrow> string" where
  "response_text fs = concat (map (\<lambda>c. content_text (ch_delta c)) (concat (map frame_choices fs)))"

lemma stock_fold_choices: "fold stock_item fs st = fold stock_choice (concat (map frame_choices fs)) st"
  by (induction fs arbitrary: st) (simp_all add: stock_item_def frame_choices_def split: option.split)

lemma stock_fold_open:
  assumes "list_all (\<lambda>c. ch_finish c = None) cs"
  shows "fold stock_choice cs (t, None) = (t @ concat (map (\<lambda>c. content_text (ch_delta c)) cs), None)"
  using assms
  by (induction cs arbitrary: t)
    (simp_all add: stock_choice_def content_text_def Let_def is_some_iff split: option.split content.split)

lemma frame_choices_chunks: "concat (map frame_choices fs) = concat (map k_choices (item_chunks fs))"
  by (induction fs) (simp_all add: frame_choices_def item_chunks_def map_filter_simps split: option.split)

lemma concat_spoken: "concat (map k_choices (filter (\<lambda>r. k_choices r \<noteq> []) rs)) = concat (map k_choices rs)"
  by (induction rs) simp_all

lemma accepted_choices:
  assumes "run_turn P rs = Some s" "finish P s = Some m"
  obtains cs c where "concat (map k_choices rs) = cs @ [c]" "list_all (\<lambda>c. ch_finish c = None) cs" "ch_finish c \<noteq> None"
proof -
  let ?spoken = "filter (\<lambda>r. k_choices r \<noteq> []) rs"
  from assms(2) have acc: "\<not> tt_failed s" "tt_finished s" by (auto elim: finish_SomeE)
  have ne: "?spoken \<noteq> []" and op: "list_all open_response (butlast ?spoken)" and cl: "closing_response P (last ?spoken)"
    using run_turn_rel [OF assms(1) acc(1)] acc(2) by (simp_all add: turn_shape_def Let_def)
  have "concat (map k_choices rs) = concat (map k_choices (butlast ?spoken @ [last ?spoken]))"
    using ne by (simp add: concat_spoken)
  then have flat: "concat (map k_choices rs) = concat (map k_choices (butlast ?spoken)) @ k_choices (last ?spoken)" by simp
  from cl obtain c where c: "k_choices (last ?spoken) = [c]" "ch_finish c \<noteq> None"
    by (auto simp: closing_response_def)
  have "list_all (\<lambda>c. ch_finish c = None) (concat (map k_choices (butlast ?spoken)))"
    using op by (auto simp: list_all_iff open_response_def)
  with that flat c show thesis by simp
qed

lemma stock_text_of_accepted:
  assumes "run_turn P (item_chunks fs) = Some s" "finish P s = Some m"
  shows "snd (fold stock_item fs ([], None)) = Some (response_text fs)"
proof -
  from assms obtain cs c where "concat (map frame_choices fs) = cs @ [c]" "list_all (\<lambda>c. ch_finish c = None) cs" "ch_finish c \<noteq> None"
    unfolding frame_choices_chunks by (rule accepted_choices)
  then show ?thesis
    by (simp add: stock_fold_choices stock_fold_open stock_choice_def response_text_def content_text_def Let_def is_some_iff
        split: option.split content.split)
qed

subsection \<open>What both operators compute\<close>

text \<open>The annotations, the response stream in front of the wrapper, and the identity check.\<close>

definition chat_response ::
  "('g, 'j, 'p) chat_env \<Rightarrow> chat_context \<Rightarrow> chat_request \<Rightarrow> request_error + frame list \<times> frame list \<times> bool" where
  "chat_response env cx cq =
     (let D = ce_deployment env;
          r = normalized_request env (cq_request cq);
          g = ce_generator env r (unwrap_or False (cq_stream cq)) in
      case preprocess_request_with_options (ce_lib env) (ce_media env) D r True (cx_preserve_omitted cx) (cx_lora cx) of
        Inl e \<Rightarrow> Inl e
      | Inr out \<Rightarrow>
          (case ce_guided env r (pp_request out) (pp_prompt_injected out) of
             Inl e \<Rightarrow> Inl e
           | Inr (b, tag, json) \<Rightarrow>
               let q = parse_request_of cq r tag json;
                   route = tool_processing_route (pp_registry (ce_post env)) (dp_tool_parser D) (dp_reasoning_parser D)
                             (route_request_of q) in
               (case validate_legacy_jail_nvext_choice_count (unwrap_or 1 (cq_n cq))
                       (Option.bind (bq_nvext r) nx_extra_fields) (uses_legacy_jail route) of
                  Inl e \<Rightarrow> Inl (Invalid_Argument e)
                | Inr _ \<Rightarrow>
                    let g1 = (case pp_captured out of Some ts \<Rightarrow> ce_capture env ts g | None \<Rightarrow> g);
                        g2 = (if bt_prompt_embeds b = None then ce_update_isl env (of_nat (length (bt_tokens b))) g1 else g1);
                        cfg = \<lparr>dc_emit_payload = is_some (ce_payload env (cq_request cq)), dc_counts = multimodal_counts_of b,
                               dc_image_tokens = pp_image_tokens out\<rparr> in
                    (case ce_engine env (attach_request_context_metadata cx b) of
                       Inl e \<Rightarrow> Inl e
                     | Inr items \<Rightarrow>
                         map_sum Internal_Error (\<lambda>fs. (concat (map (\<lambda>(k, v). ce_annotation env k v) (pp_annotations out)), fs,
                             speculative_identity_supported env r b))
                           (chat_stream env q route (pp_prompt_injected out) (ce_payload env (cq_request cq)) cfg g2 items)))))"

lemma chat_generate_response:
  "chat_generate P env cx cq =
     map_sum id (\<lambda>(ns, fs, identity).
         (ns @ fs, snd (maybe_wrap_stream P (warm_options_of cq (normalized_request env (cq_request cq))) identity fs)))
       (chat_response env cx cq)"
proof -
  have through: "fst (maybe_wrap_stream P w i fs) = fs" for w i fs
    by (simp add: maybe_wrap_stream_def run_stage_def watch_emits)
  show ?thesis
    by (simp add: chat_generate_def chat_response_def Let_def through sum.map_comp comp_def split_beta split: sum.split)
qed

lemma main_chat_generate_response:
  "main_chat_generate env cx cq =
     map_sum id (\<lambda>(ns, fs, _).
         (ns @ fs, snd (stock_wrap_stream (warm_options_of cq (normalized_request env (cq_request cq))) fs)))
       (chat_response env cx cq)"
proof -
  have through: "fst (stock_wrap_stream w fs) = fs" for w fs
    by (simp add: stock_wrap_stream_def)
  show ?thesis
    by (simp add: main_chat_generate_def chat_response_def Let_def through sum.map_comp comp_def split_beta split: sum.split)
qed

section \<open>Properties\<close>

text \<open>
  C8.  The fix is invisible to clients.  For every request, on success and on every error, the client
  gets the same frames from the operator of the fix as from the one of main.  Every turn the fix warms
  is a turn main warms too, and main warms it with the text of the response alone, whatever tool calls
  the response made.
\<close>

theorem fix_keeps_client_stream:
  "map_sum id fst (chat_generate P env cx cq) = map_sum id fst (main_chat_generate env cx cq)
   \<and> (\<forall>frs m. chat_generate P env cx cq = Inr (frs, Some m) \<longrightarrow>
        (\<exists>fs. suffix fs frs \<and> main_chat_generate env cx cq = Inr (frs, Some (response_text fs))))"
proof (intro conjI allI impI)
  show "map_sum id fst (chat_generate P env cx cq) = map_sum id fst (main_chat_generate env cx cq)"
    by (cases "chat_response env cx cq") (simp_all add: chat_generate_response main_chat_generate_response split_beta)
next
  fix frs m
  let ?w = "warm_options_of cq (normalized_request env (cq_request cq))"
  assume "chat_generate P env cx cq = Inr (frs, Some m)"
  then obtain ns fs identity where res: "chat_response env cx cq = Inr (ns, fs, identity)"
    and frs: "frs = ns @ fs" and warm: "snd (maybe_wrap_stream P ?w identity fs) = Some m"
    by (auto simp: chat_generate_response elim!: map_sum_eq_InrE)
  have wraps: "wraps_stream ?w identity" and sent: "Option.bind (final (watch_step P) (Some turn_default) fs) (finish P) = Some m"
    using warm by (auto simp: maybe_wrap_stream_def split: if_splits)
  have "final (watch_step P) (Some turn_default) fs = run_turn P (item_chunks fs)"
    using watch_final_run [OF watch_sent_clean [OF sent]] by (simp add: run_turn_def)
  with sent obtain s where s: "run_turn P (item_chunks fs) = Some s" "finish P s = Some m" by (auto simp: bind_eq_Some_conv)
  have "speculative_enabled ?w" using wraps by (simp add: wraps_stream_def)
  with stock_text_of_accepted [OF s] res frs have "main_chat_generate env cx cq = Inr (frs, Some (response_text fs))"
    by (simp add: main_chat_generate_response stock_wrap_stream_def)
  moreover have "suffix fs frs" using frs by (simp add: suffix_def)
  ultimately show "\<exists>fs. suffix fs frs \<and> main_chat_generate env cx cq = Inr (frs, Some (response_text fs))" by blast
qed

theorem fix_keeps_client_stream_witness:
  "\<exists>frs fs. chat_generate sample_message_protocol sample_chat_env sample_context sample_chat_request = Inr (frs, Some (sample_turn ! 1))
     \<and> suffix fs frs \<and> main_chat_generate sample_chat_env sample_context sample_chat_request = Inr (frs, Some (response_text fs))"
proof -
  from sample_chat obtain frs where
    frs: "chat_generate sample_message_protocol sample_chat_env sample_context sample_chat_request = Inr (frs, Some (sample_turn ! 1))"
    by (auto elim!: map_sum_eq_InrE)
  with fix_keeps_client_stream [of sample_message_protocol sample_chat_env sample_context sample_chat_request]
  show ?thesis by blast
qed

end
