(* ===== verification/Release_Routing.thy ===== *)
theory Release_Routing
  imports Mm_Routing
begin

text \<open>
  Exact multimodal routing in the released version
  (\<open>current-code/sources/release/preprocessor.rs\<close>).  It knows two image layouts, counts the tokens
  of each image on its own, and normalizes every block with the placeholder of the first video; main
  and the fix add the wrapped layout, budgets over a whole request, and videos that share the
  placeholder of the images.  The theory gives the released functions over the released types and
  embeds them in those of the fix.
\<close>

section \<open>Data\<close>

datatype release_entry =
    Rel_Image u64 u32 u32
  | Rel_Video u64 token_id "token_id list" "token_id list"

datatype release_layout = Rel_RepeatedPad | Rel_KimiK3 token_id token_id token_id

datatype release_kind = Rel_Kind_RepeatedPad | Rel_Kind_KimiK3

text \<open>What routing reads of the preprocessor; the counter has \<open>count_tokens\<close> only.\<close>

record release_setup =
  rs_counter :: "(u32 \<Rightarrow> u32 \<Rightarrow> nat) option"
  rs_image_token :: "token_id option"
  rs_layout :: "release_layout option"
  rs_block_size :: nat
  rs_bos :: "token_id option"

definition release_is_video :: "release_entry \<Rightarrow> bool" where
  "release_is_video e = (case e of Rel_Image _ _ _ \<Rightarrow> False | Rel_Video _ _ _ _ \<Rightarrow> True)"

definition release_entry_hash :: "release_entry \<Rightarrow> u64" where
  "release_entry_hash e = (case e of Rel_Image h _ _ \<Rightarrow> h | Rel_Video h _ _ _ \<Rightarrow> h)"

section \<open>The released functions\<close>

fun windows2 :: "'a list \<Rightarrow> ('a \<times> 'a) list" where
  "windows2 (x # y # xs) = (x, y) # windows2 (y # xs)"
| "windows2 xs = []"

definition release_entries_are_unambiguous :: "release_entry list \<Rightarrow> bool" where
  "release_entries_are_unambiguous es =
     (\<not> list_ex (\<lambda>(x, y). release_is_video x \<and> release_is_video y) (windows2 es))"

definition release_dimension_policy :: "bool option \<Rightarrow> bool \<Rightarrow> release_layout option \<Rightarrow> dimension_policy" where
  "release_dimension_policy generate_capability frontend_decoding layout =
     (if unwrap_or False generate_capability \<and> \<not> frontend_decoding
         \<and> (case layout of Some (Rel_KimiK3 _ _ _) \<Rightarrow> True | _ \<Rightarrow> False)
      then ExifTransposed else Encoded)"

definition release_resolve_layout :: "routing_kit \<Rightarrow> release_kind \<Rightarrow> string + release_layout" where
  "release_resolve_layout K kind =
     (if kind = Rel_Kind_RepeatedPad then Inr Rel_RepeatedPad
      else
        let control = (\<lambda>token. single_id (rk_encode_segment K token True)) in
        case control ''<|media_begin|>'' of
          Inl e \<Rightarrow> Inl e
        | Inr b \<Rightarrow>
            (case control ''<|media_content|>'' of
               Inl e \<Rightarrow> Inl e
             | Inr c \<Rightarrow> map_sum id (Rel_KimiK3 b c) (control ''<|media_end|>'')))"

definition release_replacement_with_fill ::
  "routing_kit \<Rightarrow> release_layout \<Rightarrow> image_entry \<Rightarrow> nat \<Rightarrow> token_id \<Rightarrow> string + token_id list" where
  "release_replacement_with_fill K layout im n fill =
     (case layout of
        Rel_RepeatedPad \<Rightarrow> Inr (replicate n fill)
      | Rel_KimiK3 b c e \<Rightarrow>
          map_sum id (\<lambda>dims. [b] @ dims @ [c] @ replicate n fill @ [e])
            (rk_encode_segment K (''image '' @ show_nat (unat (im_width im)) @ ''x'' @ show_nat (unat (im_height im))) False))"

definition release_replacement :: "routing_kit \<Rightarrow> release_layout \<Rightarrow> image_entry \<Rightarrow> nat \<Rightarrow> string + token_id list" where
  "release_replacement K layout im n = release_replacement_with_fill K layout im n (rk_pad_value K (im_hash im))"

fun release_expand_tokens ::
  "routing_kit \<Rightarrow> release_layout \<Rightarrow> token_id \<Rightarrow> (image_entry \<times> nat) list \<Rightarrow> token_id list \<Rightarrow> string + token_id list" where
  "release_expand_tokens K layout pad images [] = Inr []"
| "release_expand_tokens K layout pad images (t # ts) =
     (case images of
        (im, n) # rest \<Rightarrow>
          if t = pad then
            (case release_replacement K layout im n of
               Inl e \<Rightarrow> Inl e
             | Inr r \<Rightarrow> map_sum id (\<lambda>out. r @ out) (release_expand_tokens K layout pad rest ts))
          else map_sum id (Cons t) (release_expand_tokens K layout pad images ts)
      | [] \<Rightarrow> map_sum id (Cons t) (release_expand_tokens K layout pad images ts))"

definition release_expand_mm_routing_tokens ::
  "routing_kit \<Rightarrow> release_layout \<Rightarrow> token_id option \<Rightarrow> token_id \<Rightarrow> image_entry list \<Rightarrow> nat list \<Rightarrow> token_id list \<Rightarrow>
     string + token_id list \<times> nat" where
  "release_expand_mm_routing_tokens K layout bos pad images counts toks =
     map_sum id (\<lambda>out. let expanded = (case bos of Some b \<Rightarrow> b # out | None \<Rightarrow> out) in (expanded, length expanded))
       (release_expand_tokens K layout pad (zip images counts) toks)"

text \<open>
  The tracked replacements: placing is the same, and every block is normalized with the
  placeholders of images and videos.
\<close>

definition release_settle_block ::
  "routing_kit \<Rightarrow> token_id option \<Rightarrow> token_id option \<Rightarrow> u64 list \<Rightarrow> token_id list \<Rightarrow> token_id list \<Rightarrow>
     mm_error + token_id list \<times> u64 list option" where
  "release_settle_block K image_token video_token hashes worker_block routing_block =
     (if hashes = [] then Inr (routing_block, None)
      else case rk_normalize_placeholders K worker_block image_token video_token hashes of
        Some n \<Rightarrow> if n = routing_block then Inr (routing_block, None) else Inl Normalization_Differs
      | None \<Rightarrow> Inr (worker_block, Some hashes))"

fun release_settle_blocks ::
  "routing_kit \<Rightarrow> token_id option \<Rightarrow> token_id option \<Rightarrow> nat \<Rightarrow> span list \<Rightarrow> token_id list \<Rightarrow> token_id list \<Rightarrow> nat list \<Rightarrow>
     mm_error + (token_id list \<times> u64 list option) list" where
  "release_settle_blocks K it vt b spans worker routing [] = Inr []"
| "release_settle_blocks K it vt b spans worker routing (i # rest) =
     (case release_settle_block K it vt (block_hashes b spans i) (block_of b i worker) (block_of b i routing) of
        Inl e \<Rightarrow> Inl e
      | Inr r \<Rightarrow> map_sum id (Cons r) (release_settle_blocks K it vt b spans worker routing rest))"

definition release_apply_tracked_mm_replacements ::
  "routing_kit \<Rightarrow> token_id option \<Rightarrow> tracked_replacement list \<Rightarrow> token_id list \<Rightarrow> nat \<Rightarrow> token_id option \<Rightarrow> token_id option \<Rightarrow>
     mm_error + token_id list \<times> nat \<times> u64 list option list" where
  "release_apply_tracked_mm_replacements K bos rs toks b image_token video_token =
     (if b = 0 then Inl Block_Size_Zero
      else if \<not> list_all (\<lambda>r. mr_target r \<noteq> [] \<and> length (mr_worker r) = length (mr_routing r)) rs then Inl Bad_Replacements
      else if token_capacity bos rs toks = None then Inl Capacity_Overflow
      else
        let first = (case bos of Some t \<Rightarrow> [t] | None \<Rightarrow> []) in
        case place_replacements (distinct_targets rs) rs toks (length first) of
          Inl e \<Rightarrow> Inl e
        | Inr (w, rt, spans) \<Rightarrow>
            let n = length (first @ rt);
                padded = div_ceil n b * b;
                worker = resize padded (first @ w);
                routing = resize padded (first @ rt) in
            map_sum id (\<lambda>blocks. (concat (map fst blocks), n, map snd blocks))
              (release_settle_blocks K image_token video_token b spans worker routing [0..<padded div b]))"

text \<open>
  Images and videos of a request in its order.  A prompt of videos only has no use for counter,
  image token and layout; they are checked before an image is replaced.
\<close>

definition release_entry_replacement ::
  "routing_kit \<Rightarrow> (u32 \<Rightarrow> u32 \<Rightarrow> nat) \<Rightarrow> release_layout \<Rightarrow> token_id \<Rightarrow> release_entry \<Rightarrow> tracked_replacement option" where
  "release_entry_replacement K count layout image_token e =
     (case e of
        Rel_Image h w ht \<Rightarrow>
          let n = count w ht; im = \<lparr>im_hash = h, im_width = w, im_height = ht\<rparr> in
          (case release_replacement K layout im n of
             Inl _ \<Rightarrow> None
           | Inr routing \<Rightarrow>
               (case release_replacement_with_fill K layout im n image_token of
                  Inl _ \<Rightarrow> None
                | Inr worker \<Rightarrow>
                    Some \<lparr>mr_hash = h, mr_target = [image_token], mr_worker = worker, mr_routing = routing\<rparr>))
      | Rel_Video h placeholder target replacement \<Rightarrow>
          Some \<lparr>mr_hash = h, mr_target = target, mr_worker = replacement,
                mr_routing = map (\<lambda>t. if t = placeholder then rk_pad_value K h else t) replacement\<rparr>)"

fun release_entry_replacements ::
  "routing_kit \<Rightarrow> (u32 \<Rightarrow> u32 \<Rightarrow> nat) \<Rightarrow> release_layout \<Rightarrow> token_id \<Rightarrow> release_entry list \<Rightarrow> tracked_replacement list option" where
  "release_entry_replacements K count layout image_token [] = Some []"
| "release_entry_replacements K count layout image_token (e # es) =
     (case release_entry_replacement K count layout image_token e of
        None \<Rightarrow> None
      | Some r \<Rightarrow> map_option (Cons r) (release_entry_replacements K count layout image_token es))"

definition release_image_of :: "release_entry \<Rightarrow> image_entry option" where
  "release_image_of e = (case e of Rel_Image h w ht \<Rightarrow> Some \<lparr>im_hash = h, im_width = w, im_height = ht\<rparr> | _ \<Rightarrow> None)"

definition release_video_token :: "release_entry list \<Rightarrow> token_id option" where
  "release_video_token es =
     fold (\<lambda>e acc. case (acc, e) of (None, Rel_Video _ p _ _) \<Rightarrow> Some p | _ \<Rightarrow> acc) es None"

definition release_expand_images ::
  "routing_kit \<Rightarrow> release_setup \<Rightarrow> (u32 \<Rightarrow> u32 \<Rightarrow> nat) \<Rightarrow> release_layout \<Rightarrow> token_id \<Rightarrow> release_entry list \<Rightarrow> token_id list \<Rightarrow>
     (token_id list \<times> nat \<times> u64 list option list) option" where
  "release_expand_images K su count layout image_token entries toks =
     (let images = List.map_filter release_image_of entries in
      if length (filter (\<lambda>t. t = image_token) toks) \<noteq> length images then None
      else case release_expand_mm_routing_tokens K layout (rs_bos su) image_token images
                  (map (\<lambda>im. count (im_width im) (im_height im)) images) toks of
        Inl _ \<Rightarrow> None
      | Inr (expanded, n) \<Rightarrow> Some (expanded, n, []))"

definition release_expand_mixed ::
  "routing_kit \<Rightarrow> release_setup \<Rightarrow> release_entry list \<Rightarrow> token_id list \<Rightarrow>
     (token_id list \<times> nat \<times> u64 list option list) option" where
  "release_expand_mixed K su entries toks =
     (let has_image = list_ex (\<lambda>e. \<not> release_is_video e) entries in
      case release_entry_replacements K (unwrap_or (\<lambda>_ _. 0) (rs_counter su)) (unwrap_or Rel_RepeatedPad (rs_layout su))
             (unwrap_or 0 (rs_image_token su)) entries of
        None \<Rightarrow> None
      | Some rs \<Rightarrow>
          (case release_apply_tracked_mm_replacements K (routing_bos_to_prepend (rs_bos su) has_image) rs toks
                  (rs_block_size su) (rs_image_token su) (release_video_token entries) of
             Inl _ \<Rightarrow> None
           | Inr r \<Rightarrow> Some r))"

definition release_build_mm_exact_routing_info ::
  "routing_kit \<Rightarrow> release_setup \<Rightarrow> release_entry list \<Rightarrow> token_id list \<Rightarrow> mm_routing_info option" where
  "release_build_mm_exact_routing_info K su entries toks =
     (let has_image = list_ex (\<lambda>e. \<not> release_is_video e) entries in
      if entries = [] then None
      else if \<not> release_entries_are_unambiguous entries then None
      else if has_image \<and> rs_counter su = None then None
      else if has_image \<and> rs_image_token su = None then None
      else if has_image \<and> rs_layout su = None then None
      else if rs_block_size su = 0 then None
      else
        map_option (\<lambda>(expanded, n, infos).
            \<lparr>mi_tokens = resize (div_ceil (length expanded) (rs_block_size su) * rs_block_size su) expanded,
             mi_blocks = infos, mi_prompt_len = n\<rparr>)
          (if list_all (\<lambda>e. \<not> release_is_video e) entries
           then (case (rs_counter su, rs_layout su, rs_image_token su) of
                   (Some count, Some layout, Some t) \<Rightarrow> release_expand_images K su count layout t entries toks
                 | _ \<Rightarrow> None)
           else release_expand_mixed K su entries toks))"

section \<open>The embedding\<close>

text \<open>
  A released entry among those of the fix: the worker's events name a video by its placeholder.  A
  released counter counts a batch image by image.
\<close>

definition entry_of_release :: "release_entry \<Rightarrow> routing_entry" where
  "entry_of_release e =
     (case e of Rel_Image h w ht \<Rightarrow> Image_Entry h w ht | Rel_Video h p target r \<Rightarrow> Video_Entry h p (Some p) target r)"

definition layout_of_release :: "release_layout \<Rightarrow> image_layout" where
  "layout_of_release l = (case l of Rel_RepeatedPad \<Rightarrow> RepeatedPad | Rel_KimiK3 b c e \<Rightarrow> KimiK3 b c e)"

definition kind_of_release :: "release_kind \<Rightarrow> prompt_kind" where
  "kind_of_release k = (case k of Rel_Kind_RepeatedPad \<Rightarrow> Kind_RepeatedPad | Rel_Kind_KimiK3 \<Rightarrow> Kind_KimiK3)"

definition counter_of_release :: "(u32 \<Rightarrow> u32 \<Rightarrow> nat) \<Rightarrow> image_counter" where
  "counter_of_release count =
     \<lparr>ic_request_budget = False, ic_count_images = (\<lambda>dims _ _. Inr (map (\<lambda>(w, h). count w h) dims)), ic_count = count\<rparr>"

definition setup_of_release :: "u32 \<Rightarrow> release_setup \<Rightarrow> routing_setup" where
  "setup_of_release ctx su =
     \<lparr>su_counter = map_option counter_of_release (rs_counter su), su_image_token = rs_image_token su,
      su_layout = map_option layout_of_release (rs_layout su), su_block_size = rs_block_size su, su_bos = rs_bos su,
      su_context = ctx\<rparr>"

section \<open>Lemmas\<close>

lemma setup_of_release_simps [simp]:
  "su_counter (setup_of_release ctx su) = map_option counter_of_release (rs_counter su)"
  "su_image_token (setup_of_release ctx su) = rs_image_token su"
  "su_layout (setup_of_release ctx su) = map_option layout_of_release (rs_layout su)"
  "su_block_size (setup_of_release ctx su) = rs_block_size su"
  "su_bos (setup_of_release ctx su) = rs_bos su"
  by (simp_all add: setup_of_release_def)

lemma list_ex_mapped: "list_ex P (map f xs) = list_ex (\<lambda>x. P (f x)) xs"
  by (induction xs) simp_all

lemma is_video_embedded [simp]: "is_video (entry_of_release e) = release_is_video e"
  by (cases e) (simp_all add: entry_of_release_def is_video_def release_is_video_def)

lemma entry_hash_embedded [simp]: "entry_hash (entry_of_release e) = release_entry_hash e"
  by (cases e) (simp_all add: entry_of_release_def entry_hash_def release_entry_hash_def)

lemma image_of_embedded [simp]: "image_of (entry_of_release e) = release_image_of e"
  by (cases e) (simp_all add: entry_of_release_def image_of_def release_image_of_def)

lemma unambiguous_from_windows:
  "unambiguous_from p (map entry_of_release es) \<longleftrightarrow>
     \<not> (p \<and> es \<noteq> [] \<and> release_is_video (hd es)) \<and> release_entries_are_unambiguous es"
proof (induction es arbitrary: p)
  case Nil
  then show ?case by (simp add: release_entries_are_unambiguous_def)
next
  case (Cons e es)
  then show ?case
    by (cases es) (auto simp: layout_accepts_next_entry_def release_entries_are_unambiguous_def)
qed

text \<open>The two checks for adjacent videos are the same check.\<close>

lemma unambiguous_versions_agree:
  "entries_are_unambiguous (map entry_of_release es) = release_entries_are_unambiguous es"
  by (simp add: entries_are_unambiguous_def unambiguous_from_windows)

lemma dimension_policy_versions_agree:
  "routing_image_dimension_policy cap dec (map_option layout_of_release l) = release_dimension_policy cap dec l"
  by (auto simp: routing_image_dimension_policy_def release_dimension_policy_def layout_of_release_def
      split: option.split release_layout.split)

lemma resolve_layout_versions_agree:
  "resolve_routing_image_prompt_layout K (kind_of_release k) expected =
     map_sum id layout_of_release (release_resolve_layout K k)"
proof (cases k)
  case Rel_Kind_RepeatedPad
  then show ?thesis
    by (simp add: resolve_routing_image_prompt_layout_def kind_of_release_def release_resolve_layout_def layout_of_release_def)
next
  case Rel_Kind_KimiK3
  let ?control = "\<lambda>token. single_id (rk_encode_segment K token True)"
  show ?thesis
    unfolding resolve_routing_image_prompt_layout_def release_resolve_layout_def Let_def
    using Rel_Kind_KimiK3
    by (cases "?control ''<|media_begin|>''"; cases "?control ''<|media_content|>''"; cases "?control ''<|media_end|>''")
      (simp_all add: kind_of_release_def layout_of_release_def)
qed

lemma replacement_versions_agree:
  "mm_routing_replacement_with_fill K (layout_of_release l) im n fill = release_replacement_with_fill K l im n fill"
  "mm_routing_replacement K (layout_of_release l) im n = release_replacement K l im n"
  by (cases l; simp add: mm_routing_replacement_with_fill_def release_replacement_with_fill_def mm_routing_replacement_def
      release_replacement_def layout_of_release_def)+

lemma expand_versions_agree:
  "expand_tokens K (layout_of_release l) pad images toks = release_expand_tokens K l pad images toks"
  by (induction toks arbitrary: images) (auto simp: replacement_versions_agree split: list.split sum.split)

lemma settle_versions_agree:
  "settle_blocks K it (Some v) b spans w r is = release_settle_blocks K it (Some v) b spans w r is"
  by (induction "is")
    (simp_all add: settle_block_def release_settle_block_def normalized_block_def is_some_def split: sum.split)

lemma apply_versions_agree:
  "apply_tracked_mm_replacements K bos rs toks b it (Some v) = release_apply_tracked_mm_replacements K bos rs toks b it (Some v)"
  by (simp add: apply_tracked_mm_replacements_def release_apply_tracked_mm_replacements_def settle_versions_agree Let_def split: sum.split)

lemma entry_replacements_versions_agree:
  assumes "ic_count c = count"
  shows "entry_replacements K c (layout_of_release l) t (map entry_of_release es) = release_entry_replacements K count l t es"
proof (induction es)
  case (Cons e es)
  have "entry_replacement K c (layout_of_release l) t (entry_of_release e) = release_entry_replacement K count l t e"
    by (cases e) (simp_all add: entry_replacement_def release_entry_replacement_def entry_of_release_def
        replacement_versions_agree assms Let_def split: sum.split)
  with Cons show ?case by (simp split: option.split)
qed simp

lemma event_video_embedded: "event_video_token (map entry_of_release es) = release_video_token es"
proof -
  have "fold (\<lambda>e acc. case (acc, e) of (None, Video_Entry _ _ t _ _) \<Rightarrow> t | _ \<Rightarrow> acc) (map entry_of_release es) acc =
      fold (\<lambda>e acc. case (acc, e) of (None, Rel_Video _ p _ _) \<Rightarrow> Some p | _ \<Rightarrow> acc) es acc" for acc
    by (induction es arbitrary: acc) (auto simp: entry_of_release_def split: release_entry.split option.split)
  then show ?thesis by (simp add: event_video_token_def release_video_token_def)
qed

lemma release_video_token_first:
  "\<not> list_all (\<lambda>e. \<not> release_is_video e) es \<Longrightarrow> \<exists>v. release_video_token es = Some v"
proof -
  have some: "fold (\<lambda>e acc. case acc of None \<Rightarrow> (case e of Rel_Image _ _ _ \<Rightarrow> acc | Rel_Video _ p _ _ \<Rightarrow> Some p)
      | Some _ \<Rightarrow> acc) es (Some a) = Some a" for a es
    by (induction es) simp_all
  show "\<not> list_all (\<lambda>e. \<not> release_is_video e) es \<Longrightarrow> \<exists>v. release_video_token es = Some v"
    unfolding release_video_token_def
    by (induction es) (auto simp: release_is_video_def some split: release_entry.splits)
qed

lemma map_filter_embedded: "List.map_filter image_of (map entry_of_release es) = List.map_filter release_image_of es"
  by (induction es) (simp_all add: map_filter_simps split: option.split)

lemma expand_images_versions_agree:
  "expand_images K (setup_of_release ctx su) (counter_of_release count) (layout_of_release l) t (map entry_of_release es) toks text_len =
     release_expand_images K su count l t es toks"
  by (simp add: expand_images_def release_expand_images_def map_filter_embedded counter_of_release_def Let_def
      try_expand_mm_routing_tokens_def expand_mm_routing_tokens_def release_expand_mm_routing_tokens_def expand_versions_agree
      comp_def split: sum.split)

lemma expand_mixed_versions_agree:
  assumes "\<not> list_all (\<lambda>e. \<not> release_is_video e) es"
  shows "expand_mixed K (setup_of_release ctx su) (map entry_of_release es) toks = release_expand_mixed K su es toks"
proof -
  let ?no = "\<lparr>ic_request_budget = False, ic_count_images = (\<lambda>_ _ _. Inr []), ic_count = (\<lambda>_ _. 0)\<rparr>"
  obtain v where v: "release_video_token es = Some v" using release_video_token_first [OF assms] by blast
  have "ic_count (unwrap_or ?no (map_option counter_of_release c)) = unwrap_or (\<lambda>_ _. 0) c" for c
    by (cases c) (simp_all add: unwrap_or_def counter_of_release_def)
  moreover have "unwrap_or RepeatedPad (map_option layout_of_release l) = layout_of_release (unwrap_or Rel_RepeatedPad l)" for l
    by (cases l) (simp_all add: unwrap_or_def layout_of_release_def)
  ultimately have rs: "entry_replacements K (unwrap_or ?no (map_option counter_of_release (rs_counter su)))
        (unwrap_or RepeatedPad (map_option layout_of_release (rs_layout su))) t (map entry_of_release es) =
      release_entry_replacements K (unwrap_or (\<lambda>_ _. 0) (rs_counter su)) (unwrap_or Rel_RepeatedPad (rs_layout su)) t es" for t
    by (simp add: entry_replacements_versions_agree)
  show ?thesis
    by (simp add: expand_mixed_def release_expand_mixed_def event_video_embedded v rs list_ex_mapped
        apply_versions_agree Let_def is_some_and_def counter_of_release_def split: option.split)
qed

text \<open>
  Main and the fix extend the routing of the released version conservatively: for a model the released
  version covers, the routing information of a request is the same, whatever its media, its tokens and
  the text length that only budgeted processors need.
\<close>

lemma routing_info_versions_agree:
  "build_mm_exact_routing_info K (setup_of_release ctx su) (map entry_of_release es) toks text_len =
     release_build_mm_exact_routing_info K su es toks"
proof -
  have some: "list_ex (\<lambda>e. \<not> release_is_video e) es" if "list_all (\<lambda>e. \<not> release_is_video e) es" "es \<noteq> []"
    using that by (cases es) simp_all
  show ?thesis
    using some
    by (auto simp: build_mm_exact_routing_info_def release_build_mm_exact_routing_info_def unambiguous_versions_agree
        list_ex_mapped list.pred_map comp_def expand_mixed_versions_agree expand_images_versions_agree Let_def
        split: option.split)
qed

end
