(* ===== verification/Release_Parsers.thy ===== *)
theory Release_Parsers
  imports Response_Policy
begin

text \<open>
  The parser tables and the tool decisions of the released version
  (\<open>current-code/sources/release/preprocessor.rs\<close>).  The released tables do not know the parser
  \<open>deepseek_v41\<close>, and the released version looks for tools in the request only, where main and the fix
  also look into its system messages.
\<close>

section \<open>The tables\<close>

definition release_sglang_effective_reasoning_enabled :: "thinking_lib \<Rightarrow> string option \<Rightarrow> template_args option \<Rightarrow> bool" where
  "release_sglang_effective_reasoning_enabled L p args =
     (let thinking = tl_thinking_bool L args in
      if p \<in> {Some ''qwen3'', Some ''glm45'', Some ''nemotron_nano'', Some ''nemotron3'', Some ''nemotron_v3''}
      then thinking \<noteq> Some False
      else if p \<in> {Some ''kimi_k25'', Some ''kimi_k3'', Some ''kimi-k3''} then thinking \<noteq> Some False
      else if p = Some ''minimax_m2'' then deepseek_renderer_reasoning_enabled L args True
      else if p \<in> {Some ''deepseek_v3'', Some ''deepseek_v3_1''}
      then deepseek_renderer_reasoning_enabled L args False
      else if p \<in> {Some ''deepseek_v3_2'', Some ''deepseek_v4'', Some ''deepseek-v4'', Some ''deepseekv4''}
      then deepseek_renderer_reasoning_enabled L args True
      else if p \<in> {Some ''gemma4'', Some ''gemma-4''} then thinking = Some True
      else if p = Some ''mistral'' then mistral_reasoning_enabled args
      else if p \<in> {Some ''minimax_m3'', Some ''minimax-m3''}
      then is_none_or (\<lambda>mode. mode \<noteq> ''disabled'') (minimax_mode args)
      else p \<in> {Some ''deepseek_r1'', Some ''step3'', Some ''gpt_oss'', Some ''kimi''})"

definition release_guided_output_requires_reasoning :: "thinking_lib \<Rightarrow> string option \<Rightarrow> think_request \<Rightarrow> bool" where
  "release_guided_output_requires_reasoning L p r =
     (if p = None then False
      else
        let structured = has_structured_response_format (tr_response_format r)
              \<and> structured_response_supports_sglang_reasoning_gate p in
        (has_guided_tool_choice (choice_value r) \<or> structured)
        \<and> release_sglang_effective_reasoning_enabled L p (tr_args r))"

definition release_is_reasoning_disabled_by_request :: "thinking_lib \<Rightarrow> string option \<Rightarrow> template_args option \<Rightarrow> bool" where
  "release_is_reasoning_disabled_by_request L p args =
     (if p \<in> {Some ''kimi_k25'', Some ''kimi_k3'', Some ''kimi-k3''} then tl_thinking_bool L args = Some False
      else if is_nemotron_force_reasoning p then tl_thinking_bool L args = Some False
      else if p \<in> {Some ''deepseek_v3'', Some ''deepseek_v3_1''}
      then \<not> deepseek_renderer_reasoning_enabled L args False
      else if p \<in> {Some ''deepseek_r1'', Some ''deepseek_v3_2'', Some ''deepseek_v4'', Some ''deepseek-v4'',
                   Some ''deepseekv4'', Some ''minimax_m2''}
      then \<not> deepseek_renderer_reasoning_enabled L args True
      else if p \<in> {Some ''gemma4'', Some ''gemma-4''} then tl_thinking_bool L args \<noteq> Some True
      else if p = Some ''mistral'' then \<not> mistral_reasoning_enabled args
      else if p \<in> {Some ''minimax_m3'', Some ''minimax-m3''}
      then (case minimax_mode args of Some mode \<Rightarrow> mode = ''disabled'' | None \<Rightarrow> False)
      else False)"

definition release_parser_requires_special_tokens :: "string option \<Rightarrow> string option \<Rightarrow> bool" where
  "release_parser_requires_special_tokens tool_parser reasoning_parser =
     (tool_parser \<in> {Some ''gemma4'', Some ''gemma-4'', Some ''harmony'', Some ''kimi_k2'', Some ''kimi_k3'',
        Some ''kimi-k3'', Some ''minimax_m3'', Some ''minimax-m3'', Some ''minimax_m3_nom'',
        Some ''minimax-m3-nom'', Some ''inkling'', Some ''muse_glimmer'', Some ''muse''}
      \<or> reasoning_parser \<in> {Some ''gemma4'', Some ''gemma-4'', Some ''gpt_oss'', Some ''kimi_k25'', Some ''kimi_k3'',
        Some ''kimi-k3'', Some ''mistral'', Some ''minimax_m3'', Some ''minimax-m3'', Some ''inkling'',
        Some ''muse_glimmer'', Some ''muse''})"

definition release_special_tokens_will_be_stripped :: "bool option \<Rightarrow> string option \<Rightarrow> string option \<Rightarrow> bool" where
  "release_special_tokens_will_be_stripped skip tool_parser reasoning_parser =
     (skip = Some True \<and> release_parser_requires_special_tokens tool_parser reasoning_parser)"

definition release_skips_guided_json_when_prompt_injected :: "string option \<Rightarrow> bool" where
  "release_skips_guided_json_when_prompt_injected p =
     (p \<in> {Some ''deepseek_v4'', Some ''deepseek-v4'', Some ''deepseekv4'', Some ''glm45'', Some ''minimax_m3'',
           Some ''minimax-m3''})"

definition release_skips_structured_response_when_prompt_injected :: "string option \<Rightarrow> bool" where
  "release_skips_structured_response_when_prompt_injected p =
     (p \<in> {Some ''qwen3'', Some ''kimi_k3'', Some ''kimi-k3''} \<or> release_skips_guided_json_when_prompt_injected p)"

definition release_prompt_injected_reasoning_ended_arg :: "string option \<Rightarrow> string option \<Rightarrow> bool option" where
  "release_prompt_injected_reasoning_ended_arg p formatted_prompt =
     (let should_forward = p \<in> {Some ''minimax_m2'', Some ''minimax_m3'', Some ''minimax-m3'', Some ''kimi_k3'',
            Some ''kimi-k3''} in
      if should_forward \<and> prompt_injected_reasoning_start p formatted_prompt then Some False else None)"

section \<open>Tools\<close>

definition release_request_has_tools :: "json option \<Rightarrow> bool" where
  "release_request_has_tools tools =
     (case tools of
        Some (JArray ts) \<Rightarrow> ts \<noteq> []
      | Some (JObject kvs) \<Rightarrow> kvs \<noteq> []
      | Some (JString s) \<Rightarrow> s \<noteq> []
      | _ \<Rightarrow> False)"

definition release_remove_end_tokens ::
  "(string \<Rightarrow> string list option) \<Rightarrow> (string \<Rightarrow> string + token_id list) \<Rightarrow> string option \<Rightarrow>
     json option \<Rightarrow> json option \<Rightarrow> token_id list \<Rightarrow> string + token_id list \<times> token_id list" where
  "release_remove_end_tokens end_tokens encode tool_parser tools choice hidden =
     (let tool_choice_none = (Option.bind choice json_as_str = Some ''none'') in
      if \<not> should_keep_tool_parser_end_tokens_visible (release_request_has_tools tools) tool_choice_none then Inr (hidden, [])
      else case opt_filter (\<lambda>p. p \<noteq> []) tool_parser of
        None \<Rightarrow> Inr (hidden, [])
      | Some p \<Rightarrow>
          (case end_tokens p of
             None \<Rightarrow> Inr (hidden, [])
           | Some ts \<Rightarrow> move_end_tokens encode ts hidden []))"

text \<open>
  The route of a response; \<open>tools\<close> are those of the request, by number.  The route the fix calls
  \<open>Unified\<close> is \<open>QwenUnified\<close> here.
\<close>

definition release_tool_processing_route ::
  "parser_registry \<Rightarrow> string option \<Rightarrow> string option \<Rightarrow> tool_choice option \<Rightarrow> bool \<Rightarrow> bool \<Rightarrow> nat option \<Rightarrow> tool_route" where
  "release_tool_processing_route G tool_parser reasoning_parser choice structural_tag parsing_enabled tools =
     (case (pr_unified_family G tool_parser reasoning_parser,
            \<not> structural_tag \<and> choice \<in> {None, Some TC_Auto, Some TC_None}) of
        (Some family, True) \<Rightarrow> MuseUnified family
      | _ \<Rightarrow>
          (case pr_selected_family G tool_parser reasoning_parser of
             Some family \<Rightarrow> Unified family
           | None \<Rightarrow>
               let parser = effective_tool_call_parser tool_parser reasoning_parser;
                   has_tools = is_some_and (\<lambda>n. n \<noteq> 0) tools;
                   should_jail =
                     (if parsing_enabled \<or> is_kimi_k3 parser then should_apply_tool_jail parser choice has_tools else False) in
               if \<not> should_jail then PassThrough
               else case parser of
                 Some name \<Rightarrow>
                   if pr_v2_enabled G \<and> pr_v2_supports G name \<and> \<not> structural_tag \<and> choice \<in> {None, Some TC_Auto}
                   then ParserV2 name else LegacyJail parser
               | None \<Rightarrow> LegacyJail parser))"

section \<open>Where the versions agree\<close>

text \<open>On every parser but \<open>deepseek_v41\<close> the tables are the same.\<close>

lemma tables_versions_agree:
  assumes "p \<noteq> Some ''deepseek_v41''"
  shows "release_sglang_effective_reasoning_enabled L p args = sglang_effective_reasoning_enabled L p args"
    and "release_guided_output_requires_reasoning L p r = guided_output_requires_reasoning L p r"
    and "release_is_reasoning_disabled_by_request L p args = is_reasoning_disabled_by_request L p args"
    and "release_skips_guided_json_when_prompt_injected p = skips_guided_json_when_prompt_injected p"
    and "release_skips_structured_response_when_prompt_injected p = skips_structured_response_when_prompt_injected p"
    and "release_prompt_injected_reasoning_ended_arg p prompt = prompt_injected_reasoning_ended_arg p prompt"
proof -
  show gate: "release_sglang_effective_reasoning_enabled L p args = sglang_effective_reasoning_enabled L p args" for args
    using assms by (simp add: release_sglang_effective_reasoning_enabled_def sglang_effective_reasoning_enabled_def Let_def)
  show "release_guided_output_requires_reasoning L p r = guided_output_requires_reasoning L p r"
    by (simp add: release_guided_output_requires_reasoning_def guided_output_requires_reasoning_def gate)
  show "release_is_reasoning_disabled_by_request L p args = is_reasoning_disabled_by_request L p args"
    using assms by (simp add: release_is_reasoning_disabled_by_request_def is_reasoning_disabled_by_request_def)
  show guided: "release_skips_guided_json_when_prompt_injected p = skips_guided_json_when_prompt_injected p"
    using assms by (auto simp: release_skips_guided_json_when_prompt_injected_def skips_guided_json_when_prompt_injected_def)
  show "release_skips_structured_response_when_prompt_injected p = skips_structured_response_when_prompt_injected p"
    by (simp add: release_skips_structured_response_when_prompt_injected_def
        skips_structured_response_when_prompt_injected_def guided)
  show "release_prompt_injected_reasoning_ended_arg p prompt = prompt_injected_reasoning_ended_arg p prompt"
    using assms by (auto simp: release_prompt_injected_reasoning_ended_arg_def prompt_injected_reasoning_ended_arg_def Let_def)
qed

lemma special_tokens_versions_agree:
  assumes "p \<noteq> Some ''deepseek_v41''" "t \<noteq> Some ''deepseek_v41''"
  shows "release_parser_requires_special_tokens t p = parser_requires_special_tokens t p"
    and "release_special_tokens_will_be_stripped skip t p = special_tokens_will_be_stripped skip t p"
  using assms
  by (auto simp: release_parser_requires_special_tokens_def parser_requires_special_tokens_def
      release_special_tokens_will_be_stripped_def special_tokens_will_be_stripped_def)

text \<open>
  The released version reads the new parser as an unknown one: it neither keeps its special tokens nor
  waits for its reasoning, whatever the request says about thinking.
\<close>

lemma release_ignores_new_parser:
  "\<not> release_parser_requires_special_tokens None (Some ''deepseek_v41'')"
  "\<not> release_guided_output_requires_reasoning L (Some ''deepseek_v41'') r"
  "\<not> release_is_reasoning_disabled_by_request L (Some ''deepseek_v41'') args"
  "parser_requires_special_tokens None (Some ''deepseek_v41'')"
  by (simp_all add: release_parser_requires_special_tokens_def release_guided_output_requires_reasoning_def
      release_sglang_effective_reasoning_enabled_def release_is_reasoning_disabled_by_request_def
      is_nemotron_force_reasoning_def parser_requires_special_tokens_def Let_def)

lemma has_tools_versions_agree:
  "request_has_effective_tools tools system_tools \<longleftrightarrow>
     release_request_has_tools tools \<or> is_some_and (list_ex (is_some_and (\<lambda>n. n \<noteq> 0))) system_tools"
  by (simp add: request_has_effective_tools_def release_request_has_tools_def)

text \<open>
  Without tools in system messages the stop tokens and the routes are the same.  With tools in a
  system message only, the released version keeps every stop hidden, so the end of a tool call never
  reaches the parser as text, and does not parse the response unless the parser wraps all of it.
\<close>

lemma end_tokens_versions_agree:
  assumes "\<not> is_some_and (list_ex (is_some_and (\<lambda>n. n \<noteq> 0))) system_tools"
  shows "release_remove_end_tokens end_tokens encode tool_parser tools choice hidden =
     remove_tool_parser_end_tokens_from_hidden_stops end_tokens encode tool_parser
       (request_has_effective_tools tools system_tools) choice hidden"
  using assms
  by (simp add: release_remove_end_tokens_def remove_tool_parser_end_tokens_from_hidden_stops_def has_tools_versions_agree)

lemma release_system_tools_ignored:
  "release_remove_end_tokens end_tokens encode tool_parser None choice hidden = Inr (hidden, [])"
  by (simp add: release_remove_end_tokens_def release_request_has_tools_def should_keep_tool_parser_end_tokens_visible_def)

lemma route_versions_agree:
  assumes "ro_has_tools r = is_some_and (\<lambda>n. n \<noteq> 0) tools"
  shows "release_tool_processing_route G tool_parser reasoning_parser (ro_tool_choice r) (ro_structural_tag r)
       (ro_parsing_enabled r) tools = tool_processing_route G tool_parser reasoning_parser r"
  unfolding release_tool_processing_route_def tool_processing_route_def Let_def assms ..

lemma release_system_tools_not_parsed:
  assumes "pr_unified_family G tool_parser reasoning_parser = None" "pr_selected_family G tool_parser reasoning_parser = None"
    and "\<not> is_kimi_k3 (effective_tool_call_parser tool_parser reasoning_parser)"
  shows "release_tool_processing_route G tool_parser reasoning_parser choice structural_tag parsing_enabled None = PassThrough"
  using assms
  by (cases "effective_tool_call_parser tool_parser reasoning_parser"; cases choice)
    (auto simp: release_tool_processing_route_def should_apply_tool_jail_def Let_def split: tool_choice.split)

end
