(* ===== verification/Release_Media.thy ===== *)
theory Release_Media
  imports Media_Gather Release_Routing Release_Parsers
begin

text \<open>
  Gathering the media of a request in the released version (\<open>gather_multi_modal_data_with_image_tokens\<close>
  of \<open>current-code/sources/release/preprocessor.rs\<close>), and how the fix extends it.  The released version
  takes cache identities for images only, walks the messages in request order, leaves adjacent videos
  to the check after decoding, and keeps inline data in the messages when it does not decode itself.
  What the two versions share is taken from \<open>Media_Gather\<close>.
\<close>

section \<open>The environment\<close>

record release_video_routing =
  rv_placeholder :: token_id
  rv_target :: "token_id list"
  rv_replacement :: "token_id list"

record release_media_env =
  rm_decoder :: "json \<Rightarrow> string + json"
  rm_fetch :: "media_part \<Rightarrow> json option \<Rightarrow> bool \<Rightarrow> request_error + descriptor"
  rm_url_hash :: "string \<Rightarrow> u64"
  rm_fetch_dims :: "u64 \<Rightarrow> string \<Rightarrow> dimension_policy \<Rightarrow> (bool \<times> string) + u32 \<times> u32"
  rm_dimension_policy :: dimension_policy
  rm_video_processor :: "(nat \<times> nat \<times> nat \<Rightarrow> rat \<times> rat list \<Rightarrow> string + release_video_routing) option"
  rm_kit :: routing_kit
  rm_setup :: release_setup

section \<open>The scan over the messages\<close>

record release_scan =
  rc_media :: "(string, media_data list) omap"
  rc_uuids :: "(string, string option list) omap"
  rc_has_uuid :: bool
  rc_tasks :: "media_task list"
  rc_total_images :: nat
  rc_eligible :: bool
  rc_passthrough :: "(u64 \<times> string) list"

definition empty_release_scan :: release_scan where
  "empty_release_scan =
     \<lparr>rc_media = [], rc_uuids = [], rc_has_uuid = False, rc_tasks = [], rc_total_images = 0, rc_eligible = True,
      rc_passthrough = []\<rparr>"

definition release_reserved_slot :: "media_part \<Rightarrow> request_error + media_data" where
  "release_reserved_slot p =
     (case (mp_url p, mp_uuid p) of
        (Some url, _) \<Rightarrow> Inr (Media_Url url)
      | (None, Some uuid) \<Rightarrow> Inr (Media_Uuid uuid)
      | (None, None) \<Rightarrow> Inl (Invalid_Argument ''part has neither `url` nor `uuid`''))"

definition release_scan_part ::
  "release_media_env \<Rightarrow> bool \<Rightarrow> media_part \<Rightarrow> release_scan \<Rightarrow> request_error + release_scan" where
  "release_scan_part E loader p st =
     (let is_image = (mp_type p = ''image_url'') in
      if \<not> is_image \<and> is_some (mp_uuid p)
      then Inl (Invalid_Argument ''multimodal cache UUIDs are supported only for image_url parts with vLLM'')
      else if mp_uuid p = Some [] then Inl (Invalid_Argument ''uuid must be a non-empty string'')
      else case release_reserved_slot p of
        Inl e \<Rightarrow> Inl e
      | Inr slot \<Rightarrow>
          let slots = unwrap_or [] (om_get (rc_media st) (mp_type p));
              ids = unwrap_or [] (om_get (rc_uuids st) (mp_type p)) in
          Inr (st\<lparr>rc_media := om_insert (mp_type p) (slots @ [slot]) (rc_media st),
                  rc_uuids := (if is_image then om_insert (mp_type p) (ids @ [mp_uuid p]) (rc_uuids st) else rc_uuids st),
                  rc_has_uuid := (rc_has_uuid st \<or> is_some (mp_uuid p)),
                  rc_tasks := (if is_some (mp_url p) \<and> loader
                               then rc_tasks st @ [\<lparr>mk_modality = mp_type p, mk_slot = length slots, mk_part = p\<rparr>]
                               else rc_tasks st),
                  rc_total_images := (if is_image then Suc (rc_total_images st) else rc_total_images st),
                  rc_eligible := (exact_mm_routing_supports_modality (mp_type p) loader \<and> rc_eligible st),
                  rc_passthrough := (case mp_url p of
                     Some url \<Rightarrow> if \<not> loader \<and> is_image then rc_passthrough st @ [(rm_url_hash E url, url)] else rc_passthrough st
                   | None \<Rightarrow> rc_passthrough st)\<rparr>))"

fun release_scan_parts ::
  "release_media_env \<Rightarrow> bool \<Rightarrow> media_part list \<Rightarrow> release_scan \<Rightarrow> request_error + release_scan" where
  "release_scan_parts E loader [] st = Inr st"
| "release_scan_parts E loader (p # ps) st =
     (case release_scan_part E loader p st of Inl e \<Rightarrow> Inl e | Inr st' \<Rightarrow> release_scan_parts E loader ps st')"

section \<open>Fetched media\<close>

record release_fetch =
  rf_media :: "(string, media_data list) omap"
  rf_entries :: "release_entry list"
  rf_image_tokens :: "nat option"
  rf_eligible :: bool

definition release_push_image :: "release_setup \<Rightarrow> u64 \<Rightarrow> u32 \<Rightarrow> u32 \<Rightarrow> release_fetch \<Rightarrow> release_fetch" where
  "release_push_image su hash w h st =
     st\<lparr>rf_image_tokens := (case rs_counter su of
           Some count \<Rightarrow> checked_add_image_tokens (rf_image_tokens st) (count w h)
         | None \<Rightarrow> rf_image_tokens st),
        rf_entries := rf_entries st @ [Rel_Image hash w h]\<rparr>"

definition release_video_entry :: "release_media_env \<Rightarrow> bool \<Rightarrow> descriptor \<Rightarrow> release_entry option" where
  "release_video_entry E has_override d =
     (case rm_video_processor E of
        None \<Rightarrow> None
      | Some processor \<Rightarrow>
          if has_override then None
          else case (de_video_dimensions d, de_video_metadata d, de_video_hash d) of
            (Inr dims, Inr meta, Inr hash) \<Rightarrow>
              (case processor dims meta of
                 Inl _ \<Rightarrow> None
               | Inr v \<Rightarrow> Some (Rel_Video hash (rv_placeholder v) (rv_target v) (rv_replacement v)))
          | _ \<Rightarrow> None)"

definition release_note_fetched ::
  "release_media_env \<Rightarrow> bool \<Rightarrow> media_task \<Rightarrow> descriptor \<Rightarrow> release_fetch \<Rightarrow> request_error + release_fetch" where
  "release_note_fetched E has_override k d st =
     (if mk_modality k = ''image_url'' then
        (case de_shape d of
           h # w # _ \<Rightarrow>
             (case (de_content_hash d, mp_url (mk_part k)) of
                (Some hash, _) \<Rightarrow> Inr (release_push_image (rm_setup E) hash (of_nat w) (of_nat h) st)
              | (None, Some url) \<Rightarrow> Inr (release_push_image (rm_setup E) (rm_url_hash E url) (of_nat w) (of_nat h) st)
              | (None, None) \<Rightarrow> Inl (Invalid_Argument ''image_url task must contain an image URL''))
         | _ \<Rightarrow> Inr st)
      else if mk_modality k = ''video_url'' then
        (case release_video_entry E has_override d of
           Some e \<Rightarrow> Inr (st\<lparr>rf_entries := rf_entries st @ [e]\<rparr>)
         | None \<Rightarrow> Inr (st\<lparr>rf_eligible := False\<rparr>))
      else Inr st)"

fun release_fetch_media ::
  "release_media_env \<Rightarrow> bool \<Rightarrow> json option \<Rightarrow> bool \<Rightarrow> media_task list \<Rightarrow> release_fetch \<Rightarrow> request_error + release_fetch" where
  "release_fetch_media E has_override io hash_video [] st = Inr st"
| "release_fetch_media E has_override io hash_video (k # ks) st =
     (case rm_fetch E (mk_part k) io hash_video of
        Inl e \<Rightarrow> Inl e
      | Inr d \<Rightarrow>
          (case release_note_fetched E has_override k d st of
             Inl e \<Rightarrow> Inl e
           | Inr st1 \<Rightarrow>
               (case replace_reserved_media_slot (mk_modality k) (mk_slot k) (Media_Decoded d) (rf_media st1) of
                  Inl e \<Rightarrow> Inl e
                | Inr media \<Rightarrow> release_fetch_media E has_override io hash_video ks (st1\<lparr>rf_media := media\<rparr>))))"

fun release_passthrough ::
  "release_media_env \<Rightarrow> (u64 \<times> string) list \<Rightarrow> release_fetch \<Rightarrow> request_error + release_fetch" where
  "release_passthrough E [] st = Inr st"
| "release_passthrough E ((hash, url) # rest) st =
     (case rm_fetch_dims E hash url (rm_dimension_policy E) of
        Inr (w, h) \<Rightarrow> release_passthrough E rest (release_push_image (rm_setup E) hash w h st)
      | Inl (True, e) \<Rightarrow> Inl (Invalid_Argument e)
      | Inl (False, _) \<Rightarrow> release_passthrough E rest st)"

definition release_resolve_media ::
  "release_media_env \<Rightarrow> build_request \<Rightarrow> release_scan \<Rightarrow> request_error + release_fetch" where
  "release_resolve_media E r sc =
     (let has_override = has_mm_processor_override (bq_mm_kwargs r);
          hash_video = should_hash_decoded_video (rc_eligible sc) (rc_has_uuid sc) has_override
                         (is_some (rm_video_processor E));
          st = \<lparr>rf_media = rc_media sc, rf_entries = [],
                rf_image_tokens = map_option (\<lambda>_. 0) (rs_counter (rm_setup E)), rf_eligible = rc_eligible sc\<rparr>;
          fetched =
            (if rc_tasks sc = [] then Inr st
             else case bq_media_io r of
               None \<Rightarrow> release_fetch_media E has_override None hash_video (rc_tasks sc) st
             | Some io \<Rightarrow>
                 (case rm_decoder E io of
                    Inl e \<Rightarrow> Inl (Invalid_Argument e)
                  | Inr dec \<Rightarrow> release_fetch_media E has_override (Some dec) hash_video (rc_tasks sc) st)) in
      case fetched of
        Inl e \<Rightarrow> Inl e
      | Inr st1 \<Rightarrow>
          if \<not> rc_has_uuid sc \<and> rc_passthrough sc \<noteq> [] then release_passthrough E (rc_passthrough sc) st1
          else Inr st1)"

section \<open>Routing information and hashes\<close>

definition release_image_count :: "release_entry list \<Rightarrow> nat" where
  "release_image_count es = length (filter (\<lambda>e. \<not> release_is_video e) es)"

definition release_hash_values :: "release_entry list \<Rightarrow> json" where
  "release_hash_values es = JArray (map (\<lambda>e. JString (hex16 (release_entry_hash e))) es)"

definition release_worker_hashes :: "release_entry list \<Rightarrow> string \<times> json" where
  "release_worker_hashes es =
     (if list_all (\<lambda>e. \<not> release_is_video e) es then (''mm_hashes'', release_hash_values es)
      else
        let images = filter (\<lambda>e. \<not> release_is_video e) es; videos = filter release_is_video es;
            g1 = (if images = [] then [] else om_insert ''image'' (release_hash_values images) []);
            g2 = (if videos = [] then g1 else om_insert ''video'' (release_hash_values videos) g1) in
        (''mm_hashes_by_modality'', JObject g2))"

definition release_extra_args :: "deployment \<Rightarrow> build_request \<Rightarrow> string option \<Rightarrow> (string, json) omap" where
  "release_extra_args D r prompt =
     (let messages = (if dp_media_loader D then strip_inline_data_urls (bq_messages r) else bq_messages r);
          base = [(''messages'', messages)];
          with_prompt = insert_some ''formatted_prompt'' (map_option JString prompt) base in
      case backend_extra_args r (is_some (dp_reasoning_parser D))
             (release_prompt_injected_reasoning_ended_arg (dp_reasoning_parser D) prompt) of
        Some (JObject kvs) \<Rightarrow> fold (\<lambda>(k, v). om_insert k v) kvs with_prompt
      | _ \<Rightarrow> with_prompt)"

definition release_install_media ::
  "release_media_env \<Rightarrow> deployment \<Rightarrow> build_request \<Rightarrow> string option \<Rightarrow> token_id list \<Rightarrow> release_scan \<Rightarrow> release_fetch \<Rightarrow>
     built_request \<Rightarrow> built_request \<times> release_entry list \<times> nat option" where
  "release_install_media E D r prompt toks sc st b =
     (if rf_media st = [] then (b, rf_entries st, rf_image_tokens st)
      else
        let es = (if rc_has_uuid sc then [] else rf_entries st);
            ready = rf_eligible st
              \<and> exact_mm_routing_preconditions_met (rc_has_uuid sc) (release_image_count es) (rc_total_images sc)
                  (has_mm_processor_override (bq_mm_kwargs r));
            info = (if ready then release_build_mm_exact_routing_info (rm_kit E) (rm_setup E) es toks else None);
            args = release_extra_args D r prompt;
            args' = (if is_some info then (case release_worker_hashes es of (k, v) \<Rightarrow> om_insert k v args) else args) in
        (b\<lparr>bt_media := Some (rf_media st),
           bt_uuids := (if rc_has_uuid sc then Some (rc_uuids sc) else bt_uuids b),
           bt_extra_args := Some (JObject args'),
           bt_routing_info := (case info of Some i \<Rightarrow> Some i | None \<Rightarrow> bt_routing_info b)\<rparr>,
         es, rf_image_tokens st))"

definition release_gather_with_image_tokens ::
  "release_media_env \<Rightarrow> deployment \<Rightarrow> build_request \<Rightarrow> string option \<Rightarrow> token_id list \<Rightarrow> built_request \<Rightarrow>
     request_error + built_request \<times> release_entry list \<times> nat option" where
  "release_gather_with_image_tokens E D r prompt toks b =
     (case bq_parts r of
        None \<Rightarrow> Inr (b, [], None)
      | Some msgs \<Rightarrow>
          (case release_scan_parts E (dp_media_loader D) (concat msgs) empty_release_scan of
             Inl e \<Rightarrow> Inl e
           | Inr sc \<Rightarrow>
               map_sum id (\<lambda>st.
                   let (b', es, image_tokens) = release_install_media E D r prompt toks sc st b in
                   (b', es, aggregate_image_tokens image_tokens (release_image_count es) (rc_total_images sc)
                              (has_mm_processor_override (bq_mm_kwargs r))))
                 (release_resolve_media E r sc)))"

definition release_gather_multi_modal_data ::
  "release_media_env \<Rightarrow> deployment \<Rightarrow> build_request \<Rightarrow> string option \<Rightarrow> token_id list \<Rightarrow> built_request \<Rightarrow>
     request_error + built_request \<times> image_entry list" where
  "release_gather_multi_modal_data E D r prompt toks b =
     map_sum id (\<lambda>(b', es, _). (b', List.map_filter release_image_of es))
       (release_gather_with_image_tokens E D r prompt toks b)"

definition release_gather_mm_exact_routing_info ::
  "release_media_env \<Rightarrow> image_entry list \<Rightarrow> token_id list \<Rightarrow> built_request \<Rightarrow> built_request" where
  "release_gather_mm_exact_routing_info E images toks b =
     (case release_build_mm_exact_routing_info (rm_kit E) (rm_setup E)
             (map (\<lambda>i. Rel_Image (im_hash i) (im_width i) (im_height i)) images) toks of
        Some info \<Rightarrow> b\<lparr>bt_routing_info := Some info\<rparr>
      | None \<Rightarrow> b)"

section \<open>The embedding\<close>

definition video_of_release :: "release_video_routing \<Rightarrow> video_routing" where
  "video_of_release v =
     \<lparr>vr_placeholder = rv_placeholder v, vr_event = Some (rv_placeholder v), vr_target = rv_target v,
      vr_replacement = rv_replacement v\<rparr>"

text \<open>The environment of the fix for a deployment of the released version: no message order of its own.\<close>

definition env_of_release :: "u32 \<Rightarrow> (string option \<Rightarrow> nat \<Rightarrow> nat option) \<Rightarrow> release_media_env \<Rightarrow> media_env" where
  "env_of_release ctx text_len E =
     \<lparr>me_message_order = (\<lambda>_. None), me_decoder = rm_decoder E, me_fetch = rm_fetch E, me_url_hash = rm_url_hash E,
      me_fetch_dims = rm_fetch_dims E, me_dimension_policy = rm_dimension_policy E,
      me_video_processor = map_option (\<lambda>f dims meta. map_sum id video_of_release (f dims meta)) (rm_video_processor E),
      me_text_len = text_len, me_kit = rm_kit E, me_setup = setup_of_release ctx (rm_setup E)\<rparr>"

text \<open>The cache identities of the images among those of all media.\<close>

definition image_uuids :: "(string, string option list) omap \<Rightarrow> (string, string option list) omap" where
  "image_uuids m = (case om_get m ''image_url'' of None \<Rightarrow> [] | Some ids \<Rightarrow> [(''image_url'', ids)])"

fun videos_apart :: "bool \<Rightarrow> media_part list \<Rightarrow> bool" where
  "videos_apart previous [] = True"
| "videos_apart previous (p # ps) =
     (\<not> (previous \<and> mp_type p = ''video_url'') \<and> videos_apart (mp_type p = ''video_url'') ps)"

definition uuids_on_images :: "media_part \<Rightarrow> bool" where
  "uuids_on_images p = (mp_type p = ''image_url'' \<or> mp_uuid p = None)"

definition fetch_of_release :: "release_fetch \<Rightarrow> fetch_state" where
  "fetch_of_release st =
     \<lparr>fs_media = rf_media st, fs_entries = map entry_of_release (rf_entries st), fs_image_tokens = rf_image_tokens st,
      fs_eligible = rf_eligible st\<rparr>"

text \<open>
  A scan of the fix and one of the released version over the same parts; \<open>last_video\<close> tells whether
  the last part was a video, which only matters while the request is eligible.
\<close>

definition same_scan :: "bool \<Rightarrow> release_scan \<Rightarrow> media_scan \<Rightarrow> bool" where
  "same_scan last_video rc sc =
     (ms_media sc = rc_media rc \<and> ms_has_uuid sc = rc_has_uuid rc \<and> ms_tasks sc = rc_tasks rc
      \<and> ms_total_images sc = rc_total_images rc \<and> ms_eligible sc = rc_eligible rc \<and> ms_passthrough sc = rc_passthrough rc
      \<and> rc_uuids rc = image_uuids (ms_uuids sc) \<and> (rc_eligible rc \<longrightarrow> ms_previous_video sc = last_video))"

section \<open>Lemmas\<close>

lemma env_of_release_simps [simp]:
  "me_message_order (env_of_release ctx len E) r = None" "me_decoder (env_of_release ctx len E) = rm_decoder E"
  "me_fetch (env_of_release ctx len E) = rm_fetch E" "me_url_hash (env_of_release ctx len E) = rm_url_hash E"
  "me_fetch_dims (env_of_release ctx len E) = rm_fetch_dims E"
  "me_dimension_policy (env_of_release ctx len E) = rm_dimension_policy E"
  "is_some (me_video_processor (env_of_release ctx len E)) = is_some (rm_video_processor E)"
  "me_kit (env_of_release ctx len E) = rm_kit E" "me_setup (env_of_release ctx len E) = setup_of_release ctx (rm_setup E)"
  by (simp_all add: env_of_release_def is_some_def split: option.split)

lemma fetch_of_release_simps [simp]:
  "fs_media (fetch_of_release st) = rf_media st" "fs_entries (fetch_of_release st) = map entry_of_release (rf_entries st)"
  "fs_image_tokens (fetch_of_release st) = rf_image_tokens st" "fs_eligible (fetch_of_release st) = rf_eligible st"
  by (simp_all add: fetch_of_release_def)

lemma same_scan_empty: "same_scan False empty_release_scan empty_scan"
  by (simp add: same_scan_def empty_release_scan_def empty_scan_def image_uuids_def)

lemma image_uuids_insert:
  "image_uuids (om_insert k v m) = (if k = ''image_url'' then [(''image_url'', v)] else image_uuids m)"
  by (simp add: image_uuids_def)

lemma image_uuids_get: "om_get (image_uuids m) ''image_url'' = om_get m ''image_url''"
  by (simp add: image_uuids_def om_get_Cons split: option.split)

lemma insert_image_uuids: "om_insert ''image_url'' v (image_uuids m) = [(''image_url'', v)]"
  by (simp add: image_uuids_def split: option.split)

lemma reserved_versions_agree: "uuids_on_images p \<Longrightarrow> reserved_slot p = release_reserved_slot p"
  by (auto simp: reserved_slot_def release_reserved_slot_def uuids_on_images_def split: option.split)

lemma scan_part_versions_agree:
  assumes "same_scan v rc sc" "uuids_on_images p" "\<not> (v \<and> mp_type p = ''video_url'')"
  shows "case release_scan_part E loader p rc of
      Inl e \<Rightarrow> scan_part (env_of_release ctx len E) loader p sc = Inl e
    | Inr rc' \<Rightarrow> \<exists>sc'. scan_part (env_of_release ctx len E) loader p sc = Inr sc'
                  \<and> same_scan (mp_type p = ''video_url'') rc' sc'"
proof (cases "mp_uuid p = Some []")
  case True
  with assms(2) show ?thesis by (simp add: release_scan_part_def scan_part_def uuids_on_images_def Let_def)
next
  case False
  have image: "\<not> (mp_type p \<noteq> ''image_url'' \<and> is_some (mp_uuid p))"
    using assms(2) by (auto simp: uuids_on_images_def is_some_def)
  show ?thesis
  proof (cases "release_reserved_slot p")
    case (Inl e)
    with False image assms(2) show ?thesis
      by (auto simp: release_scan_part_def scan_part_def reserved_versions_agree Let_def)
  next
    case (Inr slot)
    with False image assms show ?thesis
      by (auto simp: release_scan_part_def scan_part_def reserved_versions_agree Let_def same_scan_def note_routing_def
          layout_accepts_next_entry_def image_uuids_insert image_uuids_get insert_image_uuids split: option.split)
  qed
qed

lemma scan_versions_agree:
  assumes "same_scan v rc sc" "list_all uuids_on_images ps" "videos_apart v ps"
  shows "case release_scan_parts E loader ps rc of
      Inl e \<Rightarrow> scan_parts (env_of_release ctx len E) loader ps sc = Inl e
    | Inr rc' \<Rightarrow> \<exists>sc' v'. scan_parts (env_of_release ctx len E) loader ps sc = Inr sc' \<and> same_scan v' rc' sc'"
  using assms
proof (induction ps arbitrary: v rc sc)
  case Nil
  then show ?case by auto
next
  case (Cons p ps)
  have step: "case release_scan_part E loader p rc of
      Inl e \<Rightarrow> scan_part (env_of_release ctx len E) loader p sc = Inl e
    | Inr rc' \<Rightarrow> \<exists>sc'. scan_part (env_of_release ctx len E) loader p sc = Inr sc'
                  \<and> same_scan (mp_type p = ''video_url'') rc' sc'"
    using Cons.prems by (intro scan_part_versions_agree) auto
  show ?case
  proof (cases "release_scan_part E loader p rc")
    case (Inl e)
    with step show ?thesis by simp
  next
    case (Inr rc')
    with step obtain sc' where sc': "scan_part (env_of_release ctx len E) loader p sc = Inr sc'"
      "same_scan (mp_type p = ''video_url'') rc' sc'" by auto
    with Cons.IH [OF sc'(2)] Cons.prems Inr show ?thesis by (cases "release_scan_parts E loader ps rc'") simp_all
  qed
qed

lemma push_image_embedded:
  "push_image (setup_of_release ctx su) hash w h (fetch_of_release st) = fetch_of_release (release_push_image su hash w h st)"
  by (simp add: push_image_def release_push_image_def fetch_of_release_def count_image_def plain_counter_def opt_filter_def
      counter_of_release_def entry_of_release_def split: option.split)

lemma video_entry_embedded:
  "video_entry (env_of_release ctx len E) ov d = map_option entry_of_release (release_video_entry E ov d)"
  by (simp add: video_entry_def release_video_entry_def env_of_release_def video_of_release_def entry_of_release_def
      split: option.split sum.split)

lemma note_fetched_embedded:
  "note_fetched (env_of_release ctx len E) ov k d (fetch_of_release st) =
     map_sum id fetch_of_release (release_note_fetched E ov k d st)"
  by (simp add: note_fetched_def release_note_fetched_def push_image_embedded video_entry_embedded split: list.split option.split)

lemma fetch_media_embedded:
  "fetch_media (env_of_release ctx len E) ov io hv ks (fetch_of_release st) =
     map_sum id fetch_of_release (release_fetch_media E ov io hv ks st)"
proof (induction ks arbitrary: st)
  case (Cons k ks)
  have upd: "(fetch_of_release s)\<lparr>fs_media := m\<rparr> = fetch_of_release (s\<lparr>rf_media := m\<rparr>)" for s m
    by (simp add: fetch_of_release_def)
  show ?case
    by (simp add: note_fetched_embedded upd Cons split: sum.split)
qed simp

lemma passthrough_embedded:
  "passthrough_images (env_of_release ctx len E) us (fetch_of_release st) =
     map_sum id fetch_of_release (release_passthrough E us st)"
  by (induction us arbitrary: st) (auto simp: push_image_embedded split: sum.split bool.split)

lemma resolve_media_embedded:
  assumes "same_scan v rc sc"
  shows "resolve_media (env_of_release ctx len E) r sc = map_sum id fetch_of_release (release_resolve_media E r rc)"
proof -
  define st where "st = \<lparr>rf_media = rc_media rc, rf_entries = [],
      rf_image_tokens = map_option (\<lambda>_. 0) (rs_counter (rm_setup E)), rf_eligible = rc_eligible rc\<rparr>"
  have same: "ms_media sc = rc_media rc" "ms_has_uuid sc = rc_has_uuid rc" "ms_tasks sc = rc_tasks rc"
    "ms_eligible sc = rc_eligible rc" "ms_passthrough sc = rc_passthrough rc"
    using assms by (simp_all add: same_scan_def)
  have start: "\<lparr>fs_media = ms_media sc, fs_entries = [],
        fs_image_tokens = (case su_counter (me_setup (env_of_release ctx len E)) of
           Some c \<Rightarrow> if ic_request_budget c then None else Some 0 | None \<Rightarrow> None),
        fs_eligible = ms_eligible sc\<rparr> = fetch_of_release st"
    by (simp add: same st_def fetch_of_release_def counter_of_release_def split: option.split)
  show ?thesis
    unfolding resolve_media_def release_resolve_media_def Let_def start st_def [symmetric]
    by (cases "rc_has_uuid rc"; cases "rc_tasks rc = []"; cases "bq_media_io r")
      (simp_all add: same fetch_media_embedded passthrough_embedded split: sum.split)
qed

lemma filter_embedded:
  "filter is_video (map entry_of_release es) = map entry_of_release (filter release_is_video es)"
  "filter (\<lambda>e. \<not> is_video e) (map entry_of_release es) = map entry_of_release (filter (\<lambda>e. \<not> release_is_video e) es)"
  by (simp_all add: filter_map comp_def)

lemma image_count_embedded: "image_count (map entry_of_release es) = release_image_count es"
  by (simp add: image_count_def release_image_count_def filter_embedded)

lemma worker_hashes_embedded: "worker_hashes (map entry_of_release es) = release_worker_hashes es"
proof -
  have "hash_values (map entry_of_release xs) = release_hash_values xs" for xs
    by (simp add: hash_values_def release_hash_values_def comp_def)
  then show ?thesis
    by (simp add: worker_hashes_def release_worker_hashes_def filter_embedded list.pred_map comp_def Let_def)
qed

lemma extra_args_versions_agree:
  assumes "dp_media_loader D \<or> strip_inline_data_urls (bq_messages r) = bq_messages r" "dp_reasoning_parser D \<noteq> Some ''deepseek_v41''"
  shows "media_extra_args D r prompt = release_extra_args D r prompt"
  using assms(1) by (auto simp: media_extra_args_def release_extra_args_def tables_versions_agree [OF assms(2)])

lemma no_budget: "budget_counter (setup_of_release ctx su) = None"
  by (simp add: budget_counter_def opt_filter_def counter_of_release_def split: option.split)

lemma install_embedded:
  assumes "same_scan v rc sc" "bt_uuids b = None"
    and "dp_media_loader D \<or> strip_inline_data_urls (bq_messages r) = bq_messages r" "dp_reasoning_parser D \<noteq> Some ''deepseek_v41''"
  shows "map_prod (\<lambda>b'. b'\<lparr>bt_uuids := map_option image_uuids (bt_uuids b')\<rparr>) id
           (install_media (env_of_release ctx len E) D r prompt toks sc (fetch_of_release st) b) =
         map_prod id (map_prod (map entry_of_release) id) (release_install_media E D r prompt toks rc st b)"
proof -
  have same: "ms_has_uuid sc = rc_has_uuid rc" "ms_total_images sc = rc_total_images rc"
    "rc_uuids rc = image_uuids (ms_uuids sc)"
    using assms(1) by (simp_all add: same_scan_def)
  have es: "(if c then [] else map entry_of_release es) = map entry_of_release (if c then [] else es)" for c es by simp
  show ?thesis
    unfolding install_media_def release_install_media_def Let_def fetch_of_release_simps same es
    using assms(2)
    by (auto simp: image_count_embedded worker_hashes_embedded extra_args_versions_agree [OF assms(3,4)] budgeted_image_tokens_def
        no_budget routing_info_versions_agree same)
qed

lemma release_scan_errors: "release_scan_part E loader p rc = Inl e \<Longrightarrow> \<exists>m. e = Invalid_Argument m"
  by (auto simp: release_scan_part_def release_reserved_slot_def Let_def split: if_splits option.splits)

lemma release_refuses_uuids:
  "\<not> list_all uuids_on_images ps \<Longrightarrow> \<exists>m. release_scan_parts E loader ps rc = Inl (Invalid_Argument m)"
proof (induction ps arbitrary: rc)
  case (Cons p ps)
  have "uuids_on_images p" if "release_scan_part E loader p rc = Inr rc'" for rc'
    using that by (auto simp: release_scan_part_def uuids_on_images_def is_some_def Let_def split: if_splits option.splits)
  with Cons show ?case
    by (cases "release_scan_part E loader p rc") (auto dest: release_scan_errors)
qed simp

lemma gather_embedded:
  assumes "bq_parts r = Some msgs" "bt_uuids b = None" "list_all uuids_on_images (concat msgs)"
    and "videos_apart False (concat msgs)" "dp_media_loader D \<or> strip_inline_data_urls (bq_messages r) = bq_messages r"
    and "dp_reasoning_parser D \<noteq> Some ''deepseek_v41''"
  shows "map_sum id (map_prod (\<lambda>b'. b'\<lparr>bt_uuids := map_option image_uuids (bt_uuids b')\<rparr>) id)
           (gather_multi_modal_data_with_image_tokens (env_of_release ctx len E) D r prompt toks b) =
         map_sum id (map_prod id (map_prod (map entry_of_release) id))
           (release_gather_with_image_tokens E D r prompt toks b)"
proof (cases "release_scan_parts E (dp_media_loader D) (concat msgs) empty_release_scan")
  case (Inl e)
  with scan_versions_agree [where E = E and loader = "dp_media_loader D" and ctx = ctx and len = len, OF same_scan_empty assms(3,4)] assms(1) show ?thesis
    by (simp add: gather_multi_modal_data_with_image_tokens_def release_gather_with_image_tokens_def ordered_parts_def)
next
  case (Inr rc)
  with scan_versions_agree [where E = E and loader = "dp_media_loader D" and ctx = ctx and len = len, OF same_scan_empty assms(3,4)] obtain sc v where
    sc: "scan_parts (env_of_release ctx len E) (dp_media_loader D) (concat msgs) empty_scan = Inr sc" "same_scan v rc sc"
    by auto
  have total: "ms_total_images sc = rc_total_images rc" using sc(2) by (simp add: same_scan_def)
  show ?thesis
  proof (cases "release_resolve_media E r rc")
    case (Inl e)
    with Inr sc assms(1) show ?thesis
      by (simp add: gather_multi_modal_data_with_image_tokens_def release_gather_with_image_tokens_def ordered_parts_def
          resolve_media_embedded)
  next
    case R: (Inr st)
    obtain b1 es1 n1 where f: "install_media (env_of_release ctx len E) D r prompt toks sc (fetch_of_release st) b = (b1, es1, n1)"
      by (metis prod_cases3)
    obtain b2 es2 n2 where g: "release_install_media E D r prompt toks rc st b = (b2, es2, n2)" by (metis prod_cases3)
    from install_embedded [where ctx = ctx and len = len and E = E and prompt = prompt and toks = toks and st = st,
        OF sc(2) assms(2,5,6)] f g
    have "b1\<lparr>bt_uuids := map_option image_uuids (bt_uuids b1)\<rparr> = b2" "es1 = map entry_of_release es2" "n1 = n2" by simp_all
    with f g Inr R sc assms(1) show ?thesis
      by (simp add: gather_multi_modal_data_with_image_tokens_def release_gather_with_image_tokens_def ordered_parts_def
          resolve_media_embedded total image_count_embedded)
  qed
qed

section \<open>The fix extends the released version\<close>

text \<open>
  For a deployment of the released version the fix gathers media as the released version does.  If
  cache identities are on images only, no two videos are adjacent, the messages have no inline data
  unless the frontend decodes, and the reasoning parser is one the released version knows, both give the same result for every request: the same error, or the same
  media, the same arguments, routing information and entries for the worker, and the same image tokens;
  the fix sends, beside the cache identities of the images, those of the other media, which are all
  absent.  A request with a cache identity on another medium is always refused by the released version.
\<close>

lemma media_gathering_extends_release:
  assumes "bq_parts r = Some msgs" "bt_uuids b = None"
  shows "(list_all uuids_on_images (concat msgs) \<and> videos_apart False (concat msgs)
          \<and> (dp_media_loader D \<or> strip_inline_data_urls (bq_messages r) = bq_messages r)
          \<and> dp_reasoning_parser D \<noteq> Some ''deepseek_v41'' \<longrightarrow>
            map_sum id (map_prod (\<lambda>b'. b'\<lparr>bt_uuids := map_option image_uuids (bt_uuids b')\<rparr>) id)
              (gather_multi_modal_data_with_image_tokens (env_of_release ctx len E) D r prompt toks b) =
            map_sum id (map_prod id (map_prod (map entry_of_release) id))
              (release_gather_with_image_tokens E D r prompt toks b))
       \<and> (\<not> list_all uuids_on_images (concat msgs) \<longrightarrow>
            (\<exists>e. release_gather_with_image_tokens E D r prompt toks b = Inl (Invalid_Argument e)))"
proof (intro conjI impI)
  assume "\<not> list_all uuids_on_images (concat msgs)"
  with release_refuses_uuids [where E = E and loader = "dp_media_loader D" and rc = empty_release_scan, OF this] assms(1)
  show "\<exists>e. release_gather_with_image_tokens E D r prompt toks b = Inl (Invalid_Argument e)"
    by (auto simp: release_gather_with_image_tokens_def)
qed (use gather_embedded [OF assms] in blast)

definition sample_release_env :: release_media_env where
  "sample_release_env =
     \<lparr>rm_decoder = Inr, rm_fetch = (\<lambda>_ _ _. Inr sample_descriptor), rm_url_hash = (\<lambda>_. 0),
      rm_fetch_dims = (\<lambda>_ _ _. Inr (1, 1)), rm_dimension_policy = Encoded,
      rm_video_processor = Some (\<lambda>_ _. Inr \<lparr>rv_placeholder = 7, rv_target = [7], rv_replacement = [7, 7]\<rparr>),
      rm_kit = sample_routing_kit,
      rm_setup = \<lparr>rs_counter = None, rs_image_token = su_image_token sample_routing_setup, rs_layout = None,
                  rs_block_size = su_block_size sample_routing_setup, rs_bos = su_bos sample_routing_setup\<rparr>\<rparr>"

lemma sample_env_of_release: "env_of_release (su_context sample_routing_setup) (\<lambda>_ _. None) sample_release_env = sample_media_env"
  by (simp add: env_of_release_def sample_release_env_def sample_media_env_def setup_of_release_def video_of_release_def
      sample_routing_setup_def)

lemma media_gathering_extends_release_sample:
  "(\<exists>b' n. release_gather_with_image_tokens sample_release_env sample_deployment sample_media_request None [1, 7, 2] sample_built =
       Inr (b', [Rel_Video 5 7 [7] [7, 7]], n)
     \<and> bt_routing_info b' = Some \<lparr>mi_tokens = [1, 9, 9, 2], mi_blocks = [None, None], mi_prompt_len = 4\<rparr>)
   \<and> (\<exists>e. release_gather_with_image_tokens sample_release_env sample_deployment
        (sample_media_request\<lparr>bq_parts := Some [[sample_part\<lparr>mp_uuid := Some ''v''\<rparr>]]\<rparr>) None [1, 7, 2] sample_built =
        Inl (Invalid_Argument e))"
proof (intro conjI)
  let ?release = "release_gather_with_image_tokens sample_release_env sample_deployment sample_media_request None [1, 7, 2] sample_built"
  have loader: "dp_media_loader sample_deployment" "bt_uuids sample_built = None" "list_all uuids_on_images (concat [[sample_part]])"
    "videos_apart False (concat [[sample_part]])" "dp_reasoning_parser sample_deployment \<noteq> Some ''deepseek_v41''"
    by (simp_all add: sample_deployment_def sample_built_def uuids_on_images_def sample_part_def)
  obtain b1 n1 where fixed: "gather_multi_modal_data_with_image_tokens sample_media_env sample_deployment sample_media_request None
      [1, 7, 2] sample_built = Inr (b1, [sample_video], n1)"
    "bt_routing_info b1 = Some \<lparr>mi_tokens = [1, 9, 9, 2], mi_blocks = [None, None], mi_prompt_len = 4\<rparr>"
    using sample_gathers by blast
  have "map_sum id (map_prod id (map_prod (map entry_of_release) id)) ?release =
      Inr (b1\<lparr>bt_uuids := map_option image_uuids (bt_uuids b1)\<rparr>, [sample_video], n1)"
    using media_gathering_extends_release [where ctx = "su_context sample_routing_setup" and len = "\<lambda>_ _. None"
        and E = sample_release_env and D = sample_deployment and prompt = None and toks = "[1, 7, 2]",
        OF sample_ordered(1) loader(2)] loader fixed(1)
    by (simp add: sample_env_of_release)
  then obtain b2 es where release: "?release = Inr (b2, es, n1)" "map entry_of_release es = [sample_video]"
    "bt_routing_info b2 = bt_routing_info b1"
    by (auto elim!: map_sum_eq_InrE)
  have "es = [Rel_Video 5 7 [7] [7, 7]]"
    using release(2) by (auto simp: sample_video_def entry_of_release_def split: release_entry.splits)
  with release fixed(2) show "\<exists>b' n. ?release = Inr (b', [Rel_Video 5 7 [7] [7, 7]], n)
     \<and> bt_routing_info b' = Some \<lparr>mi_tokens = [1, 9, 9, 2], mi_blocks = [None, None], mi_prompt_len = 4\<rparr>"
    by auto
next
  have "\<not> list_all uuids_on_images (concat [[sample_part\<lparr>mp_uuid := Some ''v''\<rparr>]])" "bt_uuids sample_built = None"
    by (simp_all add: uuids_on_images_def sample_part_def sample_built_def)
  then show "\<exists>e. release_gather_with_image_tokens sample_release_env sample_deployment
        (sample_media_request\<lparr>bq_parts := Some [[sample_part\<lparr>mp_uuid := Some ''v''\<rparr>]]\<rparr>) None [1, 7, 2] sample_built =
        Inl (Invalid_Argument e)"
    using media_gathering_extends_release [where r = "sample_media_request\<lparr>bq_parts := Some [[sample_part\<lparr>mp_uuid := Some ''v''\<rparr>]]\<rparr>"
        and msgs = "[[sample_part\<lparr>mp_uuid := Some ''v''\<rparr>]]" and b = sample_built] by simp
qed

end
