(* ===== verification/Release_Requests.thy ===== *)
theory Release_Requests
  imports Preprocess Release_Media
begin

text \<open>
  The whole preprocessing of a request in the released version
  (\<open>preprocess_request_with_options\<close> of \<open>current-code/sources/release/preprocessor.rs\<close>), over the
  released tables and the released gathering of media, and that the fix prepares the same request for
  the worker wherever the released version supports what the request asks for.
\<close>

section \<open>The released builder\<close>

definition release_build_stop_tokens ::
  "(string \<Rightarrow> string list option) \<Rightarrow> (string \<Rightarrow> string + token_id list) \<Rightarrow> string option \<Rightarrow>
     json option \<Rightarrow> json option \<Rightarrow> token_id list \<Rightarrow> stop_conditions \<Rightarrow> string + stop_conditions" where
  "release_build_stop_tokens end_tokens encode tool_parser tools choice eos sc =
     (let hidden = (case sc_hidden sc of Some ts \<Rightarrow> push_missing eos ts | None \<Rightarrow> eos) in
      case release_remove_end_tokens end_tokens encode tool_parser tools choice hidden of
        Inl e \<Rightarrow> Inl e
      | Inr (hidden', moved) \<Rightarrow>
          Inr (sc\<lparr>sc_hidden := Some hidden',
                  sc_visible := if moved = [] then sc_visible sc
                                else Some (push_missing moved (unwrap_or [] (sc_visible sc)))\<rparr>))"

definition release_resolve_skip_special_tokens ::
  "bool option \<Rightarrow> string option \<Rightarrow> string option \<Rightarrow> bool option \<times> bool" where
  "release_resolve_skip_special_tokens skip tool_parser reasoning_parser =
     (if skip = None \<and> release_parser_requires_special_tokens tool_parser reasoning_parser then (Some False, False)
      else if release_special_tokens_will_be_stripped skip tool_parser reasoning_parser then (skip, True)
      else (skip, False))"

definition release_request_stops :: "build_lib \<Rightarrow> deployment \<Rightarrow> build_request \<Rightarrow> request_error + stop_conditions" where
  "release_request_stops L D r =
     (case bq_stop r of
        Inl e \<Rightarrow> Inl e
      | Inr sc \<Rightarrow>
          map_sum Internal_Error (bl_apply_ignore_eos L)
            (release_build_stop_tokens (bl_end_tokens L) (bl_encode L) (dp_tool_parser D) (bq_tools r)
               (choice_value (bq_think r)) (dp_eos D) sc))"

definition release_builder_with_lora ::
  "build_lib \<Rightarrow> deployment \<Rightarrow> build_request \<Rightarrow> string option \<Rightarrow> request_error + built_request" where
  "release_builder_with_lora L D r lora_override =
     (case release_request_stops L D r of
        Inl e \<Rightarrow> Inl e
      | Inr sc \<Rightarrow>
          (case bq_sampling r of
             Inl e \<Rightarrow> Inl e
           | Inr sampling \<Rightarrow>
               (case bq_skip_special r of
                  Inl e \<Rightarrow> Inl e
                | Inr skip \<Rightarrow>
                    Inr \<lparr>bt_model = bq_model r, bt_stop = sc, bt_max_tokens = bq_max_tokens r,
                      bt_eos = (if unwrap_or False (sc_ignore_eos sc) then None else Some (dp_eos D)),
                      bt_sampling = sampling,
                      bt_skip_special =
                        fst (release_resolve_skip_special_tokens skip (dp_tool_parser D) (dp_reasoning_parser D)),
                      bt_annotations = unwrap_or [] (bq_annotations r), bt_mdc_sum = Some (dp_mdcsum D),
                      bt_timestamp = Option.bind (bq_nvext r) nx_request_timestamp,
                      bt_routing = request_routing L D r lora_override,
                      bt_extra_args = backend_extra_args r (is_some (dp_reasoning_parser D)) None,
                      bt_require_reasoning =
                        release_guided_output_requires_reasoning (bl_thinking L) (dp_reasoning_parser D) (bq_think r),
                      bt_mm_kwargs = bq_mm_kwargs r,
                      bt_media_io = (if dp_media_loader D then None else bq_media_io r),
                      bt_tokens = [], bt_prompt_embeds = None, bt_router = None, bt_media = None, bt_uuids = None,
                      bt_routing_info = None\<rparr>)))"

section \<open>The released preprocessing\<close>

definition release_attach_reasoning_ended ::
  "deployment \<Rightarrow> string option \<Rightarrow> built_request \<Rightarrow> request_error + built_request" where
  "release_attach_reasoning_ended D prompt b =
     (case release_prompt_injected_reasoning_ended_arg (dp_reasoning_parser D) prompt of
        None \<Rightarrow> Inr b
      | Some ended \<Rightarrow>
          (case unwrap_or (JObject []) (bt_extra_args b) of
             JObject kvs \<Rightarrow> Inr (b\<lparr>bt_extra_args := Some (JObject (om_insert ''reasoning_ended'' (JBool ended) kvs))\<rparr>)
           | _ \<Rightarrow> Inl (Internal_Error ''preprocessed extra_args must be an object'')))"

definition release_preprocess_request_with_options ::
  "build_lib \<Rightarrow> release_media_env \<Rightarrow> deployment \<Rightarrow> build_request \<Rightarrow> bool \<Rightarrow> bool \<Rightarrow> string option \<Rightarrow>
     request_error + preprocessed" where
  "release_preprocess_request_with_options L E D r tracked preserve lora =
     (case release_builder_with_lora L D r lora of
        Inl e \<Rightarrow> Inl e
      | Inr b \<Rightarrow>
          (case apply_template L D r of
             Inl e \<Rightarrow> Inl e
           | Inr formatted \<Rightarrow>
               let prompt = map_option rp_text formatted in
               (case gather_tokens L r formatted of
                  Inl e \<Rightarrow> Inl e
                | Inr (toks, annotations) \<Rightarrow>
                    (case release_gather_with_image_tokens E D r prompt toks b of
                       Inl e \<Rightarrow> Inl e
                     | Inr (b1, _, image_tokens) \<Rightarrow>
                         let b2 = b1\<lparr>bt_tokens := toks,
                               bt_router := (case Option.bind (bq_nvext r) nx_router of
                                  Some p \<Rightarrow> Some p | None \<Rightarrow> bt_router b1)\<rparr> in
                         (case release_attach_reasoning_ended D prompt b2 of
                            Inl e \<Rightarrow> Inl e
                          | Inr b3 \<Rightarrow>
                              map_sum id (\<lambda>b4.
                                  \<lparr>pp_request = b4, pp_annotations = annotations,
                                   pp_prompt_injected = prompt_injected_reasoning_start (dp_reasoning_parser D) prompt,
                                   pp_image_tokens = image_tokens,
                                   pp_captured = capture_prompt_token_ids r tracked toks\<rparr>)
                                (settle_built preserve (dp_budget D) b3))))))"

definition release_preprocess_request ::
  "build_lib \<Rightarrow> release_media_env \<Rightarrow> deployment \<Rightarrow> build_request \<Rightarrow> bool \<Rightarrow>
     request_error + built_request \<times> annotation_map \<times> bool" where
  "release_preprocess_request L E D r tracked =
     map_sum id (\<lambda>out. (pp_request out, pp_annotations out, pp_prompt_injected out))
       (release_preprocess_request_with_options L E D r tracked False None)"

section \<open>What the released version supports\<close>

text \<open>
  Parsers it knows, tools in the request, cache identities on images, no adjacent videos, and no inline
  data in the messages unless the frontend decodes.
\<close>

definition release_supports :: "deployment \<Rightarrow> build_request \<Rightarrow> bool" where
  "release_supports D r =
     (dp_reasoning_parser D \<noteq> Some ''deepseek_v41'' \<and> dp_tool_parser D \<noteq> Some ''deepseek_v41''
      \<and> \<not> is_some_and (list_ex (is_some_and (\<lambda>n. n \<noteq> 0))) (bq_system_tools r)
      \<and> (case bq_parts r of
           None \<Rightarrow> True
         | Some msgs \<Rightarrow> list_all uuids_on_images (concat msgs) \<and> videos_apart False (concat msgs)
             \<and> (dp_media_loader D \<or> strip_inline_data_urls (bq_messages r) = bq_messages r)))"

text \<open>The request without the absent cache identities of media that are not images.\<close>

definition image_identities :: "built_request \<Rightarrow> built_request" where
  "image_identities b = b\<lparr>bt_uuids := map_option image_uuids (bt_uuids b)\<rparr>"

section \<open>Lemmas\<close>

lemma builder_versions_agree:
  assumes "release_supports D r"
  shows "builder_with_lora L D r lora = release_builder_with_lora L D r lora"
proof -
  have p: "dp_reasoning_parser D \<noteq> Some ''deepseek_v41''" "dp_tool_parser D \<noteq> Some ''deepseek_v41''"
    and tools: "\<not> is_some_and (list_ex (is_some_and (\<lambda>n. n \<noteq> 0))) (bq_system_tools r)"
    using assms by (simp_all add: release_supports_def)
  have "build_stop_tokens e enc t (request_has_effective_tools (bq_tools r) (bq_system_tools r)) c eos sc =
      release_build_stop_tokens e enc t (bq_tools r) c eos sc" for e enc t c eos sc
    by (simp add: build_stop_tokens_def release_build_stop_tokens_def end_tokens_versions_agree [OF tools])
  then have "request_stops L D r = release_request_stops L D r"
    by (simp add: request_stops_def release_request_stops_def split: sum.split)
  moreover have "resolve_skip_special_tokens skip (dp_tool_parser D) (dp_reasoning_parser D) =
      release_resolve_skip_special_tokens skip (dp_tool_parser D) (dp_reasoning_parser D)" for skip
    by (simp add: resolve_skip_special_tokens_def release_resolve_skip_special_tokens_def special_tokens_versions_agree [OF p])
  ultimately show ?thesis
    by (simp add: builder_with_lora_def release_builder_with_lora_def tables_versions_agree [OF p(1)] split: sum.split)
qed

lemma builder_no_uuids: "release_builder_with_lora L D r lora = Inr b \<Longrightarrow> bt_uuids b = None"
  by (auto simp: release_builder_with_lora_def split: sum.splits)

lemma gather_versions_agree:
  assumes "release_supports D r" "bt_uuids b = None"
  shows "map_sum id (map_prod image_identities id)
           (gather_multi_modal_data_with_image_tokens (env_of_release ctx len E) D r prompt toks b) =
         map_sum id (map_prod id (map_prod (map entry_of_release) id))
           (release_gather_with_image_tokens E D r prompt toks b)"
proof (cases "bq_parts r")
  case None
  with assms(2) show ?thesis
    by (simp add: gather_multi_modal_data_with_image_tokens_def release_gather_with_image_tokens_def image_identities_def)
next
  case (Some msgs)
  have "image_identities = (\<lambda>b'. b'\<lparr>bt_uuids := map_option image_uuids (bt_uuids b')\<rparr>)"
    by (rule ext) (simp add: image_identities_def)
  with assms Some gather_embedded [OF Some assms(2)] show ?thesis by (simp add: release_supports_def)
qed

lemma attach_versions_agree:
  assumes "release_supports D r"
  shows "map_sum id image_identities (attach_reasoning_ended D prompt b) =
     release_attach_reasoning_ended D prompt (image_identities b)"
proof -
  have p: "dp_reasoning_parser D \<noteq> Some ''deepseek_v41''" using assms by (simp add: release_supports_def)
  show ?thesis
    by (auto simp: attach_reasoning_ended_def release_attach_reasoning_ended_def tables_versions_agree [OF p]
        image_identities_def split: option.split json.split)
qed

lemma settle_versions_agree_identities:
  "map_sum id image_identities (settle_built preserve budget b) = settle_built preserve budget (image_identities b)"
proof -
  have "budget_view (image_identities b) = budget_view b" by (simp add: budget_view_def image_identities_def)
  then show ?thesis
    by (cases "settle_max_tokens preserve budget (budget_view b)") (simp_all add: settle_built_def image_identities_def)
qed

text \<open>Everything after the media: tokens, router, the reasoning signal and the budget.\<close>

lemma finish_versions_agree:
  assumes "release_supports D r"
  shows "map_sum id (\<lambda>out. out\<lparr>pp_request := image_identities (pp_request out)\<rparr>)
      (case attach_reasoning_ended D prompt (b\<lparr>bt_tokens := toks, bt_router := router\<rparr>) of
         Inl e \<Rightarrow> Inl e
       | Inr b3 \<Rightarrow> map_sum id (\<lambda>b4. \<lparr>pp_request = b4, pp_annotations = ann, pp_prompt_injected = injected,
                      pp_image_tokens = n, pp_captured = cap\<rparr>) (settle_built preserve budget b3)) =
    (case release_attach_reasoning_ended D prompt ((image_identities b)\<lparr>bt_tokens := toks, bt_router := router\<rparr>) of
         Inl e \<Rightarrow> Inl e
       | Inr b3 \<Rightarrow> map_sum id (\<lambda>b4. \<lparr>pp_request = b4, pp_annotations = ann, pp_prompt_injected = injected,
                      pp_image_tokens = n, pp_captured = cap\<rparr>) (settle_built preserve budget b3))"
proof -
  let ?b = "b\<lparr>bt_tokens := toks, bt_router := router\<rparr>"
  have comm: "(image_identities b)\<lparr>bt_tokens := toks, bt_router := router\<rparr> = image_identities ?b"
    by (simp add: image_identities_def)
  show ?thesis
  proof (cases "attach_reasoning_ended D prompt ?b")
    case (Inl e)
    with attach_versions_agree [OF assms, of prompt ?b]
    have "release_attach_reasoning_ended D prompt (image_identities ?b) = Inl e" by simp
    with Inl show ?thesis unfolding comm by simp
  next
    case (Inr b3)
    with attach_versions_agree [OF assms, of prompt ?b]
    have "release_attach_reasoning_ended D prompt (image_identities ?b) = Inr (image_identities b3)" by simp
    with Inr show ?thesis
      unfolding comm settle_versions_agree_identities [symmetric]
      by (cases "settle_built preserve budget b3") (simp_all flip: settle_versions_agree_identities)
  qed
qed

lemma preprocess_versions_agree:
  assumes "release_supports D r"
  shows "map_sum id (\<lambda>out. out\<lparr>pp_request := image_identities (pp_request out)\<rparr>)
           (preprocess_request_with_options L (env_of_release ctx len E) D r tracked preserve lora) =
         release_preprocess_request_with_options L E D r tracked preserve lora"
proof -
  note defs = preprocess_request_with_options_def release_preprocess_request_with_options_def Let_def
    builder_versions_agree [OF assms]
  show ?thesis
  proof (cases "release_builder_with_lora L D r lora")
    case (Inl e)
    then show ?thesis by (simp add: defs)
  next
    case b: (Inr b)
    show ?thesis
    proof (cases "apply_template L D r")
      case (Inl e)
      with b show ?thesis by (simp add: defs)
    next
      case t: (Inr formatted)
      show ?thesis
      proof (cases "gather_tokens L r formatted")
        case (Inl e)
        with b t show ?thesis by (simp add: defs)
      next
        case g: (Inr ta)
        obtain toks ann where ta: "ta = (toks, ann)" by (cases ta)
        let ?release = "release_gather_with_image_tokens E D r (map_option rp_text formatted) toks b"
        let ?fix = "gather_multi_modal_data_with_image_tokens (env_of_release ctx len E) D r (map_option rp_text formatted) toks b"
        have same: "map_sum id (map_prod image_identities id) ?fix = map_sum id (map_prod id (map_prod (map entry_of_release) id)) ?release"
          by (rule gather_versions_agree [OF assms builder_no_uuids [OF b]])
        show ?thesis
        proof (cases ?fix)
          case (Inl e)
          with same have "?release = Inl e" by (cases ?release) simp_all
          with Inl b t g ta show ?thesis by (simp add: defs)
        next
          case (Inr x)
          obtain b1 es n where x: "x = (b1, es, n)" by (cases x)
          from same Inr x obtain es' where rel: "?release = Inr (image_identities b1, es', n)"
            by (cases ?release) (auto simp: map_prod_def split: prod.splits)
          have router: "bt_router (image_identities b1) = bt_router b1" by (simp add: image_identities_def)
          show ?thesis
            unfolding defs b t g ta Inr x rel sum.case prod.case router by (rule finish_versions_agree [OF assms])
        qed
      qed
    qed
  qed
qed

section \<open>The fix extends the released version\<close>



end
