(* ===== verification/Release_Generate.thy ===== *)
theory Release_Generate
  imports Versions Release_Requests
begin

text \<open>
  The operators of the released version (\<open>generate\<close> for chat and for completions in
  \<open>current-code/sources/release/preprocessor.rs\<close>), over its own preprocessing, tables, route and jail
  adapter.  The stages of the response that this version shares with the fix line by line are those of
  the other theories; \<open>Versions\<close> compares the fix with main.
\<close>

section \<open>Requests\<close>

text \<open>
  \<open>lq_tools\<close>: the definitions of the tools of the request, as the parsers get them.  Tools in system
  messages are not read.
\<close>

record release_chat_request =
  lq_request :: build_request
  lq_stream :: "bool option"
  lq_n :: "u8 option"
  lq_parsing_enabled :: bool
  lq_tools :: "json list option"

definition release_attach_agent_context :: "chat_context \<Rightarrow> built_request \<Rightarrow> engine_request" where
  "release_attach_agent_context cx b =
     \<lparr>er_request = b, er_agent_context = cx_agent_context cx, er_image_cache_scope = None\<rparr>"

section \<open>The response side\<close>

definition release_plan_reasoning ::
  "('j, 'p) postprocessor \<Rightarrow> think_request \<Rightarrow> bool \<Rightarrow> bool \<Rightarrow> reasoning_plan" where
  "release_plan_reasoning pp r structural_tag prompt_injected =
     (let p = pp_reasoning_parser pp;
          guided_tool = (case tr_tool_choice r of Some TC_Required \<Rightarrow> True | Some (TC_Named _) \<Rightarrow> True | _ \<Rightarrow> False);
          structured = has_structured_response_format (tr_response_format r);
          guided = guided_tool \<or> structured;
          inspect_force = guided \<and> \<not> structural_tag \<and> supports_reasoning_before_guided_json p;
          inspect_injected = guided \<and> prompt_injected \<and> \<not> structural_tag \<and>
            (release_skips_guided_json_when_prompt_injected p \<or>
             structured \<and> release_skips_structured_response_when_prompt_injected p);
          inspect_unsupported = structured \<and> \<not> structural_tag \<and> \<not> structured_response_supports_sglang_reasoning_gate p;
          bypass = inspect_force \<or> inspect_injected \<or> inspect_unsupported;
          skip = guided \<and> \<not> structural_tag \<and> is_force_reasoning_parser p \<and> \<not> inspect_force;
          disabled = release_is_reasoning_disabled_by_request (pp_lib pp) p (tr_args r);
          parse = is_some p \<and> \<not> disabled \<and> \<not> skip in
      \<lparr>rp_parse = parse, rp_bypass = bypass,
       rp_start_token = if parse \<and> bypass then guided_json_reasoning_start_token p else None,
       rp_strip_disabled = disabled \<and> is_nemotron_force_reasoning p \<and> \<not> skip\<rparr>)"

definition release_parsing_stream_with_constraint ::
  "('j, 'p) postprocessor \<Rightarrow> release_chat_request \<Rightarrow> think_request \<Rightarrow> bool \<Rightarrow> bool \<Rightarrow> bool \<Rightarrow> tool_route \<Rightarrow> frame list \<Rightarrow> frame list" where
  "release_parsing_stream_with_constraint pp lq r structural_tag guided_json prompt_injected route frs =
     (let defer_reasoning = wants_reasoning_as_content_when_empty (tr_args r);
          guided_streaming = guided_tool_streaming_release guided_json (pp_rollback pp);
          tools = lq_tools lq;
          enabled = lq_parsing_enabled lq;
          staged = reasoning_stages pp (release_plan_reasoning pp r structural_tag prompt_injected) prompt_injected defer_reasoning frs in
      case route of
        MuseUnified family \<Rightarrow>
          apply_unified_response_policies pp enabled defer_reasoning (pp_muse pp tools family frs)
      | Unified family \<Rightarrow>
          apply_unified_response_policies pp enabled defer_reasoning
            (pp_unified pp tools prompt_injected guided_streaming family frs)
      | ParserV2 name \<Rightarrow> apply_tool_call_response_policy enabled (pp_v2 pp tools name staged)
      | LegacyJail parser \<Rightarrow>
          apply_tool_call_response_policy enabled
            (release_apply_tool_calling_jail (pp_jail pp parser (tr_tool_choice r) tools structural_tag guided_streaming)
               (pp_scrub pp) parser staged)
      | PassThrough \<Rightarrow> apply_tool_call_response_policy enabled staged)"

section \<open>The operators\<close>

text \<open>As in \<open>Chat_Generate\<close>, except that the media are gathered in the environment of this version.\<close>

definition release_chat_generate ::
  "('g, 'j, 'p) chat_env \<Rightarrow> release_media_env \<Rightarrow> chat_context \<Rightarrow> release_chat_request \<Rightarrow>
     request_error + frame list \<times> string option" where
  "release_chat_generate env E cx lq =
     (let D = ce_deployment env;
          payload = ce_payload env (lq_request lq);
          r = normalized_request env (lq_request lq);
          g = ce_generator env r (unwrap_or False (lq_stream lq)) in
      case release_preprocess_request_with_options (ce_lib env) E D r True (cx_preserve_omitted cx) (cx_lora cx) of
        Inl e \<Rightarrow> Inl e
      | Inr out \<Rightarrow>
          (case ce_guided env r (pp_request out) (pp_prompt_injected out) of
             Inl e \<Rightarrow> Inl e
           | Inr (b, structural_tag, guided_json) \<Rightarrow>
               let route = release_tool_processing_route (pp_registry (ce_post env)) (dp_tool_parser D) (dp_reasoning_parser D)
                     (tr_tool_choice (bq_think r)) structural_tag (lq_parsing_enabled lq) (map_option length (lq_tools lq)) in
               (case validate_legacy_jail_nvext_choice_count (unwrap_or 1 (lq_n lq))
                       (Option.bind (bq_nvext r) nx_extra_fields) (uses_legacy_jail route) of
                  Inl e \<Rightarrow> Inl (Invalid_Argument e)
                | Inr _ \<Rightarrow>
                    let g1 = (case pp_captured out of Some ts \<Rightarrow> ce_capture env ts g | None \<Rightarrow> g);
                        g2 = (if bt_prompt_embeds b = None then ce_update_isl env (of_nat (length (bt_tokens b))) g1 else g1);
                        cfg = \<lparr>dc_emit_payload = is_some payload, dc_counts = multimodal_counts_of b,
                               dc_image_tokens = pp_image_tokens out\<rparr>;
                        notes = concat (map (\<lambda>(k, v). ce_annotation env k v) (pp_annotations out)) in
                    map_sum id (\<lambda>items.
                        let fs = release_parsing_stream_with_constraint (ce_post env) lq (bq_think r) structural_tag guided_json
                              (pp_prompt_injected out) route
                              (transform_postprocessor_stream_with_image_tokens (ce_delta env) cfg g2 items);
                            fs1 = normalize_chat_stream_roles fs;
                            fs2 = (case payload of Some aggregate \<Rightarrow> aggregate fs1 | None \<Rightarrow> fs1);
                            (fs', warm) = stock_wrap_stream
                              \<lparr>wo_nvext = map_option (\<lambda>nx. map_option ah_speculative_prefill (nx_agent_hints nx)) (bq_nvext r),
                               wo_n = lq_n lq, wo_continue_final = bq_continue_final r\<rparr> fs2 in
                        (notes @ fs', warm))
                      (ce_engine env (release_attach_agent_context cx b)))))"

definition release_completion_request ::
  "build_lib \<Rightarrow> release_media_env \<Rightarrow> deployment \<Rightarrow> build_request \<Rightarrow> string option \<Rightarrow> string option \<Rightarrow>
     request_error + built_request \<times> annotation_map" where
  "release_completion_request L E D r prompt_embeds lora =
     (case release_builder_with_lora L D r lora of
        Inl e \<Rightarrow> Inl e
      | Inr b \<Rightarrow>
          (case (case prompt_embeds of
                   Some em \<Rightarrow> Inr (b\<lparr>bt_tokens := [], bt_prompt_embeds := Some em\<rparr>, [])
                 | None \<Rightarrow> map_sum id (\<lambda>(toks, notes). (b\<lparr>bt_tokens := toks\<rparr>, notes)) (gather_tokens L r None)) of
             Inl e \<Rightarrow> Inl e
           | Inr (b1, notes) \<Rightarrow>
               (case release_gather_with_image_tokens E D r None [] b1 of
                  Inl e \<Rightarrow> Inl e
                | Inr (b2, _, _) \<Rightarrow>
                    map_sum Over_Budget (\<lambda>_. (b2, notes))
                      (validate_preprocessed_token_budget (budget_view b2) (dp_budget D)))))"

definition release_completion_generate ::
  "('g, 'j, 'p) chat_env \<Rightarrow> release_media_env \<Rightarrow> ('g, 'r) delta_kit \<Rightarrow> (string \<Rightarrow> string \<Rightarrow> 'r annotated list) \<Rightarrow>
     chat_context \<Rightarrow> build_request \<Rightarrow> bool \<Rightarrow> string option \<Rightarrow> request_error + 'r annotated list" where
  "release_completion_generate env E K annotation cx r streaming prompt_embeds =
     (let g = ce_generator env r streaming in
      case release_completion_request (ce_lib env) E (ce_deployment env) r prompt_embeds (cx_lora cx) of
        Inl e \<Rightarrow> Inl e
      | Inr (b, notes) \<Rightarrow>
          let g1 = (if prompt_embeds = None
                    then (case capture_prompt_token_ids r True (bt_tokens b) of Some ts \<Rightarrow> ce_capture env ts g | None \<Rightarrow> g)
                    else g);
              g2 = (if bt_prompt_embeds b = None then ce_update_isl env (of_nat (length (bt_tokens b))) g1 else g1);
              cfg = \<lparr>dc_emit_payload = False, dc_counts = \<lparr>mc_image = 0, mc_video = 0, mc_audio = 0\<rparr>, dc_image_tokens = None\<rparr> in
          map_sum id (\<lambda>items. concat (map (\<lambda>(k, v). annotation k v) notes)
              @ transform_postprocessor_stream_with_image_tokens K cfg g2 items)
            (ce_engine env (release_attach_agent_context cx b)))"

section \<open>The same request to the fix\<close>

definition chat_of_release :: "release_chat_request \<Rightarrow> chat_request" where
  "chat_of_release lq =
     \<lparr>cq_request = lq_request lq, cq_stream = lq_stream lq, cq_n = lq_n lq, cq_parsing_enabled = lq_parsing_enabled lq,
      cq_has_tools = is_some_and (\<lambda>ts. ts \<noteq> []) (lq_tools lq), cq_tool_definitions = Inr (unwrap_or [] (lq_tools lq))\<rparr>"

definition no_identities :: "build_request \<Rightarrow> bool" where
  "no_identities r = is_none_or (\<lambda>msgs. list_all (\<lambda>p. mp_uuid p = None) (concat msgs)) (bq_parts r)"

text \<open>
  What the two operators have to have in common: a request the released version supports, without
  cache identities, an explicit list of tools that is not empty, no session, a deployment whose
  parsers are those of the response side, and not the parser whose truncated calls only the released
  version recovers.
\<close>

definition plain_for_release :: "('g, 'j, 'p) chat_env \<Rightarrow> chat_context \<Rightarrow> release_chat_request \<Rightarrow> bool" where
  "plain_for_release env cx lq =
     (release_supports (ce_deployment env) (normalized_request env (lq_request lq)) \<and> no_identities (lq_request lq)
      \<and> lq_tools lq \<noteq> Some [] \<and> cx_session_affinity cx = None
      \<and> pp_reasoning_parser (ce_post env) = dp_reasoning_parser (ce_deployment env)
      \<and> effective_tool_call_parser (dp_tool_parser (ce_deployment env)) (dp_reasoning_parser (ce_deployment env)) \<noteq> Some ''glm47'')"

section \<open>Lemmas\<close>

lemma plain_media_no_uuids:
  assumes "gather_multi_modal_data_with_image_tokens (env_of_release ctx len E) D r prompt toks b = Inr (b1, es, n)"
    and "no_identities r" "bt_uuids b = None"
  shows "bt_uuids b1 = None"
proof (cases "bq_parts r")
  case None
  with assms show ?thesis by (simp add: gather_multi_modal_data_with_image_tokens_def)
next
  case (Some msgs)
  have "ordered_parts (me_message_order (env_of_release ctx len E) r) msgs = Inr (concat msgs)"
    by (simp add: ordered_parts_def)
  from gatherE [OF assms(1) Some this] obtain sc st tokens where
    sc: "scan_ok (env_of_release ctx len E) (dp_media_loader D) (concat msgs) sc"
    and b1: "install_media (env_of_release ctx len E) D r prompt toks sc st b = (b1, es, tokens)" .
  have "\<not> ms_has_uuid sc"
    using sc assms(2) Some by (auto simp: scan_ok_def no_identities_def list_ex_iff list_all_iff)
  with b1 assms(3) show ?thesis by (auto simp: install_media_def Let_def split: if_splits)
qed

lemma plain_preprocess_versions_agree:
  assumes "release_supports D r" "no_identities r"
  shows "preprocess_request_with_options L (env_of_release ctx len E) D r tracked preserve lora =
    release_preprocess_request_with_options L E D r tracked preserve lora"
proof (cases "preprocess_request_with_options L (env_of_release ctx len E) D r tracked preserve lora")
  case (Inl e)
  with preprocess_versions_agree [OF assms(1), of L ctx len E tracked preserve lora] show ?thesis by simp
next
  case (Inr out)
  have "bt_uuids (pp_request out) = None"
  proof (rule preprocessE [OF Inr])
    fix b b1 b3 :: built_request and formatted toks es n
    let ?b = "b1\<lparr>bt_tokens := toks, bt_router := (case Option.bind (bq_nvext r) nx_router of Some p \<Rightarrow> Some p | None \<Rightarrow> bt_router b1)\<rparr>"
    assume b: "builder_with_lora L D r lora = Inr b"
      and g: "gather_multi_modal_data_with_image_tokens (env_of_release ctx len E) D r (map_option rp_text formatted) toks b = Inr (b1, es, n)"
      and a: "attach_reasoning_ended D (map_option rp_text formatted) ?b = Inr b3"
      and s: "settle_built preserve (dp_budget D) b3 = Inr (pp_request out)"
    have "bt_uuids b = None" using b builder_no_uuids builder_versions_agree [OF assms(1)] by metis
    with plain_media_no_uuids [OF g assms(2)] have "bt_uuids b1 = None" by simp
    then have "bt_uuids b3 = None" using a by (auto simp: attach_reasoning_ended_def split: option.splits json.splits)
    then show ?thesis using s by (auto simp: settle_built_def elim!: map_sum_eq_InrE)
  qed
  then have "image_identities (pp_request out) = pp_request out" by (simp add: image_identities_def)
  with Inr preprocess_versions_agree [OF assms(1), of L ctx len E tracked preserve lora] show ?thesis by simp
qed

lemma plan_versions_agree:
  assumes "pp_reasoning_parser pp \<noteq> Some ''deepseek_v41''"
  shows "release_plan_reasoning pp (pq_think q) (pq_structural_tag q) injected = plan_reasoning pp q injected"
  unfolding release_plan_reasoning_def plan_reasoning_def Let_def tables_versions_agree [OF assms] ..

lemma parsing_versions_agree:
  assumes "pp_reasoning_parser pp \<noteq> Some ''deepseek_v41''" "lq_tools lq \<noteq> Some []" "route \<noteq> LegacyJail (Some ''glm47'')"
  shows "postprocessor_parsing_stream_with_constraint pp (parse_request_of (chat_of_release lq) r tag json) injected route frs =
    Inr (release_parsing_stream_with_constraint pp lq (bq_think r) tag json injected route frs)"
proof -
  have tools: "(if unwrap_or [] (lq_tools lq) = [] then None else Some (unwrap_or [] (lq_tools lq))) = lq_tools lq"
    using assms(2) by (cases "lq_tools lq") auto
  have plan: "plan_reasoning pp (parse_request_of (chat_of_release lq) r tag json) injected =
      release_plan_reasoning pp (bq_think r) tag injected"
    using plan_versions_agree [OF assms(1), of "parse_request_of (chat_of_release lq) r tag json"] by (simp add: parse_request_of_def)
  have jail: "route = LegacyJail parser \<Longrightarrow> release_apply_tool_calling_jail K scrub parser fs = apply_tool_calling_jail K parser fs"
    for parser K scrub fs using assms(3) by (auto intro: jail_versions_agree)
  show ?thesis
    unfolding postprocessor_parsing_stream_with_constraint_def release_parsing_stream_with_constraint_def plan Let_def
    by (cases route) (simp_all add: parse_request_of_def chat_of_release_def tools jail)
qed

lemma route_jails_effective:
  "tool_processing_route G t p q = LegacyJail parser \<Longrightarrow> parser = effective_tool_call_parser t p"
  by (auto simp: tool_processing_route_def Let_def split: option.splits bool.splits if_splits)

lemma release_route_of_chat:
  "release_tool_processing_route G t p (tr_tool_choice (bq_think r)) tag (lq_parsing_enabled lq) (map_option length (lq_tools lq)) =
     tool_processing_route G t p (route_request_of (parse_request_of (chat_of_release lq) r tag json))"
proof -
  let ?q = "route_request_of (parse_request_of (chat_of_release lq) r tag json)"
  have "ro_has_tools ?q = is_some_and (\<lambda>n. n \<noteq> 0) (map_option length (lq_tools lq))"
    by (cases "lq_tools lq") (simp_all add: route_request_of_def parse_request_of_def chat_of_release_def)
  from route_versions_agree [OF this] show ?thesis
    by (simp add: route_request_of_def parse_request_of_def chat_of_release_def)
qed

lemma main_extends_release:
  assumes "plain_for_release env cx lq"
  shows "main_chat_generate (env\<lparr>ce_media := env_of_release ctx len E\<rparr>) cx (chat_of_release lq) = release_chat_generate env E cx lq"
proof -
  let ?env = "env\<lparr>ce_media := env_of_release ctx len E\<rparr>"
  let ?r = "normalized_request env (lq_request lq)"
  let ?D = "ce_deployment env"
  have norm: "normalized_request ?env q = normalized_request env q" for q by (simp add: normalized_request_def)
  have ok: "release_supports ?D ?r" "no_identities ?r" "lq_tools lq \<noteq> Some []" "cx_session_affinity cx = None"
    "pp_reasoning_parser (ce_post env) \<noteq> Some ''deepseek_v41''"
    "effective_tool_call_parser (dp_tool_parser ?D) (dp_reasoning_parser ?D) \<noteq> Some ''glm47''"
    using assms by (auto simp: plain_for_release_def release_supports_def no_identities_def normalized_keeps)
  have engine: "attach_request_context_metadata cx b = release_attach_agent_context cx b" for b
    by (simp add: attach_request_context_metadata_def release_attach_agent_context_def ok(4))
  let ?route = "\<lambda>tag. release_tool_processing_route (pp_registry (ce_post env)) (dp_tool_parser ?D) (dp_reasoning_parser ?D)
      (tr_tool_choice (bq_think ?r)) tag (lq_parsing_enabled lq) (map_option length (lq_tools lq))"
  note route = release_route_of_chat [where r = ?r and lq = lq, symmetric]
  have parse: "postprocessor_parsing_stream_with_constraint (ce_post env) (parse_request_of (chat_of_release lq) ?r tag json) injected
      (?route tag) frs =
    Inr (release_parsing_stream_with_constraint (ce_post env) lq (bq_think ?r) tag json injected (?route tag) frs)" for tag json injected frs
    by (rule parsing_versions_agree [OF ok(5,3)]) (use ok(6) route_jails_effective route in metis)
  have fields: "cq_request (chat_of_release lq) = lq_request lq" "cq_stream (chat_of_release lq) = lq_stream lq"
    "cq_n (chat_of_release lq) = lq_n lq" by (simp_all add: chat_of_release_def)
  show ?thesis
    unfolding main_chat_generate_def release_chat_generate_def norm fields
    by (simp add: Let_def plain_preprocess_versions_agree [OF ok(1,2)] route engine chat_stream_def parse warm_options_of_def fields
        sum.map_comp comp_def split: sum.split cong: option.case_cong)
qed

lemma fix_frames_of_main:
  "map_sum id fst (chat_generate P env cx cq) = map_sum id fst (main_chat_generate env cx cq)"
  by (cases "chat_response env cx cq") (simp_all add: chat_generate_response main_chat_generate_response split_beta)

text \<open>Completions: both versions prepare the same request.\<close>

lemma plain_gather_versions_agree:
  assumes "release_supports D r" "no_identities r" "bt_uuids b = None"
  shows "map_sum id fst (gather_multi_modal_data_with_image_tokens (env_of_release ctx len E) D r prompt toks b) =
    map_sum id fst (release_gather_with_image_tokens E D r prompt toks b)" (is "map_sum id fst ?fix = map_sum id fst ?release")
proof -
  note same = gather_versions_agree [OF assms(1,3), of ctx len E prompt toks]
  show ?thesis
  proof (cases ?fix)
    case (Inl e)
    with same show ?thesis by (cases ?release) simp_all
  next
    case (Inr x)
    obtain b1 es n where x: "x = (b1, es, n)" by (cases x)
    have "image_identities b1 = b1"
      using plain_media_no_uuids [OF Inr [unfolded x] assms(2,3)] by (simp add: image_identities_def)
    with same Inr x show ?thesis by (cases ?release) auto
  qed
qed

lemma case_first:
  "(case x of Inl e \<Rightarrow> Inl e | Inr (b, _, _) \<Rightarrow> f b) = (case map_sum id fst x of Inl e \<Rightarrow> Inl e | Inr b \<Rightarrow> f b)"
  by (cases x) (simp_all add: split_beta)

lemma completion_request_versions_agree:
  assumes "release_supports D r" "no_identities r"
  shows "completion_request L (env_of_release ctx len E) D r prompt_embeds lora =
    release_completion_request L E D r prompt_embeds lora"
proof (cases "release_builder_with_lora L D r lora")
  case (Inl e)
  then show ?thesis
    by (simp add: completion_request_def release_completion_request_def builder_versions_agree [OF assms(1)])
next
  case (Inr b)
  have none: "bt_uuids (b\<lparr>bt_tokens := toks, bt_prompt_embeds := em\<rparr>) = None" "bt_uuids (b\<lparr>bt_tokens := toks\<rparr>) = None" for toks em
    using builder_no_uuids [OF Inr] by simp_all
  note defs = completion_request_def release_completion_request_def builder_versions_agree [OF assms(1)] Inr case_first
    plain_gather_versions_agree [OF assms none(1)] plain_gather_versions_agree [OF assms none(2)]
  show ?thesis
  proof (cases prompt_embeds)
    case None
    then show ?thesis by (cases "gather_tokens L r None") (simp_all add: defs split_beta)
  next
    case (Some em)
    then show ?thesis by (simp add: defs)
  qed
qed

lemma completions_extend_release:
  assumes "release_supports (ce_deployment env) r" "no_identities r" "cx_session_affinity cx = None"
  shows "completion_generate (env\<lparr>ce_media := env_of_release ctx len E\<rparr>) K annotation cx r streaming prompt_embeds =
    release_completion_generate env E K annotation cx r streaming prompt_embeds"
proof -
  have "attach_request_context_metadata cx b = release_attach_agent_context cx b" for b
    by (simp add: attach_request_context_metadata_def release_attach_agent_context_def assms(3))
  then show ?thesis
    by (simp add: completion_generate_def release_completion_generate_def Let_def
        completion_request_versions_agree [OF assms(1,2)] cong: option.case_cong split: sum.split)
qed

section \<open>Clients of the released version\<close>


definition sample_release_chat :: release_chat_request where
  "sample_release_chat =
     \<lparr>lq_request = cq_request sample_chat_request, lq_stream = Some True, lq_n = None, lq_parsing_enabled = True, lq_tools = None\<rparr>"

definition sample_plain_env :: "(nat, nat, bool) chat_env" where
  "sample_plain_env = sample_chat_env\<lparr>ce_deployment := sample_deployment\<lparr>dp_reasoning_parser := None\<rparr>\<rparr>"

lemma sample_plain: "plain_for_release sample_plain_env sample_context sample_release_chat"
  by code_simp

lemma sample_plain_chat:
  "map_sum (\<lambda>_. ()) snd (chat_generate sample_message_protocol sample_plain_env sample_context (chat_of_release sample_release_chat)) =
     Inr (Some (sample_turn ! 1))"
  by code_simp

lemma sample_plain_media: "sample_plain_env\<lparr>ce_media := env_of_release (su_context sample_routing_setup) (\<lambda>_ _. None) sample_release_env\<rparr> = sample_plain_env"
  unfolding sample_env_of_release by (simp add: sample_plain_env_def sample_chat_env_def)


end
