(* ===== verification/Release_Construction.thy ===== *)
theory Release_Construction
  imports Construction Release_Generate
begin

text \<open>
  The constructors of the released version (\<open>new\<close>, \<open>new_for_embeddings\<close>, \<open>new_with_parts\<close> and
  \<open>new_with_parts_inner\<close> in \<open>current-code/sources/release/preprocessor.rs\<close>), in a build with
  multimodal routing and video decoding: one counter for every runtime, one video contract, no check of
  the artifacts.  For a card without the contract only the fix knows, both versions build the same
  preprocessor, or both fail with the same error.
\<close>

section \<open>What the release constructs\<close>

record release_routing_tokens =
  lt_kind :: "release_kind option"
  lt_exact_image_token :: "bool \<Rightarrow> token_id option"
  lt_bos :: "string option"

type_synonym release_counter = "u32 \<Rightarrow> u32 \<Rightarrow> nat"

type_synonym release_video_processor = "nat \<times> nat \<times> nat \<Rightarrow> rat \<times> rat list \<Rightarrow> string + release_video_routing"

text \<open>The constructors outside the repository; the first nine fields are those of \<open>construct_lib\<close>.\<close>

record ('f, 'q) release_construct_lib =
  lc_formatter :: "string + 'f"
  lc_no_op_formatter :: 'f
  lc_tokenizer :: "string + routing_kit"
  lc_read_json :: "string \<Rightarrow> string + json"
  lc_model_info :: "hf_config \<Rightarrow> string + model_info"
  lc_parent :: "string \<Rightarrow> string option"
  lc_media_loader :: "string option"
  lc_add_special_default :: "unit + bool option"
  lc_dim_client :: "string option"
  lc_counter :: "string \<Rightarrow> string \<Rightarrow> string \<Rightarrow> string + release_counter"
  lc_routing_tokens :: "string \<Rightarrow> string \<Rightarrow> release_counter option \<Rightarrow> release_routing_tokens"
  lc_video :: "string \<Rightarrow> string \<Rightarrow> string \<Rightarrow> 'q \<Rightarrow> string + release_video_processor option"

record 'f release_preprocessor =
  lp_formatter :: 'f
  lp_kit :: routing_kit
  lp_embedding :: "tokenizer_state option"
  lp_deployment :: deployment
  lp_setup :: release_setup
  lp_context_length :: u32
  lp_dimension_policy :: dimension_policy
  lp_video :: "release_video_processor option"

text \<open>The library of the fix over the same constructors; it serves the functions both versions share.\<close>

definition tokens_of_release :: "release_routing_tokens \<Rightarrow> routing_tokens" where
  "tokens_of_release t =
     \<lparr>rt_kind = map_option kind_of_release (lt_kind t), rt_chat_placeholder = None,
      rt_exact_image_token = lt_exact_image_token t, rt_bos = lt_bos t\<rparr>"

definition processor_of_release :: "release_video_processor \<Rightarrow> video_processor" where
  "processor_of_release v = (\<lambda>dims meta. map_sum id video_of_release (v dims meta))"

definition lib_of_release :: "('f, 'q) release_construct_lib \<Rightarrow> ('f, 'q, 'n) construct_lib" where
  "lib_of_release L =
     \<lparr>cl_formatter = lc_formatter L, cl_no_op_formatter = lc_no_op_formatter L, cl_tokenizer = lc_tokenizer L,
      cl_read_json = lc_read_json L, cl_model_info = lc_model_info L, cl_parent = lc_parent L,
      cl_media_loader = lc_media_loader L,
      cl_counter = (\<lambda>model_id model_type dir _. map_sum id counter_of_release (lc_counter L model_id model_type dir)),
      cl_routing_tokens = (\<lambda>model_id dir c. tokens_of_release (lc_routing_tokens L model_id dir (map_option ic_count c))),
      cl_video = (\<lambda>model_id model_type dir qwen _. case qwen of
         None \<Rightarrow> Inr None
       | Some contract \<Rightarrow> map_sum id (map_option processor_of_release) (lc_video L model_id model_type dir contract)),
      cl_add_special_default = lc_add_special_default L, cl_dim_client = lc_dim_client L\<rparr>"

section \<open>The constructors\<close>

record release_image_routing =
  li_counter :: "release_counter option"
  li_token :: "token_id option"
  li_layout :: "release_layout option"
  li_bos :: "string option"

definition release_image_routing_of ::
  "('f, 'q) release_construct_lib \<Rightarrow> ('q, 'n) deployment_card \<Rightarrow> routing_kit \<Rightarrow> routing_inputs \<Rightarrow> release_image_routing" where
  "release_image_routing_of L mdc K inputs =
     (case inputs of
        None \<Rightarrow> \<lparr>li_counter = None, li_token = None, li_layout = None, li_bos = None\<rparr>
      | Some (model_id, model_type, dir) \<Rightarrow>
          let counter = sum_ok (lc_counter L model_id model_type dir) in
          if ca_fastokens mdc then \<lparr>li_counter = counter, li_token = None, li_layout = None, li_bos = None\<rparr>
          else
            let tokens = lc_routing_tokens L model_id dir counter;
                layout = Option.bind (lt_kind tokens) (\<lambda>kind. sum_ok (release_resolve_layout K kind));
                ready = (is_some counter \<and> is_some layout) in
            \<lparr>li_counter = counter, li_token = lt_exact_image_token tokens ready,
             li_layout = opt_filter (\<lambda>_. is_some counter) layout, li_bos = lt_bos tokens\<rparr>)"

definition release_resolve_video_routing ::
  "('f, 'q) release_construct_lib \<Rightarrow> ('q, 'n) deployment_card \<Rightarrow> routing_inputs \<Rightarrow> release_video_processor option" where
  "release_resolve_video_routing L mdc inputs =
     (let contract = Option.bind (sum_ok (ca_qwen_contract mdc)) id in
      if ca_fastokens mdc then None
      else case (inputs, contract) of
        (Some (model_id, model_type, dir), Some c) \<Rightarrow> Option.bind (sum_ok (lc_video L model_id model_type dir c)) id
      | _ \<Rightarrow> None)"

definition release_assembled ::
  "('f, 'q) release_construct_lib \<Rightarrow> ('q, 'n) deployment_card \<Rightarrow> 'f \<Rightarrow> routing_kit \<Rightarrow> tokenizer_state option \<Rightarrow>
     model_info \<Rightarrow> routing_inputs \<Rightarrow> 'f release_preprocessor" where
  "release_assembled L mdc formatter K embedding info inputs =
     (let im = release_image_routing_of L mdc K inputs in
      \<lparr>lp_formatter = formatter, lp_kit = K, lp_embedding = embedding,
       lp_deployment =
         \<lparr>dp_eos = io_eos info, dp_tool_parser = ca_tool_parser mdc, dp_reasoning_parser = ca_reasoning_parser mdc,
          dp_lora = ca_lora mdc, dp_mdcsum = ca_mdcsum mdc, dp_media_loader = ca_media_decoder mdc,
          dp_budget = Option.bind (sum_ok (ca_token_budget mdc)) id,
          dp_normalize_tool_call_args = normalizes_tool_call_args mdc\<rparr>,
       lp_setup =
         \<lparr>rs_counter = li_counter im, rs_image_token = li_token im, rs_layout = li_layout im,
          rs_block_size = unat (ca_block_size mdc), rs_bos = routing_prepend_bos K (li_bos im)\<rparr>,
       lp_context_length = ca_context_length mdc,
       lp_dimension_policy = release_dimension_policy (ca_generate_capability mdc) (ca_media_decoder mdc) (li_layout im),
       lp_video = release_resolve_video_routing L mdc inputs\<rparr>)"

definition release_new_with_parts_inner ::
  "('f, 'q) release_construct_lib \<Rightarrow> ('q, 'n) deployment_card \<Rightarrow> 'f \<Rightarrow> routing_kit \<Rightarrow> tokenizer_state option \<Rightarrow>
     string + 'f release_preprocessor" where
  "release_new_with_parts_inner L mdc formatter K embedding =
     (case ca_model_info mdc of
        None \<Rightarrow> Inl ''Blank ModelDeploymentCard cannot be used for pre-processing, no model_info''
      | Some config \<Rightarrow>
          (case lc_model_info L config of
             Inl e \<Rightarrow> Inl e
           | Inr info \<Rightarrow>
               let inputs = map_option (\<lambda>dir. (ca_source_path mdc, io_model_type info, dir)) (mdc_model_dir (lib_of_release L) mdc) in
               (case (if ca_media_decoder mdc then lc_media_loader L else None) of
                  Some e \<Rightarrow> Inl e
                | None \<Rightarrow>
                    let im = release_image_routing_of L mdc K inputs in
                    (case (if is_some (li_counter im) \<or> is_some (li_token im) then lc_dim_client L else None) of
                       Some e \<Rightarrow> Inl e
                     | None \<Rightarrow> Inr (release_assembled L mdc formatter K embedding info inputs)))))"

definition release_new_with_parts ::
  "('f, 'q) release_construct_lib \<Rightarrow> ('q, 'n) deployment_card \<Rightarrow> 'f \<Rightarrow> routing_kit \<Rightarrow> string + 'f release_preprocessor" where
  "release_new_with_parts L mdc formatter K = release_new_with_parts_inner L mdc formatter K None"

definition release_new :: "('f, 'q) release_construct_lib \<Rightarrow> ('q, 'n) deployment_card \<Rightarrow> string + 'f release_preprocessor" where
  "release_new L mdc =
     (case lc_formatter L of
        Inl e \<Rightarrow> Inl e
      | Inr formatter \<Rightarrow>
          (case lc_tokenizer L of
             Inl e \<Rightarrow> Inl e
           | Inr K \<Rightarrow> release_new_with_parts L mdc formatter K))"

definition release_new_for_embeddings ::
  "('f, 'q) release_construct_lib \<Rightarrow> ('q, 'n) deployment_card \<Rightarrow> string + 'f release_preprocessor" where
  "release_new_for_embeddings L mdc =
     (if \<not> ca_supports_embedding mdc then Inl ''embedding preprocessor requires an embedding-capable model''
      else case lc_tokenizer L of
        Inl e \<Rightarrow> Inl e
      | Inr K \<Rightarrow>
          (case embedding_prompt_formatter (lib_of_release L) mdc of
             Inl e \<Rightarrow> Inl e
           | Inr formatter \<Rightarrow>
               (case embedding_state_new (lib_of_release L :: ('f, 'q, 'n) construct_lib) of
                  Inl e \<Rightarrow> Inl e
                | Inr st \<Rightarrow> release_new_with_parts_inner L mdc formatter K (Some st))))"

section \<open>The same preprocessor in the fix\<close>

definition preprocessor_of_release :: "bool \<Rightarrow> 'k option \<Rightarrow> 'f release_preprocessor \<Rightarrow> ('f, 'k) preprocessor" where
  "preprocessor_of_release artifacts cancel p =
     \<lparr>pr_formatter = lp_formatter p, pr_kit = lp_kit p, pr_embedding = lp_embedding p, pr_artifacts_supported = artifacts,
      pr_deployment = lp_deployment p, pr_setup = setup_of_release (lp_context_length p) (lp_setup p),
      pr_dimension_policy = lp_dimension_policy p, pr_video = map_option processor_of_release (lp_video p),
      pr_warm_cancel = cancel\<rparr>"

definition card_artifacts :: "('q, 'n) deployment_card \<Rightarrow> bool" where
  "card_artifacts mdc =
     supported_artifacts (ca_tokenizer_checksum mdc) (map_option artifact_checksum (ca_formatter mdc)) (ca_tokenizer_backend mdc)"

lemma sum_ok_map: "sum_ok (map_sum f g r) = map_option g (sum_ok r)"
  by (cases r) (simp_all add: sum_ok_def)

lemma lib_of_release_simps [simp]:
  "cl_formatter (lib_of_release L) = lc_formatter L" "cl_tokenizer (lib_of_release L) = lc_tokenizer L"
  "cl_model_info (lib_of_release L) = lc_model_info L" "cl_media_loader (lib_of_release L) = lc_media_loader L"
  "cl_dim_client (lib_of_release L) = lc_dim_client L"
  by (simp_all add: lib_of_release_def)

lemma ic_count_embedded: "map_option ic_count (map_option counter_of_release c) = c"
  by (cases c) (simp_all add: counter_of_release_def)

lemma image_routing_versions_agree:
  "image_routing_of (lib_of_release L) mdc K inputs =
     (let im = release_image_routing_of L mdc K inputs in
      \<lparr>ir_counter = map_option counter_of_release (li_counter im), ir_token = li_token im,
       ir_layout = map_option layout_of_release (li_layout im), ir_bos = li_bos im\<rparr>)"
proof (cases inputs)
  case None
  then show ?thesis by (simp add: image_routing_of_def release_image_routing_of_def no_image_routing_def)
next
  case (Some x)
  obtain model_id model_type dir where x: "x = (model_id, model_type, dir)" by (cases x)
  define counter where "counter = sum_ok (lc_counter L model_id model_type dir)"
  define tokens where "tokens = lc_routing_tokens L model_id dir counter"
  have c: "sum_ok (cl_counter (lib_of_release L) model_id model_type dir rt) = map_option counter_of_release counter" for rt
    by (simp add: lib_of_release_def sum_ok_map counter_def)
  have t: "cl_routing_tokens (lib_of_release L) model_id dir (map_option counter_of_release counter) = tokens_of_release tokens"
    by (simp add: lib_of_release_def ic_count_embedded tokens_def)
  have l: "Option.bind (rt_kind (tokens_of_release tokens)) (\<lambda>kind. sum_ok (resolve_routing_image_prompt_layout K kind p)) =
      map_option layout_of_release (Option.bind (lt_kind tokens) (\<lambda>kind. sum_ok (release_resolve_layout K kind)))" for p
    by (cases "lt_kind tokens") (simp_all add: tokens_of_release_def resolve_layout_versions_agree sum_ok_map)
  show ?thesis
    unfolding Some x image_routing_of_def release_image_routing_of_def option.case prod.case resolve_image_routing_def Let_def c t l
    by (auto simp: no_image_routing_def counter_def [symmetric] tokens_def [symmetric] opt_filter_def is_some_def
        tokens_of_release_def split: option.split)
qed

lemma video_routing_versions_agree:
  assumes "Option.bind (sum_ok (ca_nemotron_contract mdc)) id = None"
  shows "resolve_video_routing (lib_of_release L) mdc inputs =
    map_option processor_of_release (release_resolve_video_routing L mdc inputs)"
  using assms
  by (auto simp: resolve_video_routing_def release_resolve_video_routing_def lib_of_release_def Let_def sum_ok_map
      bind_map_option map_option_bind comp_def split: option.split prod.split)

lemma assembled_versions_agree:
  assumes "Option.bind (sum_ok (ca_nemotron_contract mdc)) id = None"
  shows "assembled (lib_of_release L) mdc f K em cancel info inputs =
    preprocessor_of_release (card_artifacts mdc) cancel (release_assembled L mdc f K em info inputs)"
  using video_routing_versions_agree [OF assms]
  by (simp add: assembled_def release_assembled_def preprocessor_of_release_def card_artifacts_def Let_def
      image_routing_versions_agree setup_of_release_def dimension_policy_versions_agree)

text \<open>
  Every constructor of the fix builds the preprocessor of the release, with the result of its check of
  the artifacts added, or fails with its error.
\<close>

lemma constructors_extend_release:
  assumes "Option.bind (sum_ok (ca_nemotron_contract mdc)) id = None"
  shows "new_with_parts_inner (lib_of_release L) mdc f K em cancel =
      map_sum id (preprocessor_of_release (card_artifacts mdc) cancel) (release_new_with_parts_inner L mdc f K em)"
    and "new_preprocessor (lib_of_release L) mdc =
      map_sum id (preprocessor_of_release (card_artifacts mdc) None) (release_new L mdc)"
    and "new_for_embeddings (lib_of_release L) mdc =
      map_sum id (preprocessor_of_release (card_artifacts mdc) None) (release_new_for_embeddings L mdc)"
proof -
  show inner: "new_with_parts_inner (lib_of_release L) mdc f K em cancel =
      map_sum id (preprocessor_of_release (card_artifacts mdc) cancel) (release_new_with_parts_inner L mdc f K em)" for f K em cancel
    by (simp add: new_with_parts_inner_def release_new_with_parts_inner_def Let_def image_routing_versions_agree
        force_dim_client_def assembled_versions_agree [OF assms] is_some_def split: option.split sum.split)
  show "new_preprocessor (lib_of_release L) mdc =
      map_sum id (preprocessor_of_release (card_artifacts mdc) None) (release_new L mdc)"
    by (simp add: new_preprocessor_def release_new_def new_with_parts_and_cancel_def release_new_with_parts_def inner split: sum.split)
  show "new_for_embeddings (lib_of_release L) mdc =
      map_sum id (preprocessor_of_release (card_artifacts mdc) None) (release_new_for_embeddings L mdc)"
    by (simp add: new_for_embeddings_def release_new_for_embeddings_def inner split: sum.split)
qed

end
