(* ===== verification/Render_Cases.thy ===== *)
theory Render_Cases
  imports Stock_Warmup
begin

text \<open>
  The programs that replay rendering cases outside the server: the renderer parity program
  (\<open>002-renderer-parity/src/main.rs\<close>), the replay of the stock warmup
  (\<open>current-code/runner.rs\<close>), its ablations (\<open>scope/runner.rs\<close>) and the check program of the fix
  (\<open>fix/check.rs\<close>).  Each reads a file of cases and prints one JSON row per case; they differ in
  what a failing case costs.

  File system, deserialization, prompt formatter and tokenizer are code outside the repository and
  parameters here.  A program ends with the rows it has written, with an error, or with a panic.
\<close>

section \<open>Results\<close>

datatype failure = Failed string | Panicked

type_synonym 'a run = "failure + 'a"

definition res_bind :: "'e + 'a \<Rightarrow> ('a \<Rightarrow> 'e + 'b) \<Rightarrow> 'e + 'b" where
  "res_bind r k = (case r of Inl e \<Rightarrow> Inl e | Inr x \<Rightarrow> k x)"

text \<open>The operator \<open>?\<close> on a call that returns an error, \<open>unwrap\<close>, and \<open>unwrap\<close> on an option.\<close>

definition question :: "'a result \<Rightarrow> 'a run" where
  "question r = map_sum Failed id r"

definition unwrap_result :: "'a result \<Rightarrow> 'a run" where
  "unwrap_result r = map_sum (\<lambda>_. Panicked) id r"

definition unwrap_option :: "'a option \<Rightarrow> 'a run" where
  "unwrap_option x = (case x of None \<Rightarrow> Inl Panicked | Some v \<Rightarrow> Inr v)"

text \<open>A loop that pushes one row per case and leaves the function at the first error.\<close>

fun rows_until_error :: "('a \<Rightarrow> 'e + 'b) \<Rightarrow> 'a list \<Rightarrow> 'e + 'b list" where
  "rows_until_error f [] = Inr []"
| "rows_until_error f (x # xs) =
     res_bind (f x) (\<lambda>y. res_bind (rows_until_error f xs) (\<lambda>ys. Inr (y # ys)))"

section \<open>The world of the programs\<close>

text \<open>
  A deserialized \<open>CreateChatCompletionRequest\<close>: its list of messages, and what the methods of
  \<open>OAIChatLikeRequest\<close> return for it.
\<close>

record api_request =
  ar_messages :: "message list"
  ar_traits :: render_request

text \<open>
  \<open>'t\<close> is the type of chat templates, \<open>'d\<close> the type of the document a program reads.  Writing
  stands for \<open>to_writer_pretty\<close> and the line break behind it.
\<close>

record ('t, 'd) render_lib =
  rl_args :: "string list"
  rl_read :: "string \<Rightarrow> string result"
  rl_document :: "string \<Rightarrow> 'd result"
  rl_json :: "string \<Rightarrow> json result"
  rl_template :: "string \<Rightarrow> 't result"
  rl_template_value :: "json \<Rightarrow> 't result"
  rl_read_to_string :: "string \<Rightarrow> string result"
  rl_from_parts :: "'t \<Rightarrow> renderer result"
  rl_tokenizer :: "string \<Rightarrow> tokenizer result"
  rl_request :: "json \<Rightarrow> api_request result"
  rl_settings :: "json \<Rightarrow> (string, json) omap result"
  rl_assistant :: "string \<Rightarrow> message"
  rl_write :: "json \<Rightarrow> unit result"

definition first_argument :: "string \<Rightarrow> ('t, 'd) render_lib \<Rightarrow> string result" where
  "first_argument complaint L =
     (case rl_args L of _ # path # _ \<Rightarrow> Inr path | _ \<Rightarrow> Inl complaint)"

definition read_document :: "string \<Rightarrow> ('t, 'd) render_lib \<Rightarrow> 'd result" where
  "read_document complaint L =
     res_bind (first_argument complaint L) (\<lambda>path. res_bind (rl_read L path) (rl_document L))"

definition write_rows :: "('t, 'd) render_lib \<Rightarrow> json list \<Rightarrow> json list result" where
  "write_rows L rows = map_sum id (\<lambda>_. rows) (rl_write L (JArray rows))"

text \<open>
  A request that delegates to the inner one, always with settings; each program has its own copy
  of this adapter.
\<close>

definition with_settings :: "api_request \<Rightarrow> (string, json) omap \<Rightarrow> bool \<Rightarrow> render_request" where
  "with_settings a args generation = (ar_traits a)\<lparr>rq_args := Some args, rq_generation := generation\<rparr>"

definition ids_json :: "token_id list \<Rightarrow> json" where
  "ids_json ids = JArray (map (\<lambda>i. JNumber (of_nat (unat i))) ids)"

definition opt_json :: "json option \<Rightarrow> json" where
  "opt_json v = unwrap_or JNull v"

section \<open>The parity program\<close>

record parity_case =
  pc_id :: string
  pc_config_path :: string
  pc_request :: json
  pc_args :: "(string, json) omap"

definition parity_render :: "('t, 'd) render_lib \<Rightarrow> parity_case \<Rightarrow> string result" where
  "parity_render L c =
     res_bind (rl_read L (pc_config_path c)) (\<lambda>bytes.
     res_bind (rl_template L bytes) (\<lambda>config.
     res_bind (rl_from_parts L config) (\<lambda>formatter.
     res_bind (rl_request L (pc_request c)) (\<lambda>inner.
       rd_render formatter (with_settings inner (pc_args c) True)))))"

definition parity_row :: "('t, 'd) render_lib \<Rightarrow> parity_case \<Rightarrow> json" where
  "parity_row L c =
     (case parity_render L c of
        Inr text \<Rightarrow> json_object [(''id'', JString (pc_id c)), (''status'', JString ''rendered''), (''text'', JString text)]
      | Inl e \<Rightarrow> json_object [(''id'', JString (pc_id c)), (''status'', JString ''error''), (''error'', JString e)])"

definition parity_main :: "('t, parity_case list) render_lib \<Rightarrow> json list result" where
  "parity_main L =
     res_bind (read_document ''Pass a JSON array of rendering cases'' L) (\<lambda>cases.
       write_rows L (map (parity_row L) cases))"

section \<open>The replay of the stock warmup\<close>

record stock_case =
  sc_name :: string
  sc_original :: api_request
  sc_followup :: api_request
  sc_response_text :: string
  sc_args :: "(string, json) omap"

record stock_replay =
  sr_config_path :: string
  sr_tokenizer_path :: string
  sr_cases :: "stock_case list"

definition stock_traits :: "render_request \<Rightarrow> json" where
  "stock_traits q =
     json_object [(''tools'', opt_json (rq_tools q)),
       (''chat_template_args'', opt_json (map_option JObject (rq_args q))),
       (''add_generation_prompt'', JBool (rq_generation q)),
       (''messages'', JArray (map msg_value (unwrap_or [] (rq_messages q))))]"

text \<open>
  The body of \<open>render_stock\<close> is pasted from the source of the version under test: build the
  assistant message, push it, and render a \<open>SpeculativePrefillRequest\<close>.
\<close>

definition stock_prefill_request :: "('t, 'd) render_lib \<Rightarrow> message list \<Rightarrow> string \<Rightarrow> render_request" where
  "stock_prefill_request L original text = speculative_prefill_request (original @ [rl_assistant L text])"

definition render_stock ::
  "('t, 'd) render_lib \<Rightarrow> renderer \<Rightarrow> message list \<Rightarrow> string \<Rightarrow> (string \<times> json) result" where
  "render_stock L formatter original text =
     (let prefill_request = stock_prefill_request L original text;
          traits = stock_traits prefill_request in
      res_bind (rd_render formatter prefill_request) (\<lambda>prompt. Inr (prompt, traits)))"

definition text_and_ids :: "string \<Rightarrow> token_id list \<Rightarrow> json" where
  "text_and_ids text ids = json_object [(''text'', JString text), (''token_ids'', ids_json ids)]"

definition stock_replay_row :: "('t, 'd) render_lib \<Rightarrow> renderer \<Rightarrow> tokenizer \<Rightarrow> stock_case \<Rightarrow> json result" where
  "stock_replay_row L formatter tk c =
     res_bind (rd_render formatter (with_settings (sc_original c) (sc_args c) True)) (\<lambda>original_text.
     res_bind (rd_render formatter (with_settings (sc_followup c) (sc_args c) True)) (\<lambda>followup_text.
     res_bind (render_stock L formatter (ar_messages (sc_original c)) (sc_response_text c)) (\<lambda>(prepared_text, traits).
     res_bind (tk_encode tk original_text) (\<lambda>original_ids.
     res_bind (tk_encode tk prepared_text) (\<lambda>prepared_ids.
     res_bind (tk_encode tk followup_text) (\<lambda>followup_ids.
       Inr (json_object [(''case'', JString (sc_name c)),
              (''original'', text_and_ids original_text original_ids),
              (''prepared'', text_and_ids prepared_text prepared_ids),
              (''followup'', text_and_ids followup_text followup_ids),
              (''stock_request_traits'', traits)])))))))"

definition stock_replay_main :: "('t, stock_replay) render_lib \<Rightarrow> json list result" where
  "stock_replay_main L =
     res_bind (read_document ''Pass the input JSON path'' L) (\<lambda>input.
     res_bind (rl_read L (sr_config_path input)) (\<lambda>bytes.
     res_bind (rl_template L bytes) (\<lambda>config.
     res_bind (rl_from_parts L config) (\<lambda>formatter.
     res_bind (rl_tokenizer L (sr_tokenizer_path input)) (\<lambda>tk.
     res_bind (rows_until_error (stock_replay_row L formatter tk) (sr_cases input)) (write_rows L))))))"

section \<open>The ablations\<close>

record scope_case =
  oc_id :: string
  oc_config_path :: string
  oc_tokenizer_path :: string
  oc_template_path :: "string option"
  oc_original :: api_request
  oc_completed :: message
  oc_followup :: api_request
  oc_response_text :: string
  oc_settings :: "(string, json) omap"

text \<open>
  \<open>SchemaRestored\<close>: the stock request with the tools of the original and given settings; the
  methods it does not define keep the defaults of the trait.
\<close>

definition schema_restored :: "render_request \<Rightarrow> api_request \<Rightarrow> (string, json) omap option \<Rightarrow> render_request" where
  "schema_restored stock original settings =
     \<lparr>rq_model = rq_model stock, rq_messages = rq_messages stock, rq_tools = rq_tools (ar_traits original),
      rq_tool_choice = None, rq_response_format = None, rq_reasoning_effort = None, rq_args = settings,
      rq_generation = rq_generation stock\<rparr>"

definition render_outcome :: "string result \<Rightarrow> tokenizer \<Rightarrow> json" where
  "render_outcome rendered tk =
     (case res_bind rendered (\<lambda>text. res_bind (tk_encode tk text) (\<lambda>ids. Inr (ids, text))) of
        Inr (ids, text) \<Rightarrow>
          json_object [(''status'', JString ''rendered''), (''text'', JString text), (''token_ids'', ids_json ids)]
      | Inl e \<Rightarrow> json_object [(''status'', JString ''error''), (''error'', JString e)])"

definition scope_traits :: "render_request \<Rightarrow> json" where
  "scope_traits q =
     json_object [(''tools'', opt_json (rq_tools q)), (''settings'', opt_json (map_option JObject (rq_args q))),
       (''generation_prompt'', JBool (rq_generation q))]"

definition scope_renders :: "('t, 'd) render_lib \<Rightarrow> renderer \<Rightarrow> tokenizer \<Rightarrow> scope_case \<Rightarrow> (string \<times> json) list" where
  "scope_renders L formatter tk c =
     (let stock = stock_prefill_request L (ar_messages (oc_original c)) (oc_response_text c);
          full_stock = speculative_prefill_request (ar_messages (oc_original c) @ [oc_completed c]);
          out = (\<lambda>q. render_outcome (rd_render formatter q) tk) in
      [(''original'', out (with_settings (oc_original c) (oc_settings c) True)),
       (''followup'', out (with_settings (oc_followup c) (oc_settings c) True)),
       (''schema_restored'', out (schema_restored stock (oc_original c) None)),
       (''schema_and_settings_restored'', out (schema_restored stock (oc_original c) (Some (oc_settings c)))),
       (''schema_settings_full_assistant'', out (schema_restored full_stock (oc_original c) (Some (oc_settings c)))),
       (''stock'', out stock)])"

definition scope_config :: "('t, 'd) render_lib \<Rightarrow> scope_case \<Rightarrow> json run" where
  "scope_config L c =
     res_bind (question (rl_read L (oc_config_path c))) (\<lambda>bytes.
     res_bind (question (rl_json L bytes)) (\<lambda>config.
       case oc_template_path c of
         None \<Rightarrow> Inr config
       | Some path \<Rightarrow>
           res_bind (question (rl_read_to_string L path)) (\<lambda>source.
             unwrap_option (json_index_set ''chat_template'' (JString source) config))))"

definition scope_render :: "('t, 'd) render_lib \<Rightarrow> scope_case \<Rightarrow> json run" where
  "scope_render L c =
     res_bind (scope_config L c) (\<lambda>value.
     res_bind (question (rl_template_value L value)) (\<lambda>config.
     res_bind (question (rl_from_parts L config)) (\<lambda>formatter.
     res_bind (question (rl_tokenizer L (oc_tokenizer_path c))) (\<lambda>tk.
       Inr (json_object [(''id'', JString (oc_id c)), (''renders'', json_object (scope_renders L formatter tk c)),
              (''stock_traits'',
               scope_traits (stock_prefill_request L (ar_messages (oc_original c)) (oc_response_text c)))])))))"

text \<open>A case that fails becomes a row; a panic ends the program.\<close>

definition scope_row :: "('t, 'd) render_lib \<Rightarrow> scope_case \<Rightarrow> json run" where
  "scope_row L c =
     (case scope_render L c of
        Inl (Failed e) \<Rightarrow> Inr (json_object [(''id'', JString (oc_id c)), (''setup_error'', JString e)])
      | r \<Rightarrow> r)"

definition scope_main :: "('t, scope_case list) render_lib \<Rightarrow> json list run" where
  "scope_main L =
     res_bind (question (read_document ''Pass the input JSON path'' L)) (\<lambda>cases.
     res_bind (rows_until_error (scope_row L) cases) (\<lambda>rows. question (write_rows L rows)))"

section \<open>The check program of the fix\<close>

text \<open>Reading \<open>v[i]\<close> of an array: null out of range and for every other value.\<close>

fun json_nth :: "nat \<Rightarrow> json \<Rightarrow> json" where
  "json_nth i (JArray xs) = (if i < length xs then xs ! i else JNull)"
| "json_nth i _ = JNull"

definition check_request :: "('t, 'd) render_lib \<Rightarrow> json \<Rightarrow> json \<Rightarrow> render_request run" where
  "check_request L value settings =
     res_bind (unwrap_result (rl_request L value)) (\<lambda>inner.
     res_bind (unwrap_result (rl_settings L settings)) (\<lambda>args.
       Inr (with_settings inner args True)))"

text \<open>The original request with the completed turn, taken from the request that follows, pushed to its messages.\<close>

definition completed_request :: "json \<Rightarrow> json \<Rightarrow> json run" where
  "completed_request original following =
     res_bind (unwrap_option (json_as_array (json_index ''messages'' original))) (\<lambda>ms.
       unwrap_option (json_index_set ''messages''
         (JArray (ms @ [json_nth (length ms) (json_index ''messages'' following)])) original))"

definition check_row :: "string \<Rightarrow> ('t, 'd) render_lib \<Rightarrow> renderer \<Rightarrow> tokenizer \<Rightarrow> json \<Rightarrow> json run" where
  "check_row pinned L f t c =
     (let original = json_index ''original_request'' c;
          following = json_index ''followup_request'' c;
          settings = json_index ''effective_normal_template_args'' c in
      res_bind (completed_request original following) (\<lambda>completed.
      res_bind (check_request L completed settings) (\<lambda>turn.
      res_bind (question (render_speculative_tool_prefix pinned f turn)) (\<lambda>prepared.
      res_bind (check_request L original settings) (\<lambda>before.
      res_bind (question (rd_render f before)) (\<lambda>original_text.
      res_bind (check_request L following settings) (\<lambda>after.
      res_bind (question (rd_render f after)) (\<lambda>following_text.
      res_bind (question (tk_encode t original_text)) (\<lambda>original_ids.
      res_bind (case prepared of None \<Rightarrow> Inr None
                | Some p \<Rightarrow> map_sum id Some (unwrap_result (tk_encode t p))) (\<lambda>prepared_ids.
      res_bind (question (tk_encode t following_text)) (\<lambda>followup_ids.
        Inr (json_object [(''case'', json_index ''name'' c), (''original_ids'', ids_json original_ids),
               (''prepared_ids'', opt_json (map_option ids_json prepared_ids)),
               (''followup_ids'', ids_json followup_ids)]))))))))))))"

definition check_main :: "string \<Rightarrow> ('t, 'd) render_lib \<Rightarrow> json list run" where
  "check_main pinned L =
     res_bind (question (first_argument ''input JSON required'' L)) (\<lambda>path.
     res_bind (question (rl_read L path)) (\<lambda>bytes.
     res_bind (question (rl_json L bytes)) (\<lambda>input.
     res_bind (unwrap_option (json_as_str (json_index ''config_path'' input))) (\<lambda>config_path.
     res_bind (question (rl_read_to_string L config_path)) (\<lambda>source.
     res_bind (question (rl_template L source)) (\<lambda>config.
     res_bind (question (rl_from_parts L config)) (\<lambda>f.
     res_bind (unwrap_option (json_as_str (json_index ''tokenizer_path'' input))) (\<lambda>tokenizer_path.
     res_bind (question (rl_tokenizer L tokenizer_path)) (\<lambda>t.
     res_bind (unwrap_option (json_as_array (json_index ''cases'' input))) (\<lambda>cases.
     res_bind (rows_until_error (check_row pinned L f t) cases) (\<lambda>rows.
       unwrap_result (write_rows L rows))))))))))))"

section \<open>Lemmas\<close>

lemma res_bind_simps [simp]: "res_bind (Inl e) k = Inl e" "res_bind (Inr x) k = k x"
  by (simp_all add: res_bind_def)

lemma res_bind_Inr_iff: "res_bind r k = Inr y \<longleftrightarrow> (\<exists>x. r = Inr x \<and> k x = Inr y)"
  by (cases r) simp_all

lemma res_bind_Inl_iff: "res_bind r k = Inl e \<longleftrightarrow> r = Inl e \<or> (\<exists>x. r = Inr x \<and> k x = Inl e)"
  by (cases r) simp_all

lemma map_sum_Inr_iff: "map_sum f g r = Inr y \<longleftrightarrow> (\<exists>x. r = Inr x \<and> y = g x)"
  by (cases r) auto

lemma map_sum_Inl_iff: "map_sum f g r = Inl e \<longleftrightarrow> (\<exists>x. r = Inl x \<and> e = f x)"
  by (cases r) auto

lemma not_isl_iff: "\<not> isl r \<longleftrightarrow> (\<exists>y. r = Inr y)"
  by (cases r) simp_all

lemma question_Inr_iff [simp]: "question r = Inr y \<longleftrightarrow> r = Inr y"
  by (auto simp: question_def map_sum_Inr_iff)

lemma question_no_panic [simp]: "question r \<noteq> Inl Panicked"
  by (cases r) (simp_all add: question_def)

lemma unwrap_result_Inr_iff [simp]: "unwrap_result r = Inr y \<longleftrightarrow> r = Inr y"
  by (auto simp: unwrap_result_def map_sum_Inr_iff)

lemma unwrap_option_Inr_iff [simp]: "unwrap_option v = Inr y \<longleftrightarrow> v = Some y"
  by (cases v) (simp_all add: unwrap_option_def)

lemmas run_success = res_bind_Inr_iff map_sum_Inr_iff

lemma rows_until_error_Inr_iff:
  "rows_until_error f xs = Inr ys \<longleftrightarrow> list_all2 (\<lambda>x y. f x = Inr y) xs ys"
  by (induction xs arbitrary: ys) (auto simp: res_bind_Inr_iff list_all2_Cons1)

lemma rows_until_error_InlE:
  assumes "rows_until_error f xs = Inl e"
  obtains before x after where "xs = before @ x # after" "\<forall>y \<in> set before. \<exists>r. f y = Inr r" "f x = Inl e"
  using assms
proof (induction xs arbitrary: thesis)
  case Nil
  then show ?case by simp
next
  case (Cons x xs)
  show ?case
  proof (cases "f x")
    case (Inl d)
    with Cons.prems(2) show ?thesis by (intro Cons.prems(1) [of "[]" x xs]) simp_all
  next
    case (Inr r)
    with Cons.prems(2) have "rows_until_error f xs = Inl e" by (simp add: res_bind_Inl_iff)
    then obtain before y after where "xs = before @ y # after" "\<forall>y \<in> set before. \<exists>r. f y = Inr r" "f y = Inl e"
      using Cons.IH by blast
    with Inr show ?thesis by (intro Cons.prems(1) [of "x # before" y after]) auto
  qed
qed

lemma rows_until_error_stops:
  "\<forall>y \<in> set before. \<exists>r. f y = Inr r \<Longrightarrow> f x = Inl e \<Longrightarrow> rows_until_error f (before @ x # after) = Inl e"
  by (induction before) (auto simp: res_bind_Inl_iff)

lemma list_all2_length_nth: "list_all2 P xs ys \<Longrightarrow> i < length xs \<Longrightarrow> P (xs ! i) (ys ! i)"
  by (simp add: list_all2_conv_all_nth)

text \<open>The members of a row: the last value given for a key.\<close>

lemma om_get_fold_insert:
  "om_get (fold (\<lambda>(k, v) m. om_insert k v m) kvs m) k = (case map_of (rev kvs) k of None \<Rightarrow> om_get m k | v \<Rightarrow> v)"
  by (induction kvs arbitrary: m) (auto simp: map_add_def split: option.splits)

lemma json_index_object: "json_index k (json_object kvs) = unwrap_or JNull (map_of (rev kvs) k)"
  by (simp add: json_index_def json_object_def om_of_list_def om_get_fold_insert split: option.split)

lemma ids_json_inj: "ids_json a = ids_json b \<longleftrightarrow> a = b"
proof -
  have "inj (\<lambda>i :: token_id. JNumber (of_nat (unat i)))"
    by (rule injI) (simp only: json.inject of_nat_eq_iff word_unat_eq_iff)
  then show ?thesis by (simp add: ids_json_def inj_map_eq_map)
qed

subsection \<open>What a failing case costs\<close>

text \<open>
  The parity program always reports every case once the cases are read: a case that cannot be
  rendered costs its own row and no other.
\<close>

lemma parity_main_reports_all:
  assumes "read_document ''Pass a JSON array of rendering cases'' L = Inr cases" "\<And>v. rl_write L v = Inr ()"
  shows "\<exists>rows. parity_main L = Inr rows \<and>
     list_all2 (\<lambda>c row. json_index ''id'' row = JString (pc_id c) \<and>
       (case parity_render L c of
          Inr text \<Rightarrow> json_index ''status'' row = JString ''rendered'' \<and> json_index ''text'' row = JString text
        | Inl e \<Rightarrow> json_index ''status'' row = JString ''error'' \<and> json_index ''error'' row = JString e)) cases rows"
  using assms
  by (auto simp: parity_main_def write_rows_def list_all2_map2 parity_row_def json_index_object unwrap_or_def
      intro!: list.rel_refl_strong split: sum.splits)

text \<open>The stock replay stops at the first case that fails, with the error of that case.\<close>

lemma stock_replay_stops:
  assumes "read_document ''Pass the input JSON path'' L = Inr input"
    and "rl_read L (sr_config_path input) = Inr bytes" "rl_template L bytes = Inr config"
    and "rl_from_parts L config = Inr f" "rl_tokenizer L (sr_tokenizer_path input) = Inr tk"
    and "sr_cases input = before @ c # after" "\<forall>b \<in> set before. \<exists>r. stock_replay_row L f tk b = Inr r"
    and "stock_replay_row L f tk c = Inl e"
  shows "stock_replay_main L = Inl e"
  using assms by (simp add: stock_replay_main_def rows_until_error_stops)

lemma scope_row_never_fails: "scope_row L c \<noteq> Inl (Failed e)"
  by (simp add: scope_row_def split: sum.split failure.split)

lemma scope_row_panics: "scope_row L c = Inl Panicked \<longleftrightarrow> scope_config L c = Inl Panicked"
  by (auto simp: scope_row_def scope_render_def res_bind_Inl_iff split: sum.splits failure.splits)

lemma scope_row_Inr: "scope_config L c \<noteq> Inl Panicked \<Longrightarrow> \<exists>row. scope_row L c = Inr row"
  using scope_row_never_fails [of L c] scope_row_panics [of L c]
  by (metis failure.exhaust obj_sumE)

text \<open>
  The ablations print a row for every case, whatever fails in it, unless a case names a template
  and its configuration is a JSON value without members: then the program panics and prints
  nothing.
\<close>

lemma scope_main_panics_iff:
  assumes "read_document ''Pass the input JSON path'' L = Inr cases"
  shows "scope_main L = Inl Panicked \<longleftrightarrow> (\<exists>c \<in> set cases. scope_config L c = Inl Panicked)"
proof
  assume "scope_main L = Inl Panicked"
  then have "rows_until_error (scope_row L) cases = Inl Panicked"
    using assms by (auto simp: scope_main_def res_bind_Inl_iff)
  then show "\<exists>c \<in> set cases. scope_config L c = Inl Panicked"
    by (auto elim!: rows_until_error_InlE simp: scope_row_panics)
next
  assume "\<exists>c \<in> set cases. scope_config L c = Inl Panicked"
  then have "\<not> (\<forall>c \<in> set cases. \<exists>r. scope_row L c = Inr r)"
    using scope_row_panics by (metis Inr_not_Inl)
  then obtain e where "rows_until_error (scope_row L) cases = Inl e"
    by (cases "rows_until_error (scope_row L) cases") (auto simp: rows_until_error_Inr_iff list_all2_conv_all_nth in_set_conv_nth)
  moreover from this have "e = Panicked"
    by (cases e) (auto elim!: rows_until_error_InlE simp: scope_row_never_fails)
  ultimately show "scope_main L = Inl Panicked"
    using assms by (simp add: scope_main_def question_def)
qed

lemma scope_config_panics_iff:
  "scope_config L c = Inl Panicked \<longleftrightarrow>
     (\<exists>bytes config path source. rl_read L (oc_config_path c) = Inr bytes \<and> rl_json L bytes = Inr config
        \<and> oc_template_path c = Some path \<and> rl_read_to_string L path = Inr source
        \<and> config \<noteq> JNull \<and> \<not> json_is_object config)"
proof -
  have "unwrap_option (json_index_set k x v) = Inl Panicked \<longleftrightarrow> v \<noteq> JNull \<and> \<not> json_is_object v" for k x v
    by (cases v) (simp_all add: unwrap_option_def)
  then show ?thesis
    by (auto simp: scope_config_def res_bind_Inl_iff split: option.splits)
qed

text \<open>Restoring the tools of a request without tools is no restoration.\<close>

lemma schema_restored_without_tools:
  "rq_tools (ar_traits original) = None \<Longrightarrow>
     schema_restored (stock_prefill_request L ms text) original None = stock_prefill_request L ms text"
  by (simp add: schema_restored_def stock_prefill_request_def speculative_prefill_request_def)

section \<open>What the replays show\<close>

subsection \<open>The stock warmup\<close>

text \<open>A task of the stock warmup that has what a case of the replay has.\<close>

definition replays :: "('t, 'd) render_lib \<Rightarrow> renderer \<Rightarrow> tokenizer \<Rightarrow> stock_case \<Rightarrow> stock_input \<Rightarrow> bool" where
  "replays L formatter tk c x =
     (si_messages x = ar_messages (sc_original c) \<and> si_renderer x = formatter \<and> si_tokenizer x = tk
      \<and> (\<forall>text. si_assistant x text = rl_assistant L text))"

lemma stock_replay_row_warmup:
  assumes "stock_replay_row L f tk c = Inr row" "replays L f tk c x"
  shows "\<exists>ids. release_prefill_task x (sc_response_text c) = Inr (warm_request ''speculative_prefill'' ids)
     \<and> json_index ''token_ids'' (json_index ''prepared'' row) = ids_json ids"
  using assms
  by (auto simp: stock_replay_row_def run_success render_stock_def Let_def replays_def release_prefill_task_def
      stock_request_def stock_prefill_request_def json_index_object text_and_ids_def unwrap_or_def)

lemma stock_replay_row_names:
  assumes "stock_replay_row L f tk c = Inr row"
  shows "json_index ''case'' row = JString (sc_name c)"
    and "json_index ''tools'' (json_index ''stock_request_traits'' row) = JNull"
    and "json_index ''chat_template_args'' (json_index ''stock_request_traits'' row) = JNull"
  using assms
  by (auto simp: stock_replay_row_def run_success render_stock_def Let_def stock_prefill_request_def
      speculative_prefill_request_def stock_traits_def json_index_object opt_json_def unwrap_or_def)

lemma stock_replay_row_failure:
  assumes "release_prefill_task x (sc_response_text c) = Inl e" "replays L f tk c x"
  shows "\<exists>e'. stock_replay_row L f tk c = Inl e'"
proof (cases "stock_replay_row L f tk c")
  case (Inr row)
  with stock_replay_row_warmup [OF Inr assms(2)] assms(1) show ?thesis by simp
qed simp

lemma stock_replay_main_rows:
  assumes "read_document ''Pass the input JSON path'' L = Inr input"
    and "rl_read L (sr_config_path input) = Inr bytes" "rl_template L bytes = Inr config"
    and "rl_from_parts L config = Inr f" "rl_tokenizer L (sr_tokenizer_path input) = Inr tk"
    and "stock_replay_main L = Inr rows"
  shows "list_all2 (\<lambda>c row. stock_replay_row L f tk c = Inr row) (sr_cases input) rows"
  using assms by (auto simp: stock_replay_main_def write_rows_def run_success rows_until_error_Inr_iff)


subsection \<open>The tool prefix of the fix\<close>

lemma check_row_InrE:
  assumes "check_row pinned L f t c = Inr row"
  obtains completed turn after prepared prepared_ids following_text followup_ids where
    "completed_request (json_index ''original_request'' c) (json_index ''followup_request'' c) = Inr completed"
    "check_request L completed (json_index ''effective_normal_template_args'' c) = Inr turn"
    "render_speculative_tool_prefix pinned f turn = Inr prepared"
    "check_request L (json_index ''followup_request'' c) (json_index ''effective_normal_template_args'' c) = Inr after"
    "rd_render f after = Inr following_text" "tk_encode t following_text = Inr followup_ids"
    "(case prepared of None \<Rightarrow> Inr None | Some p \<Rightarrow> map_sum id Some (unwrap_result (tk_encode t p))) = Inr prepared_ids"
    "json_index ''prepared_ids'' row = opt_json (map_option ids_json prepared_ids)"
    "json_index ''followup_ids'' row = ids_json followup_ids"
proof -
  from assms obtain completed turn prepared before original_text after following_text original_ids prepared_ids followup_ids where *:
    "completed_request (json_index ''original_request'' c) (json_index ''followup_request'' c) = Inr completed"
    "check_request L completed (json_index ''effective_normal_template_args'' c) = Inr turn"
    "render_speculative_tool_prefix pinned f turn = Inr prepared"
    "check_request L (json_index ''followup_request'' c) (json_index ''effective_normal_template_args'' c) = Inr after"
    "rd_render f after = Inr following_text" "tk_encode t following_text = Inr followup_ids"
    "(case prepared of None \<Rightarrow> Inr None | Some p \<Rightarrow> map_sum id Some (unwrap_result (tk_encode t p))) = Inr prepared_ids"
    and row: "row = json_object [(''case'', json_index ''name'' c), (''original_ids'', ids_json original_ids),
               (''prepared_ids'', opt_json (map_option ids_json prepared_ids)), (''followup_ids'', ids_json followup_ids)]"
    unfolding check_row_def Let_def by (simp only: res_bind_Inr_iff question_Inr_iff sum.inject) (elim exE conjE, blast)
  show thesis
    by (rule that [OF *]) (simp_all add: row json_index_object unwrap_or_def)
qed

text \<open>What the warmup of the fix prepares from the prefix whose tokens the program prints.\<close>

lemma prepare_of_prefix:
  assumes "render_speculative_tool_prefix (wi_pinned x) (wi_renderer x) req = Inr r"
  shows "r = None \<Longrightarrow> prepare x req = Inr None"
    and "r = Some p \<Longrightarrow> tk_encode (wi_tokenizer x) p = Inr toks \<Longrightarrow> prepare x req \<in> {Inr None, Inr (Some toks)}"
  using assms
  by (auto simp: prepare_def encode_prefix_def supported_tokenizer_def split: sum.splits)

text \<open>
  C37.  The check program shows what the warmup of the fix does.  Assume that rendering uses the pinned
  template, that the placeholder parses to a tool message with the marker as its text, that the
  tokenizer never merges across the closing special token, and that the following request of the
  case continues the completed turn with tool results only.  Then a row either has no prepared ids,
  and the warmup sends nothing for that turn; or its prepared ids are a prefix of its ids of the
  following request, and the warmup sends exactly these or nothing.
\<close>

theorem check_row_shows_prefix:
  assumes "check_row pinned L f t c = Inr row"
    and "rd_render f = pinned_render pr view tools thinking"
    and "\<forall>call_id m. rd_parse_message f (tool_marker_value call_id) = Inr m \<longrightarrow>
           role_is ''tool'' (view m) \<and> message_text (view m) = marker"
    and "\<forall>a b. suffix im_end a \<longrightarrow> tk_encode t (a @ b) =
           (case tk_encode t a of Inl e \<Rightarrow> Inl e | Inr ids \<Rightarrow> map_sum id (\<lambda>ids'. ids @ ids') (tk_encode t b))"
    and "completed_request (json_index ''original_request'' c) (json_index ''followup_request'' c) = Inr completed"
    and "check_request L completed (json_index ''effective_normal_template_args'' c) = Inr turn" "rq_messages turn = Some ms"
    and "check_request L (json_index ''followup_request'' c) (json_index ''effective_normal_template_args'' c) =
           Inr (turn\<lparr>rq_messages := Some (ms @ results)\<rparr>)"
    and "results \<noteq> []" "list_all (\<lambda>m. role_is ''tool'' (view m)) results"
  shows "json_index ''prepared_ids'' row = JNull
           \<and> (\<forall>x. wi_renderer x = f \<and> wi_pinned x = pinned \<and> wi_tokenizer x = t \<longrightarrow> prepare x turn = Inr None)
       \<or> (\<exists>toks ids. json_index ''prepared_ids'' row = ids_json toks \<and> json_index ''followup_ids'' row = ids_json ids
           \<and> prefix toks ids
           \<and> (\<forall>x. wi_renderer x = f \<and> wi_pinned x = pinned \<and> wi_tokenizer x = t \<longrightarrow>
                 prepare x turn \<in> {Inr None, Inr (Some toks)}))"
  using assms(1)
proof (cases rule: check_row_InrE)
  case (1 completed' turn' after prepared prepared_ids full ids)
  have turn: "turn' = turn" and after: "after = turn\<lparr>rq_messages := Some (ms @ results)\<rparr>"
    using 1 assms(5,6,8) by simp_all
  show ?thesis
  proof (cases prepared)
    case None
    with 1 turn show ?thesis by (auto simp: opt_json_def unwrap_or_def intro: prepare_of_prefix(1))
  next
    case (Some p)
    with 1 obtain toks where toks: "tk_encode t p = Inr toks" "prepared_ids = Some toks" by (auto simp: map_sum_Inr_iff)
    have "qwen_tool_prefix f turn = Inr (Some p)"
      using 1(3) Some turn by (auto simp: render_speculative_tool_prefix_def Let_def split: sum.splits if_splits)
    moreover have "rd_render f (turn\<lparr>rq_messages := Some (ms @ results), rq_generation := rq_generation turn\<rparr>) = Inr full"
      using 1(5) after by simp
    ultimately have "prefix p full" "suffix im_end p"
      using qwen_tool_prefix_exact [OF assms(2,3) _ assms(7,9,10)] by blast+
    then obtain b where b: "full = p @ b" and "suffix im_end p" by (auto simp: prefix_def)
    with 1(6) assms(4) toks(1) have "map_sum id (\<lambda>ids'. toks @ ids') (tk_encode t b) = Inr ids" by simp
    then have "prefix toks ids" by (auto simp: map_sum_Inr_iff)
    with 1 toks turn Some show ?thesis
      by (intro disjI2 exI [of _ toks] exI [of _ ids]) (auto simp: opt_json_def unwrap_or_def dest: prepare_of_prefix(2))
  qed
qed

subsection \<open>Sample cases\<close>

definition sample_message :: "json \<Rightarrow> message" where
  "sample_message v =
     \<lparr>msg_value = v,
      msg_calls = (if json_index ''role'' v = JString ''assistant'' then Some (Some [''c1'']) else None)\<rparr>"

definition sample_api :: "json \<Rightarrow> api_request" where
  "sample_api v =
     (let ms = map sample_message (unwrap_or [] (json_as_array (json_index ''messages'' v))) in
      \<lparr>ar_messages = ms, ar_traits = sample_render_request\<lparr>rq_messages := Some ms\<rparr>\<rparr>)"

definition sample_render_lib :: "'d \<Rightarrow> (unit, 'd) render_lib" where
  "sample_render_lib d =
     \<lparr>rl_args = [''runner'', ''cases.json''], rl_read = (\<lambda>_. Inr []), rl_document = (\<lambda>_. Inr d),
      rl_json = (\<lambda>_. Inr JNull), rl_template = (\<lambda>_. Inr ()), rl_template_value = (\<lambda>_. Inr ()),
      rl_read_to_string = (\<lambda>_. Inr []), rl_from_parts = (\<lambda>_. Inr sample_renderer),
      rl_tokenizer = (\<lambda>_. Inr sample_tokenizer), rl_request = (\<lambda>v. Inr (sample_api v)),
      rl_settings = (\<lambda>_. Inr []),
      rl_assistant = (\<lambda>t. \<lparr>msg_value = json_object [(''role'', JString ''assistant''), (''content'', JString t)],
                          msg_calls = Some None\<rparr>),
      rl_write = (\<lambda>_. Inr ())\<rparr>"

definition sample_conversation :: "message list \<Rightarrow> json" where
  "sample_conversation ms = json_object [(''messages'', JArray (map msg_value ms))]"

definition sample_check_case :: json where
  "sample_check_case =
     json_object [(''name'', JString ''tool''), (''original_request'', sample_conversation [sample_turn ! 0]),
       (''followup_request'', sample_conversation (sample_turn @ [sample_result]))]"

definition sample_check_turn :: render_request where
  "sample_check_turn = sample_render_request\<lparr>rq_args := Some []\<rparr>"

definition sample_request_of :: "message list \<Rightarrow> render_request" where
  "sample_request_of ms = sample_check_turn\<lparr>rq_messages := Some ms\<rparr>"

lemma sample_check_requests:
  "completed_request (json_index ''original_request'' sample_check_case) (json_index ''followup_request'' sample_check_case) =
     Inr (sample_conversation sample_turn)"
  "check_request (sample_render_lib ()) (sample_conversation sample_turn)
     (json_index ''effective_normal_template_args'' sample_check_case) = Inr sample_check_turn"
  "check_request (sample_render_lib ()) (json_index ''original_request'' sample_check_case)
     (json_index ''effective_normal_template_args'' sample_check_case) = Inr (sample_request_of [sample_turn ! 0])"
  "check_request (sample_render_lib ()) (json_index ''followup_request'' sample_check_case)
     (json_index ''effective_normal_template_args'' sample_check_case) = Inr (sample_request_of (sample_turn @ [sample_result]))"
  by code_simp+

lemma sample_check_texts:
  "render_speculative_tool_prefix [] sample_renderer sample_check_turn = Inr (Some sample_prefix)"
  "\<not> isl (rd_render sample_renderer (sample_request_of [sample_turn ! 0]))"
  "\<not> isl (rd_render sample_renderer (sample_request_of (sample_turn @ [sample_result])))"
  by code_simp+

lemma sample_check_evaluates:
  "\<exists>row. check_row [] (sample_render_lib ()) sample_renderer sample_tokenizer sample_check_case = Inr row
     \<and> json_index ''prepared_ids'' row = ids_json (sample_encode sample_prefix)"
  using sample_check_texts(2,3)
  by (auto simp: not_isl_iff check_row_def sample_check_requests sample_check_texts(1) sample_tokenizer_def question_def unwrap_result_def
      json_index_object unwrap_or_def opt_json_def)

theorem check_row_shows_prefix_witness:
  "\<exists>row ids. check_row [] (sample_render_lib ()) sample_renderer sample_tokenizer sample_check_case = Inr row
     \<and> json_index ''prepared_ids'' row = ids_json (sample_encode sample_prefix)
     \<and> json_index ''followup_ids'' row = ids_json ids \<and> prefix (sample_encode sample_prefix) ids"
proof -
  obtain row where row: "check_row [] (sample_render_lib ()) sample_renderer sample_tokenizer sample_check_case = Inr row"
    "json_index ''prepared_ids'' row = ids_json (sample_encode sample_prefix)"
    using sample_check_evaluates by blast
  have split: "sample_encode (a @ b) = sample_encode a @ sample_encode b" for a b
    by (simp add: sample_encode_def)
  have "ids_json toks \<noteq> JNull" for toks by (simp add: ids_json_def)
  then show ?thesis
    using check_row_shows_prefix [where view = msg_value and results = "[sample_result]" and ms = sample_turn,
        OF row(1) sample_renderer_render _ _ sample_check_requests(1,2) _ sample_check_requests(4) [unfolded sample_request_of_def]]
      sample_renderer_marker row
    by (auto simp: split sample_tokenizer_def sample_check_turn_def sample_render_request_def sample_result_def role_is_def
        json_object_def om_of_list_def om_get_Cons ids_json_inj)
qed

definition sample_replay :: stock_replay where
  "sample_replay =
     \<lparr>sr_config_path = ''config.json'', sr_tokenizer_path = ''tokenizer.json'',
      sr_cases = [\<lparr>sc_name = ''text'', sc_original = sample_api (sample_conversation [sample_turn ! 0]),
                   sc_followup = sample_api (sample_conversation sample_turn), sc_response_text = ''hello'', sc_args = []\<rparr>]\<rparr>"

definition sample_replayed :: stock_input where
  "sample_replayed =
     sample_stock\<lparr>si_messages := [sample_turn ! 0], si_assistant := rl_assistant (sample_render_lib sample_replay),
       si_renderer := sample_renderer\<rparr>"

lemma sample_replay_texts:
  "\<not> isl (rd_render sample_renderer (with_settings (sample_api (sample_conversation [sample_turn ! 0])) [] True))"
  "\<not> isl (rd_render sample_renderer (with_settings (sample_api (sample_conversation sample_turn)) [] True))"
  "\<not> isl (rd_render sample_renderer (stock_prefill_request (sample_render_lib sample_replay)
        (ar_messages (sample_api (sample_conversation [sample_turn ! 0]))) ''hello''))"
  by code_simp+

lemma sample_replay_evaluates: "\<exists>rows. stock_replay_main (sample_render_lib sample_replay) = Inr rows"
proof -
  have "\<exists>row. stock_replay_row (sample_render_lib sample_replay) sample_renderer sample_tokenizer (hd (sr_cases sample_replay)) = Inr row"
    using sample_replay_texts
    by (auto simp: not_isl_iff stock_replay_row_def render_stock_def sample_replay_def sample_tokenizer_def)
  then show ?thesis
    by (auto simp: stock_replay_main_def sample_render_lib_def read_document_def first_argument_def sample_replay_def write_rows_def)
qed


end
