(* ===== verification/Endpoint_Registration.thy ===== *)
theory Endpoint_Registration
  imports Json Effects Text_Search
begin

text \<open>
  Registration of a worker endpoint, from the two saved versions of \<open>component/endpoint.rs\<close>
  (\<open>frontend-startup-main-endpoint.rs\<close> and \<open>frontend-startup-release-endpoint.rs\<close>): the
  transport address an endpoint advertises, the start that registers it with the request plane and
  with discovery, the clean-up after cancellation, and the two operations that take an instance out
  of the routing pool and put it back.

  The request plane server, discovery, the handler, the health registry and the shutdown tracker are
  code outside the files.  \<open>runtime_lib\<close> holds what they answer, as functions of the history of
  calls; the world records that history, newest call first, each call with its success.  The state
  the TCP server publishes when it is bound is the type \<open>'g\<close>.
\<close>

section \<open>Data\<close>

record endpoint_id =
  ei_namespace :: string
  ei_component :: string
  ei_name :: string

datatype request_plane_mode = RPM_Tcp | RPM_Nats

datatype transport_type = TT_Tcp string | TT_Nats string

datatype device_type = Device_Cpu | Device_Cuda

record endpoint_instance =
  in_component :: string
  in_endpoint :: string
  in_namespace :: string
  in_instance_id :: u64
  in_transport :: transport_type
  in_device :: "device_type option"
  in_codec :: "string option"

text \<open>\<open>DiscoverySpec::Endpoint\<close>: the instance without the id that discovery adds.\<close>

record discovery_spec =
  ds_namespace :: string
  ds_component :: string
  ds_endpoint :: string
  ds_transport :: transport_type
  ds_device :: "device_type option"
  ds_codec :: "string option"

datatype discovery_instance = DI_Endpoint endpoint_instance | DI_Other

datatype runtime_call =
    Bind_Endpoint endpoint_id
  | Add_Metrics endpoint_id "(string \<times> string) list option"
  | Local_Register string
  | Health_Target string endpoint_instance json
  | Set_Notifier string
  | Server_Register endpoint_id u64
  | Server_Unregister endpoint_id u64
  | Server_Unregister_Name string
  | Tracker_Register
  | Tracker_Unregister
  | Discovery_Register discovery_spec
  | Discovery_Unregister discovery_instance

type_synonym call_log = "runtime_call history"

datatype endpoint_error =
    Runtime_Error string
  | Health_Engine_Missing string
  | Discovery_Unavailable
  | Unregister_Unavailable
  | Reregister_Unavailable
  | Non_Endpoint_Instance

record 'g runtime_lib =
  rl_mode :: request_plane_mode
  rl_connection :: u64
  rl_server :: "'g \<Rightarrow> string + 'g"
  rl_address :: "'g \<Rightarrow> string + string"
  rl_port :: "'g \<Rightarrow> string + nat"
  rl_host :: string
  rl_env :: "string \<Rightarrow> string option"
  rl_codec :: string
  rl_instance_path :: "endpoint_id \<Rightarrow> u64 \<Rightarrow> string"
  rl_instance_subject :: "endpoint_id \<Rightarrow> u64 \<Rightarrow> string"
  rl_health_enabled :: "call_log \<Rightarrow> bool"
  rl_local_engine :: "call_log \<Rightarrow> string \<Rightarrow> bool"
  rl_notifier :: "call_log \<Rightarrow> string \<Rightarrow> bool"
  rl_answer :: "runtime_call \<Rightarrow> call_log \<Rightarrow> string option"
  rl_discover :: "discovery_spec \<Rightarrow> call_log \<Rightarrow> string + discovery_instance"

record 'g endpoint_world =
  ew_global :: 'g
  ew_log :: call_log

record endpoint_config =
  ec_endpoint :: endpoint_id
  ec_labels :: "(string \<times> string) list option"
  ec_graceful :: bool
  ec_health :: "json option"

record started_endpoint =
  se_instance :: endpoint_instance
  se_discovered :: discovery_instance
  se_tracked :: bool

section \<open>Fallible steps on the world\<close>

type_synonym ('g, 'a) step = "('g endpoint_world, endpoint_error, 'a) eff"

definition note_call :: "runtime_call \<Rightarrow> bool \<Rightarrow> 'g endpoint_world \<Rightarrow> 'g endpoint_world" where
  "note_call c ok w = w\<lparr>ew_log := (c, ok) # ew_log w\<rparr>"

text \<open>A call whose error is the caller's, and a call whose error is only logged.\<close>

definition call :: "'g runtime_lib \<Rightarrow> runtime_call \<Rightarrow> ('g, unit) step" where
  "call L c w =
     (case rl_answer L c (ew_log w) of
        None \<Rightarrow> (Inr (), note_call c True w)
      | Some e \<Rightarrow> (Inl (Runtime_Error e), note_call c False w))"

definition attempt :: "'g runtime_lib \<Rightarrow> runtime_call \<Rightarrow> 'g endpoint_world \<Rightarrow> 'g endpoint_world" where
  "attempt L c w = note_call c (rl_answer L c (ew_log w) = None) w"

definition perform :: "runtime_call \<Rightarrow> 'g endpoint_world \<Rightarrow> 'g endpoint_world" where
  "perform c w = note_call c True w"

definition request_plane_server :: "'g runtime_lib \<Rightarrow> ('g, unit) step" where
  "request_plane_server L w =
     (case rl_server L (ew_global w) of
        Inl e \<Rightarrow> (Inl (Runtime_Error e), w)
      | Inr g \<Rightarrow> (Inr (), w\<lparr>ew_global := g\<rparr>))"

section \<open>Device and transport\<close>

text \<open>\<open>str::to_ascii_lowercase\<close>.\<close>

definition to_ascii_lowercase :: "string \<Rightarrow> string" where
  "to_ascii_lowercase = map ascii_lower"

definition endpoint_device_type :: "'g runtime_lib \<Rightarrow> device_type option" where
  "endpoint_device_type L =
     (let shown = (\<lambda>v. to_ascii_lowercase (trim v)) in
      if is_some_and (\<lambda>v. shown v = [] \<or> shown v = ''-1'' \<or> shown v = ''none'' \<or> shown v = ''void'')
           (rl_env L ''CUDA_VISIBLE_DEVICES'') then Some Device_Cpu
      else if is_some_and (\<lambda>v. shown v = ''none'' \<or> shown v = ''void'') (rl_env L ''NVIDIA_VISIBLE_DEVICES'')
      then Some Device_Cpu
      else Some Device_Cuda)"

definition tcp_transport_type :: "'g runtime_lib \<Rightarrow> string \<Rightarrow> endpoint_id \<Rightarrow> u64 \<Rightarrow> transport_type" where
  "tcp_transport_type L address i conn = TT_Tcp (address @ ''/'' @ rl_instance_path L i conn)"

definition build_transport_type_inner :: "'g runtime_lib \<Rightarrow> 'g \<Rightarrow> endpoint_id \<Rightarrow> u64 \<Rightarrow> string + transport_type" where
  "build_transport_type_inner L g i conn =
     (case rl_mode L of
        RPM_Tcp \<Rightarrow> map_sum id (\<lambda>a. tcp_transport_type L a i conn) (rl_address L g)
      | RPM_Nats \<Rightarrow> Inr (TT_Nats (rl_instance_subject L i conn)))"

definition build_transport_type :: "'g runtime_lib \<Rightarrow> endpoint_id \<Rightarrow> u64 \<Rightarrow> ('g, transport_type) step" where
  "build_transport_type L i conn =
     and_then (if rl_mode L = RPM_Tcp then request_plane_server L else Pair (Inr ()))
       (\<lambda>_ w. (map_sum Runtime_Error id (build_transport_type_inner L (ew_global w) i conn), w))"

subsection \<open>The released version\<close>

text \<open>\<open>str::parse::<u16>\<close>: an optional plus sign and at least one digit, at most 65535.\<close>

definition digit_value :: "char \<Rightarrow> nat option" where
  "digit_value c = (let n = of_char c :: nat in then_some (48 \<le> n \<and> n \<le> 57) (n - 48))"

fun parse_digits :: "nat \<Rightarrow> string \<Rightarrow> nat option" where
  "parse_digits acc [] = Some acc"
| "parse_digits acc (c # s) =
     (case digit_value c of
        None \<Rightarrow> None
      | Some d \<Rightarrow> let n = 10 * acc + d in if n \<le> 65535 then parse_digits n s else None)"

fun parse_u16 :: "string \<Rightarrow> nat option" where
  "parse_u16 [] = None"
| "parse_u16 (c # s) =
     (if c = CHR ''+'' then (if s = [] then None else parse_digits 0 s) else parse_digits 0 (c # s))"

definition fixed_port :: "'g runtime_lib \<Rightarrow> nat option" where
  "fixed_port L = opt_filter (\<lambda>p. p \<noteq> 0) (Option.bind (rl_env L ''DYN_TCP_RPC_PORT'') parse_u16)"

text \<open>The \<open>Display\<close> and \<open>LowerHex\<close> forms of an unsigned number.\<close>

definition radix_digit :: "nat \<Rightarrow> char" where
  "radix_digit n = (if n < 10 then char_of (48 + n) else char_of (87 + n))"

fun radix_string :: "nat \<Rightarrow> nat \<Rightarrow> string" where
  "radix_string b n =
     (if b < 2 \<or> n < b then [radix_digit n] else radix_string b (n div b) @ [radix_digit (n mod b)])"

definition release_tcp_endpoint :: "string \<Rightarrow> nat \<Rightarrow> u64 \<Rightarrow> string \<Rightarrow> string" where
  "release_tcp_endpoint host port conn name =
     host @ '':'' @ radix_string 10 port @ ''/'' @ radix_string 16 (unat conn) @ ''/'' @ name"

text \<open>The argument of \<open>unwrap_or\<close> is evaluated, and its error returned, before the option is looked at.\<close>

definition release_build_transport_type_inner ::
  "'g runtime_lib \<Rightarrow> 'g \<Rightarrow> endpoint_id \<Rightarrow> u64 \<Rightarrow> string + transport_type" where
  "release_build_transport_type_inner L g i conn =
     (case rl_mode L of
        RPM_Tcp \<Rightarrow>
          map_sum id (\<lambda>bound. TT_Tcp (release_tcp_endpoint (rl_host L) (unwrap_or bound (fixed_port L)) conn (ei_name i)))
            (rl_port L g)
      | RPM_Nats \<Rightarrow> Inr (TT_Nats (rl_instance_subject L i conn)))"

definition release_build_transport_type :: "'g runtime_lib \<Rightarrow> endpoint_id \<Rightarrow> u64 \<Rightarrow> ('g, transport_type) step" where
  "release_build_transport_type L i conn =
     (let has_fixed_port = (case rl_mode L of RPM_Tcp \<Rightarrow> is_some (fixed_port L) | RPM_Nats \<Rightarrow> True) in
      and_then (if \<not> has_fixed_port then request_plane_server L else Pair (Inr ()))
        (\<lambda>_ w. (map_sum Runtime_Error id (release_build_transport_type_inner L (ew_global w) i conn), w)))"

section \<open>Starting an endpoint\<close>

text \<open>What differs between the two versions of the file.\<close>

record 'g endpoint_version =
  ev_binds_handler :: bool
  ev_transport :: "'g runtime_lib \<Rightarrow> endpoint_id \<Rightarrow> u64 \<Rightarrow> ('g, transport_type) step"
  ev_unregister :: "endpoint_id \<Rightarrow> u64 \<Rightarrow> runtime_call"

definition main_version :: "'g endpoint_version" where
  "main_version = \<lparr>ev_binds_handler = True, ev_transport = build_transport_type, ev_unregister = Server_Unregister\<rparr>"

definition release_version :: "'g endpoint_version" where
  "release_version = \<lparr>ev_binds_handler = False, ev_transport = release_build_transport_type,
     ev_unregister = (\<lambda>i _. Server_Unregister_Name (ei_name i))\<rparr>"

definition endpoint_instance_of :: "'g runtime_lib \<Rightarrow> endpoint_id \<Rightarrow> transport_type \<Rightarrow> endpoint_instance" where
  "endpoint_instance_of L i t =
     \<lparr>in_component = ei_component i, in_endpoint = ei_name i, in_namespace = ei_namespace i, in_instance_id = rl_connection L,
      in_transport = t, in_device = endpoint_device_type L, in_codec = Some (rl_codec L)\<rparr>"

definition endpoint_spec_of :: "'g runtime_lib \<Rightarrow> endpoint_id \<Rightarrow> transport_type \<Rightarrow> discovery_spec" where
  "endpoint_spec_of L i t =
     \<lparr>ds_namespace = ei_namespace i, ds_component = ei_component i, ds_endpoint = ei_name i, ds_transport = t,
      ds_device = endpoint_device_type L, ds_codec = Some (rl_codec L)\<rparr>"

definition register_local_engine :: "endpoint_id option \<Rightarrow> 'g endpoint_world \<Rightarrow> 'g endpoint_world" where
  "register_local_engine endpoint w =
     (case endpoint of Some i \<Rightarrow> perform (Local_Register (ei_name i)) w | None \<Rightarrow> w)"

definition register_health_target :: "'g runtime_lib \<Rightarrow> endpoint_config \<Rightarrow> transport_type \<Rightarrow> ('g, unit) step" where
  "register_health_target L cfg t w =
     (let i = ec_endpoint cfg in
      case ec_health cfg of
        None \<Rightarrow> (Inr (), w)
      | Some payload \<Rightarrow>
          if rl_health_enabled L (ew_log w) \<and> \<not> rl_local_engine L (ew_log w) (ei_name i)
          then (Inl (Health_Engine_Missing (ei_name i)), w)
          else
            let w1 = perform (Health_Target (ei_name i) (endpoint_instance_of L i t) payload) w in
            if rl_notifier L (ew_log w1) (ei_name i) then call L (Set_Notifier (ei_name i)) w1 else (Inr (), w1))"

definition track_endpoint :: "bool \<Rightarrow> 'g endpoint_world \<Rightarrow> 'g endpoint_world" where
  "track_endpoint graceful w = (if graceful then perform Tracker_Register w else w)"

definition untrack_endpoint :: "bool \<Rightarrow> 'g endpoint_world \<Rightarrow> 'g endpoint_world" where
  "untrack_endpoint tracked w = (if tracked then perform Tracker_Unregister w else w)"

definition announce_endpoint ::
  "'g endpoint_version \<Rightarrow> 'g runtime_lib \<Rightarrow> endpoint_config \<Rightarrow> transport_type \<Rightarrow> ('g, started_endpoint) step" where
  "announce_endpoint V L cfg t w =
     (let i = ec_endpoint cfg;
          spec = endpoint_spec_of L i t in
      case rl_discover L spec (ew_log w) of
        Inl e \<Rightarrow>
          (Inl Discovery_Unavailable,
           untrack_endpoint (ec_graceful cfg)
             (attempt L (ev_unregister V i (rl_connection L)) (note_call (Discovery_Register spec) False w)))
      | Inr d \<Rightarrow>
          (case d of
             DI_Endpoint inst \<Rightarrow> Inr \<lparr>se_instance = inst, se_discovered = d, se_tracked = ec_graceful cfg\<rparr>
           | DI_Other \<Rightarrow> Inl Non_Endpoint_Instance,
           note_call (Discovery_Register spec) True w))"

text \<open>Up to the registration with the server: the handler, the server, the transport and the health check.\<close>

definition prepare_endpoint :: "'g endpoint_version \<Rightarrow> 'g runtime_lib \<Rightarrow> endpoint_config \<Rightarrow> ('g, transport_type) step" where
  "prepare_endpoint V L cfg =
     (let i = ec_endpoint cfg in
      and_then (\<lambda>w. (Inr (), if ev_binds_handler V then perform (Bind_Endpoint i) w else w))
        (\<lambda>_. and_then (call L (Add_Metrics i (ec_labels cfg)))
          (\<lambda>_. and_then (request_plane_server L)
            (\<lambda>_. and_then (ev_transport V L i (rl_connection L))
              (\<lambda>t. and_then (register_health_target L cfg t) (\<lambda>_. Pair (Inr t)))))))"

definition start_endpoint ::
  "'g endpoint_version \<Rightarrow> 'g runtime_lib \<Rightarrow> endpoint_config \<Rightarrow> ('g, started_endpoint) step" where
  "start_endpoint V L cfg =
     and_then (prepare_endpoint V L cfg)
       (\<lambda>t. and_then (call L (Server_Register (ec_endpoint cfg) (rl_connection L)))
         (\<lambda>_ w. announce_endpoint V L cfg t (track_endpoint (ec_graceful cfg) w)))"

definition start_with_registration :: "'g runtime_lib \<Rightarrow> endpoint_config \<Rightarrow> ('g, started_endpoint) step" where
  "start_with_registration = start_endpoint main_version"

definition release_start_with_registration :: "'g runtime_lib \<Rightarrow> endpoint_config \<Rightarrow> ('g, started_endpoint) step" where
  "release_start_with_registration = start_endpoint release_version"

text \<open>
  The task a started endpoint owns runs this when its token is cancelled: by \<open>shutdown\<close>, or by
  the shutdown of the runtime that \<open>wait\<close> waits for.  Its failures are only logged.
\<close>

definition endpoint_cleanup ::
  "'g endpoint_version \<Rightarrow> 'g runtime_lib \<Rightarrow> endpoint_id \<Rightarrow> started_endpoint \<Rightarrow> 'g endpoint_world \<Rightarrow> 'g endpoint_world" where
  "endpoint_cleanup V L i se w =
     untrack_endpoint (se_tracked se)
       (attempt L (ev_unregister V i (rl_connection L)) (attempt L (Discovery_Unregister (se_discovered se)) w))"

definition started_shutdown :: "'g runtime_lib \<Rightarrow> endpoint_id \<Rightarrow> started_endpoint \<Rightarrow> 'g endpoint_world \<Rightarrow> 'g endpoint_world" where
  "started_shutdown = endpoint_cleanup main_version"

definition release_started_shutdown ::
  "'g runtime_lib \<Rightarrow> endpoint_id \<Rightarrow> started_endpoint \<Rightarrow> 'g endpoint_world \<Rightarrow> 'g endpoint_world" where
  "release_started_shutdown = endpoint_cleanup release_version"

text \<open>Taking an instance out of the routing pool while its worker sleeps, and putting it back.\<close>

definition unregister_endpoint_instance ::
  "'g endpoint_version \<Rightarrow> 'g runtime_lib \<Rightarrow> endpoint_id \<Rightarrow> ('g, unit) step" where
  "unregister_endpoint_instance V L i =
     and_then (ev_transport V L i (rl_connection L))
       (\<lambda>t w. case call L (Discovery_Unregister (DI_Endpoint (endpoint_instance_of L i t))) w of
                (Inl _, w') \<Rightarrow> (Inl Unregister_Unavailable, w')
              | (Inr _, w') \<Rightarrow> (Inr (), w'))"

definition register_endpoint_instance ::
  "'g endpoint_version \<Rightarrow> 'g runtime_lib \<Rightarrow> endpoint_id \<Rightarrow> ('g, unit) step" where
  "register_endpoint_instance V L i =
     and_then (ev_transport V L i (rl_connection L))
       (\<lambda>t w. let spec = endpoint_spec_of L i t in
              case rl_discover L spec (ew_log w) of
                Inl _ \<Rightarrow> (Inl Reregister_Unavailable, note_call (Discovery_Register spec) False w)
              | Inr _ \<Rightarrow> (Inr (), note_call (Discovery_Register spec) True w))"

section \<open>What a history of calls amounts to\<close>

text \<open>
  Whether the request plane server has the endpoint under this connection, whether discovery
  advertises it, and how many endpoints the shutdown tracker waits for.  A failed call changes
  nothing.
\<close>

fun served :: "endpoint_id \<Rightarrow> u64 \<Rightarrow> call_log \<Rightarrow> bool" where
  "served i c ((Server_Register i' c', True) # l) = (i' = i \<and> c' = c \<or> served i c l)"
| "served i c ((Server_Unregister i' c', True) # l) = (\<not> (i' = i \<and> c' = c) \<and> served i c l)"
| "served i c (e # l) = served i c l"
| "served i c [] = False"

definition names_instance :: "endpoint_id \<Rightarrow> endpoint_instance \<Rightarrow> bool" where
  "names_instance i inst =
     (in_namespace inst = ei_namespace i \<and> in_component inst = ei_component i \<and> in_endpoint inst = ei_name i)"

definition names_spec :: "endpoint_id \<Rightarrow> discovery_spec \<Rightarrow> bool" where
  "names_spec i spec =
     (ds_namespace spec = ei_namespace i \<and> ds_component spec = ei_component i \<and> ds_endpoint spec = ei_name i)"

fun advertised :: "endpoint_id \<Rightarrow> call_log \<Rightarrow> bool" where
  "advertised i ((Discovery_Register spec, True) # l) = (names_spec i spec \<or> advertised i l)"
| "advertised i ((Discovery_Unregister (DI_Endpoint inst), True) # l) = (\<not> names_instance i inst \<and> advertised i l)"
| "advertised i (e # l) = advertised i l"
| "advertised i [] = False"

fun tracked :: "call_log \<Rightarrow> int" where
  "tracked ((Tracker_Register, True) # l) = tracked l + 1"
| "tracked ((Tracker_Unregister, True) # l) = tracked l - 1"
| "tracked (e # l) = tracked l"
| "tracked [] = 0"

text \<open>At every moment of the history, an advertised endpoint is served.\<close>

fun always_callable :: "endpoint_id \<Rightarrow> u64 \<Rightarrow> call_log \<Rightarrow> bool" where
  "always_callable i c [] = True"
| "always_callable i c (e # l) = ((advertised i (e # l) \<longrightarrow> served i c (e # l)) \<and> always_callable i c l)"

fun neutral :: "runtime_call \<Rightarrow> bool" where
  "neutral (Server_Register _ _) = False"
| "neutral (Server_Unregister _ _) = False"
| "neutral (Tracker_Register) = False"
| "neutral (Tracker_Unregister) = False"
| "neutral (Discovery_Register _) = False"
| "neutral (Discovery_Unregister _) = False"
| "neutral _ = True"

text \<open>Discovery returns an instance of the endpoint it was asked to register.\<close>

definition faithful_discovery :: "'g runtime_lib \<Rightarrow> bool" where
  "faithful_discovery L =
     (\<forall>i spec l inst. names_spec i spec \<longrightarrow> rl_discover L spec l = Inr (DI_Endpoint inst) \<longrightarrow> names_instance i inst)"

section \<open>Lemmas\<close>

lemma neutral_entry:
  assumes "neutral (fst e)"
  shows "served i c (e # l) = served i c l" "advertised i (e # l) = advertised i l" "tracked (e # l) = tracked l"
  using assms by (cases e; cases "fst e"; cases "snd e"; auto)+

lemma failed_entry:
  "served i c ((k, False) # l) = served i c l" "advertised i ((k, False) # l) = advertised i l"
  "tracked ((k, False) # l) = tracked l"
  by (cases k; simp)+

lemma neutral_entries:
  assumes "list_all (\<lambda>e. neutral (fst e)) pre"
  shows "served i c (pre @ l) = served i c l" "advertised i (pre @ l) = advertised i l" "tracked (pre @ l) = tracked l"
  using assms by (induction pre) (simp_all add: neutral_entry)

lemma hidden_is_callable:
  "always_callable i c l \<Longrightarrow> \<not> advertised i l \<Longrightarrow> list_all (\<lambda>e. neutral (fst e)) pre \<Longrightarrow> always_callable i c (pre @ l)"
  by (induction pre) (simp_all add: neutral_entry neutral_entries)

lemma call_cases:
  assumes "call L k w = (r, w')"
  obtains (good) "r = Inr ()" "ew_log w' = (k, True) # ew_log w" | (bad) e where "r = Inl e" "ew_log w' = (k, False) # ew_log w"
  using assms by (auto simp: call_def note_call_def split: option.splits)

text \<open>A step is quiet when it only adds neutral calls to the history.\<close>

abbreviation quiet :: "('g, 'a) step \<Rightarrow> bool" where
  "quiet \<equiv> extends_by neutral ew_log"

lemmas quietI = extends_byI [where P = neutral and hist = ew_log]
lemmas quietE = extends_byE [where P = neutral and hist = ew_log]
lemmas quiet_and_then = extends_by_and_then [where P = neutral and hist = ew_log]
lemmas quiet_same = extends_by_same [where P = neutral and hist = ew_log]

lemma quiet_call: "neutral k \<Longrightarrow> quiet (call L k)"
  by (rule quietI) (auto simp: call_def note_call_def split: option.splits)

lemma quiet_server: "quiet (request_plane_server L)"
  by (rule quiet_same) (simp add: request_plane_server_def split: sum.splits)

lemma quiet_transport: "quiet (build_transport_type L i c)" "quiet (release_build_transport_type L i c)"
  unfolding build_transport_type_def release_build_transport_type_def Let_def
  by (rule quiet_and_then; auto intro: quiet_server quiet_same)+

lemma quiet_health: "quiet (register_health_target L cfg t)"
proof (rule quietI)
  fix w r w'
  let ?i = "ec_endpoint cfg"
  let ?h = "\<lambda>payload. Health_Target (ei_name ?i) (endpoint_instance_of L ?i t) payload"
  assume "register_health_target L cfg t w = (r, w')"
  then consider (same) "w' = w" | (noted) payload where "w' = perform (?h payload) w"
    | (notified) payload where "call L (Set_Notifier (ei_name ?i)) (perform (?h payload) w) = (r, w')"
    by (auto simp: register_health_target_def Let_def split: if_splits option.splits)
  then show "\<exists>pre. ew_log w' = pre @ ew_log w \<and> list_all (\<lambda>e. neutral (fst e)) pre"
    by cases (auto simp: perform_def note_call_def elim!: call_cases)
qed

lemma quiet_prepare:
  assumes "\<And>i c. quiet (ev_transport V L i c)"
  shows "quiet (prepare_endpoint V L cfg)"
  unfolding prepare_endpoint_def Let_def
  by (intro quiet_and_then quiet_call quiet_server quiet_health assms quiet_same quietI)
    (auto simp: perform_def note_call_def)

lemma start_endpoint_cases:
  assumes "start_endpoint V L cfg w = (r, w')" "\<And>i c. quiet (ev_transport V L i c)"
  obtains (early) e pre where "r = Inl e" "ew_log w' = pre @ ew_log w" "list_all (\<lambda>e. neutral (fst e)) pre"
  | (refused) e pre where "r = Inl e" "ew_log w' = (Server_Register (ec_endpoint cfg) (rl_connection L), False) # pre @ ew_log w"
      "list_all (\<lambda>e. neutral (fst e)) pre"
  | (announced) pre t w1 where "list_all (\<lambda>e. neutral (fst e)) pre"
      "ew_log w1 = (Server_Register (ec_endpoint cfg) (rl_connection L), True) # pre @ ew_log w"
      "announce_endpoint V L cfg t (track_endpoint (ec_graceful cfg) w1) = (r, w')"
  using assms(1) unfolding start_endpoint_def
proof (cases rule: and_then_cases)
  case (fails e)
  then show thesis using early by (auto elim: quietE [OF quiet_prepare [OF assms(2)]])
next
  case (continues t w1)
  from quietE [OF quiet_prepare [OF assms(2)] continues(1)] obtain pre
    where "ew_log w1 = pre @ ew_log w" "list_all (\<lambda>e. neutral (fst e)) pre" .
  with continues(2) refused announced show thesis
    by (cases rule: and_then_cases) (auto elim: call_cases)
qed

lemma versions [simp]:
  "ev_transport main_version = build_transport_type" "ev_transport release_version = release_build_transport_type"
  "ev_unregister main_version = Server_Unregister"
  "ev_unregister release_version = (\<lambda>i _. Server_Unregister_Name (ei_name i))"
  by (simp_all add: main_version_def release_version_def)

lemma spec_names [simp]: "names_spec i (endpoint_spec_of L i t)"
  by (simp add: names_spec_def endpoint_spec_of_def)

lemma track_log:
  "served i c (ew_log (track_endpoint g w)) = served i c (ew_log w)"
  "advertised i (ew_log (track_endpoint g w)) = advertised i (ew_log w)"
  "tracked (ew_log (track_endpoint g w)) = tracked (ew_log w) + (if g then 1 else 0)"
  "always_callable i c (ew_log (track_endpoint g w)) = (always_callable i c (ew_log w) \<and> (g \<and> advertised i (ew_log w) \<longrightarrow> served i c (ew_log w)))"
  by (auto simp: track_endpoint_def perform_def note_call_def)

lemma untrack_log:
  "served i c (ew_log (untrack_endpoint g w)) = served i c (ew_log w)"
  "advertised i (ew_log (untrack_endpoint g w)) = advertised i (ew_log w)"
  "tracked (ew_log (untrack_endpoint g w)) = tracked (ew_log w) - (if g then 1 else 0)"
  "always_callable i c (ew_log (untrack_endpoint g w)) = (always_callable i c (ew_log w) \<and> (g \<and> advertised i (ew_log w) \<longrightarrow> served i c (ew_log w)))"
  by (auto simp: untrack_endpoint_def perform_def note_call_def)

lemmas log_simps = track_log untrack_log attempt_def note_call_def failed_entry

text \<open>Announcing a served, hidden endpoint, and cleaning up after it.\<close>

lemma announce_callable:
  assumes "announce_endpoint main_version L cfg t w = (r, w')" "i = ec_endpoint cfg" "c = rl_connection L"
    and "always_callable i c (ew_log w)" "served i c (ew_log w)" "\<not> advertised i (ew_log w)"
  shows "always_callable i c (ew_log w')"
    and "r = Inr se \<Longrightarrow> served i c (ew_log w') \<and> advertised i (ew_log w')"
    and "r = Inl e \<Longrightarrow> e \<noteq> Non_Endpoint_Instance \<Longrightarrow> \<not> advertised i (ew_log w')"
  using assms
  by (auto simp: announce_endpoint_def Let_def log_simps split: sum.splits discovery_instance.splits)

lemma announce_instance:
  assumes "announce_endpoint V L cfg t w = (Inr se, w')" "faithful_discovery L"
  obtains inst where "se_discovered se = DI_Endpoint inst" "names_instance (ec_endpoint cfg) inst" "se_tracked se = ec_graceful cfg"
  using assms
  by (auto simp: announce_endpoint_def Let_def faithful_discovery_def split: sum.splits discovery_instance.splits)
    (meson spec_names)

lemma shutdown_callable:
  assumes "se_discovered se = DI_Endpoint inst" "names_instance i inst" "always_callable i (rl_connection L) (ew_log w)"
    and "rl_answer L (Discovery_Unregister (se_discovered se)) (ew_log w) = None"
  shows "always_callable i (rl_connection L) (ew_log (started_shutdown L i se w))" "\<not> advertised i (ew_log (started_shutdown L i se w))"
proof -
  have "\<not> advertised i ((Server_Unregister i' c', b) # (Discovery_Unregister (se_discovered se), True) # ew_log w)" for i' c' b
    using assms(1,2) by (cases b) simp_all
  moreover have "\<not> advertised i ((Discovery_Unregister (se_discovered se), True) # ew_log w)"
    using assms(1,2) by simp
  ultimately show "always_callable i (rl_connection L) (ew_log (started_shutdown L i se w))"
    "\<not> advertised i (ew_log (started_shutdown L i se w))"
    using assms(3,4) by (simp_all add: started_shutdown_def endpoint_cleanup_def untrack_log attempt_def note_call_def)
qed


definition untracked_call :: "runtime_call \<Rightarrow> bool" where
  "untracked_call k = (k \<noteq> Tracker_Register \<and> k \<noteq> Tracker_Unregister)"

lemma untracked_entry: "untracked_call k \<Longrightarrow> tracked ((k, ok) # l) = tracked l"
  by (cases k; cases ok) (simp_all add: untracked_call_def)

lemma announce_tracked:
  assumes "announce_endpoint V L cfg t (track_endpoint (ec_graceful cfg) w) = (r, w1)" "\<And>i c. untracked_call (ev_unregister V i c)"
  shows "(\<forall>e. r = Inl e \<longrightarrow> e \<noteq> Non_Endpoint_Instance \<longrightarrow> tracked (ew_log w1) = tracked (ew_log w))
    \<and> (\<forall>se. r = Inr se \<longrightarrow> tracked (ew_log w1) = tracked (ew_log w) + (if ec_graceful cfg then 1 else 0)
        \<and> se_tracked se = ec_graceful cfg)"
  using assms
  by (auto simp: announce_endpoint_def Let_def log_simps untracked_entry split: sum.splits discovery_instance.splits)

lemma cleanup_tracked:
  assumes "\<And>i c. untracked_call (ev_unregister V i c)"
  shows "tracked (ew_log (endpoint_cleanup V L i se w)) = tracked (ew_log w) - (if se_tracked se then 1 else 0)"
  using assms by (simp add: endpoint_cleanup_def log_simps untracked_entry)

lemma start_tracked:
  assumes "start_endpoint V L cfg w = (r, w1)" "\<And>i c. quiet (ev_transport V L i c)"
    and u: "\<And>i c. untracked_call (ev_unregister V i c)"
  shows "(\<forall>e. r = Inl e \<longrightarrow> e \<noteq> Non_Endpoint_Instance \<longrightarrow> tracked (ew_log w1) = tracked (ew_log w))
    \<and> (\<forall>se. r = Inr se \<longrightarrow> tracked (ew_log w1) = tracked (ew_log w) + (if ec_graceful cfg then 1 else 0)
        \<and> tracked (ew_log (endpoint_cleanup V L i se w1)) = tracked (ew_log w))"
  using assms(1,2)
proof (cases rule: start_endpoint_cases)
  case (announced pre t w2)
  then show ?thesis
    using announce_tracked [OF announced(3) u] by (auto simp: neutral_entries cleanup_tracked [OF u])
qed (simp_all add: neutral_entries)

text \<open>
  The shutdown tracker of the runtime is balanced, in both versions: a start that fails leaves
  its count as it was, a successful start raises it by one exactly for an endpoint with graceful
  shutdown, and the clean-up lowers it again, whatever discovery and the server answer.
\<close>

lemma shutdown_tracker_balanced:
  assumes "(start_with_registration L cfg w = (r, w1) \<and> stop = started_shutdown L i)
    \<or> (release_start_with_registration L cfg w = (r, w1) \<and> stop = release_started_shutdown L i)"
  shows "(\<forall>e. r = Inl e \<longrightarrow> e \<noteq> Non_Endpoint_Instance \<longrightarrow> tracked (ew_log w1) = tracked (ew_log w))
    \<and> (\<forall>se. r = Inr se \<longrightarrow> tracked (ew_log w1) = tracked (ew_log w) + (if ec_graceful cfg then 1 else 0)
        \<and> tracked (ew_log (stop se w1)) = tracked (ew_log w))"
proof -
  have "untracked_call (ev_unregister main_version j d)" "untracked_call (ev_unregister release_version j d)" for j d
    by (simp_all add: untracked_call_def)
  then show ?thesis
    using assms start_tracked [of main_version L cfg w r w1 i] start_tracked [of release_version L cfg w r w1 i]
    by (auto simp: start_with_registration_def release_start_with_registration_def started_shutdown_def
        release_started_shutdown_def quiet_transport)
qed

text \<open>
  C40. In the main version an endpoint in TCP mode gets an address whenever the request plane server
  can be started, fixed port or not.  In the released version a fixed port makes the same call fail
  as long as nothing else has started the server: the server is not started, and the lookup of the
  bound port, which the fixed port makes superfluous, is evaluated all the same.
\<close>

theorem fixed_port_needs_bound_server:
  assumes "rl_mode L = RPM_Tcp"
    and "\<And>g g'. rl_server L g = Inr g' \<Longrightarrow> \<exists>a. rl_address L g' = Inr a"
    and "rl_server L (ew_global w) = Inr g1"
    and "fixed_port L = Some p" "rl_port L (ew_global w) = Inl e"
  shows "(\<exists>t. fst (build_transport_type L i c w) = Inr t)
    \<and> release_build_transport_type L i c w = (Inl (Runtime_Error e), w)"
proof
  obtain a where "rl_address L g1 = Inr a" using assms(2,3) by blast
  then show "\<exists>t. fst (build_transport_type L i c w) = Inr t"
    using assms(1,3)
    by (simp add: build_transport_type_def and_then_def request_plane_server_def build_transport_type_inner_def)
  show "release_build_transport_type L i c w = (Inl (Runtime_Error e), w)"
    using assms(1,4,5) by (simp add: release_build_transport_type_def release_build_transport_type_inner_def and_then_def)
qed

section \<open>Addresses of the released version\<close>

declare radix_string.simps [simp del]

definition radix_digit_value :: "char \<Rightarrow> nat" where
  "radix_digit_value c = (let n = of_char c in if n \<le> 57 then n - 48 else n - 87)"

definition radix_value :: "nat \<Rightarrow> string \<Rightarrow> nat" where
  "radix_value b = foldl (\<lambda>a c. b * a + radix_digit_value c) 0"

lemma radix_digit_value: "n < 16 \<Longrightarrow> radix_digit_value (radix_digit n) = n"
  by (auto simp: radix_digit_value_def radix_digit_def Let_def)

lemma radix_digit_no_slash: "n < 16 \<Longrightarrow> radix_digit n \<noteq> CHR ''/''"
proof
  assume "n < 16" "radix_digit n = CHR ''/''"
  then have "n = radix_digit_value (CHR ''/'')" using radix_digit_value by metis
  then have "n = 0" by (simp add: radix_digit_value_def)
  with \<open>radix_digit n = CHR ''/''\<close> show False by (simp add: radix_digit_def char_of_def)
qed

lemma radix_string_value: "2 \<le> b \<Longrightarrow> b \<le> 16 \<Longrightarrow> radix_value b (radix_string b n) = n"
proof (induction b n rule: radix_string.induct)
  case (1 b n)
  then have "n mod b < 16" using mod_less_divisor [of b n] by linarith
  with 1 show ?case
    by (subst radix_string.simps) (auto simp: radix_value_def radix_digit_value not_less)
qed

lemma radix_string_no_slash: "2 \<le> b \<Longrightarrow> b \<le> 16 \<Longrightarrow> CHR ''/'' \<notin> set (radix_string b n)"
proof (induction b n rule: radix_string.induct)
  case (1 b n)
  then have "n mod b < 16" using mod_less_divisor [of b n] by linarith
  with 1 show ?case
    using radix_digit_no_slash [of n] radix_digit_no_slash [of "n mod b"]
    by (subst radix_string.simps) (auto simp: not_less)
qed

lemma split_at_slash:
  "CHR ''/'' \<notin> set xs \<Longrightarrow> CHR ''/'' \<notin> set ys \<Longrightarrow> xs @ CHR ''/'' # a = ys @ CHR ''/'' # b \<Longrightarrow> xs = ys \<and> a = b"
proof (induction xs arbitrary: ys)
  case Nil
  then show ?case by (cases ys) auto
next
  case (Cons x xs)
  then show ?case by (cases ys) auto
qed

text \<open>
  Workers that share one TCP server of the released version have different routing keys: on the
  same host and port, two advertised addresses are equal only for the same connection and endpoint
  name.
\<close>

lemma release_routing_keys_unique:
  "release_tcp_endpoint host port c n = release_tcp_endpoint host port c' n' \<longleftrightarrow> c = c' \<and> n = n'"
proof
  assume "release_tcp_endpoint host port c n = release_tcp_endpoint host port c' n'"
  then have "radix_string 16 (unat c) @ CHR ''/'' # n = radix_string 16 (unat c') @ CHR ''/'' # n'"
    by (simp add: release_tcp_endpoint_def)
  then have "radix_string 16 (unat c) = radix_string 16 (unat c') \<and> n = n'"
    by (intro split_at_slash) (simp_all add: radix_string_no_slash)
  moreover from this have "radix_value 16 (radix_string 16 (unat c)) = radix_value 16 (radix_string 16 (unat c'))"
    by (simp only:)
  then have "unat c = unat c'" by (simp add: radix_string_value)
  ultimately show "c = c' \<and> n = n'" by (simp add: word_unat_eq_iff)
qed simp

lemma parse_digits_append:
  "parse_digits a (s @ t) = Option.bind (parse_digits a s) (\<lambda>b. parse_digits b t)"
  by (induction a s rule: parse_digits.induct) (auto simp: Let_def split: option.splits)

lemma digit_value_radix: "n < 10 \<Longrightarrow> digit_value (radix_digit n) = Some n"
  by (simp add: digit_value_def radix_digit_def Let_def)

lemma parse_digits_radix: "n \<le> 65535 \<Longrightarrow> parse_digits 0 (radix_string 10 n) = Some n"
proof (induction n rule: less_induct)
  case (less n)
  show ?case
  proof (cases "n < 10")
    case True
    then show ?thesis by (subst radix_string.simps) (simp add: digit_value_radix)
  next
    case False
    then have "parse_digits 0 (radix_string 10 (n div 10)) = Some (n div 10)" using less by simp
    with False less.prems show ?thesis
      by (subst radix_string.simps) (simp add: parse_digits_append digit_value_radix)
  qed
qed

lemma radix_string_first: "\<exists>d s. d < 10 \<and> radix_string 10 n = radix_digit d # s"
proof (induction n rule: less_induct)
  case (less n)
  show ?case
  proof (cases "n < 10")
    case True
    then show ?thesis by (subst radix_string.simps) auto
  next
    case False
    with less [of "n div 10"] obtain d s where "d < 10" "radix_string 10 (n div 10) = radix_digit d # s" by auto
    with False show ?thesis by (subst radix_string.simps) auto
  qed
qed

lemma parse_u16_radix:
  assumes "n \<le> 65535"
  shows "parse_u16 (radix_string 10 n) = Some n"
proof -
  obtain d s where d: "d < 10" "radix_string 10 n = radix_digit d # s" using radix_string_first by blast
  have "radix_digit d \<noteq> CHR ''+''"
  proof
    assume "radix_digit d = CHR ''+''"
    with digit_value_radix [OF d(1)] show False by (simp add: digit_value_def)
  qed
  with parse_digits_radix [OF assms] d show ?thesis by simp
qed

text \<open>
  Once the server of the released version is bound, a port written into
  \<open>DYN_TCP_RPC_PORT\<close> in decimal is the port of the advertised address.
\<close>

lemma release_fixed_port_advertised:
  assumes "rl_mode L = RPM_Tcp" "rl_port L (ew_global w) = Inr b"
    and "rl_env L ''DYN_TCP_RPC_PORT'' = Some (radix_string 10 p)" "0 < p" "p \<le> 65535"
  shows "release_build_transport_type L i c w = (Inr (TT_Tcp (release_tcp_endpoint (rl_host L) p c (ei_name i))), w)"
  using assms
  by (simp add: release_build_transport_type_def release_build_transport_type_inner_def and_then_def fixed_port_def parse_u16_radix)

section \<open>Samples\<close>

text \<open>A runtime whose server binds port 7000 when it is started, and whose other parts accept every call.\<close>

definition sample_endpoint :: endpoint_id where
  "sample_endpoint = \<lparr>ei_namespace = ''ns'', ei_component = ''worker'', ei_name = ''generate''\<rparr>"

definition sample_runtime :: "bool runtime_lib" where
  "sample_runtime =
     \<lparr>rl_mode = RPM_Tcp, rl_connection = 0x2a, rl_server = (\<lambda>_. Inr True),
      rl_address = (\<lambda>bound. if bound then Inr ''10.0.0.1:7000'' else Inl ''not bound''),
      rl_port = (\<lambda>bound. if bound then Inr 7000 else Inl ''not bound''), rl_host = ''10.0.0.1'',
      rl_env = (\<lambda>v. if v = ''DYN_TCP_RPC_PORT'' then Some (radix_string 10 20000) else None), rl_codec = ''json'',
      rl_instance_path = (\<lambda>i c. ei_name i), rl_instance_subject = (\<lambda>i c. ei_name i),
      rl_health_enabled = (\<lambda>_. False), rl_local_engine = (\<lambda>_ _. False), rl_notifier = (\<lambda>_ _. False),
      rl_answer = (\<lambda>_ _. None),
      rl_discover = (\<lambda>spec _. Inr (DI_Endpoint
        \<lparr>in_component = ds_component spec, in_endpoint = ds_endpoint spec, in_namespace = ds_namespace spec,
         in_instance_id = 0x2a, in_transport = ds_transport spec, in_device = ds_device spec, in_codec = ds_codec spec\<rparr>))\<rparr>"

definition sample_config :: endpoint_config where
  "sample_config = \<lparr>ec_endpoint = sample_endpoint, ec_labels = None, ec_graceful = True, ec_health = None\<rparr>"

definition idle_world :: "bool endpoint_world" where
  "idle_world = \<lparr>ew_global = False, ew_log = []\<rparr>"

lemma sample_starts: "\<exists>se w. start_with_registration sample_runtime sample_config idle_world = (Inr se, w)"
  by (simp add: start_with_registration_def start_endpoint_def prepare_endpoint_def and_then_def call_def request_plane_server_def
      build_transport_type_def build_transport_type_inner_def register_health_target_def announce_endpoint_def track_endpoint_def
      perform_def note_call_def sample_runtime_def sample_config_def main_version_def Let_def)

lemma sample_faithful: "faithful_discovery sample_runtime"
  by (auto simp: faithful_discovery_def sample_runtime_def names_spec_def names_instance_def)

lemma sample_fixed_port: "fixed_port sample_runtime = Some 20000"
  by (simp add: fixed_port_def sample_runtime_def parse_u16_radix)


lemma shutdown_tracker_balanced_sample:
  "\<exists>se w. start_with_registration sample_runtime sample_config idle_world = (Inr se, w)
     \<and> tracked (ew_log w) = 1 \<and> tracked (ew_log (started_shutdown sample_runtime sample_endpoint se w)) = 0"
proof -
  obtain se w where s: "start_with_registration sample_runtime sample_config idle_world = (Inr se, w)"
    using sample_starts by blast
  then show ?thesis
    using shutdown_tracker_balanced [where L = sample_runtime and cfg = sample_config and w = idle_world and r = "Inr se"
        and stop = "started_shutdown sample_runtime sample_endpoint" and i = sample_endpoint and ?w1.0 = w]
    by (simp add: idle_world_def sample_config_def)
qed

theorem fixed_port_needs_bound_server_witness:
  "(\<exists>t. fst (build_transport_type sample_runtime sample_endpoint 0x2a idle_world) = Inr t)
   \<and> release_build_transport_type sample_runtime sample_endpoint 0x2a idle_world = (Inl (Runtime_Error ''not bound''), idle_world)"
  by (rule fixed_port_needs_bound_server [where L = sample_runtime and w = idle_world and ?g1.0 = True and p = 20000])
    (simp_all add: sample_fixed_port, simp_all add: sample_runtime_def idle_world_def)

lemma release_fixed_port_advertised_sample:
  "release_build_transport_type sample_runtime sample_endpoint 0x2a \<lparr>ew_global = True, ew_log = []\<rparr>
     = (Inr (TT_Tcp (release_tcp_endpoint ''10.0.0.1'' 20000 0x2a ''generate'')), \<lparr>ew_global = True, ew_log = []\<rparr>)"
  using release_fixed_port_advertised [where L = sample_runtime and w = "\<lparr>ew_global = True, ew_log = []\<rparr>"
      and b = 7000 and p = 20000 and i = sample_endpoint and c = "0x2a"]
  by (simp add: sample_runtime_def sample_endpoint_def)

end
