(* ===== verification/Http_Frontend.thy ===== *)
theory Http_Frontend
  imports Effects
begin

text \<open>
  The HTTP frontend, from the two saved versions of \<open>entrypoint/input/http.rs\<close>
  (\<open>frontend-startup-main-http.rs\<close> and \<open>frontend-startup-release-http.rs\<close>): the TLS
  settings, the start of the service for the three kinds of engine, and the task that switches the
  process-wide endpoint flags as models come and go.

  Model types, endpoint types, the flags of the service and the catalog of live models are code
  outside the files: the functions of \<open>http_lib\<close>.  The answers of the other calls are a
  function of the history.
\<close>

section \<open>Endpoint flags\<close>

record 'm model_card =
  md_display_name :: string
  md_model_type :: 'm

datatype 'm model_update = Model_Added "'m model_card" | Model_Removed "'m model_card"

record ('m, 'e, 'f, 'x) http_lib =
  hl_units :: "'m \<Rightarrow> 'm list"
  hl_empty :: 'm
  hl_or :: "'m \<Rightarrow> 'm \<Rightarrow> 'm"
  hl_endpoints :: "'m \<Rightarrow> 'e list"
  hl_all :: "'e list"
  hl_batch :: 'e
  hl_enable :: "'e \<Rightarrow> bool \<Rightarrow> 'f \<Rightarrow> string + 'f"
  hl_enabled :: "'f \<Rightarrow> 'e \<Rightarrow> bool"
  hl_metrics :: "'m model_card \<Rightarrow> 'x \<Rightarrow> string + 'x"

text \<open>A loop over \<open>enable_model_endpoint\<close>: the first error ends it and keeps what was done.\<close>

fun set_endpoints :: "('m, 'e, 'f, 'x) http_lib \<Rightarrow> bool \<Rightarrow> 'e list \<Rightarrow> ('f, string, unit) eff" where
  "set_endpoints H on [] f = (Inr (), f)"
| "set_endpoints H on (e # es) f =
     (case hl_enable H e on f of
        Inl err \<Rightarrow> (Inl err, f)
      | Inr f' \<Rightarrow> set_endpoints H on es f')"

definition enable_in_process_model_endpoints :: "('m, 'e, 'f, 'x) http_lib \<Rightarrow> ('f, string, unit) eff" where
  "enable_in_process_model_endpoints H = set_endpoints H True (filter (\<lambda>e. e \<noteq> hl_batch H) (hl_all H))"

definition update_http_endpoints ::
  "('m, 'e, 'f, 'x) http_lib \<Rightarrow> ('m \<Rightarrow> bool) \<Rightarrow> 'm model_update \<Rightarrow> ('f, string, unit) eff" where
  "update_http_endpoints H has_models_of_type update =
     (case update of
        Model_Added c \<Rightarrow> set_endpoints H True (hl_endpoints H (md_model_type c))
      | Model_Removed c \<Rightarrow>
          let vacated = foldl (hl_or H) (hl_empty H)
                (filter (\<lambda>u. \<not> has_models_of_type u) (hl_units H (md_model_type c))) in
          set_endpoints H False (hl_endpoints H vacated))"

definition update_model_metrics :: "('m, 'e, 'f, 'x) http_lib \<Rightarrow> 'm model_update \<Rightarrow> 'x \<Rightarrow> 'x" where
  "update_model_metrics H update x =
     (case update of
        Model_Added c \<Rightarrow> (case hl_metrics H c x of Inl _ \<Rightarrow> x | Inr x' \<Rightarrow> x')
      | Model_Removed _ \<Rightarrow> x)"

text \<open>
  The frontend while it serves: what the catalog of the model manager answers, the changes of the
  catalog the watcher has not sent yet, the channel of at most 32 updates, the flags and the
  metrics.  The watcher changes the catalog before it sends the update, and sends updates in order;
  the enabler takes one update at a time and goes on after an error.
\<close>

record ('m, 'f, 'x) frontend_state =
  fr_has :: "'m \<Rightarrow> bool"
  fr_unsent :: "'m model_update list"
  fr_channel :: "'m model_update list"
  fr_flags :: 'f
  fr_metrics :: 'x

definition channel_capacity :: nat where
  "channel_capacity = 32"

definition enabler_step ::
  "('m, 'e, 'f, 'x) http_lib \<Rightarrow> ('m, 'f, 'x) frontend_state \<Rightarrow> ('m, 'f, 'x) frontend_state" where
  "enabler_step H s =
     (case fr_channel s of
        [] \<Rightarrow> s
      | update # rest \<Rightarrow>
          s\<lparr>fr_channel := rest,
            fr_flags := snd (update_http_endpoints H (fr_has s) update (fr_flags s)),
            fr_metrics := update_model_metrics H update (fr_metrics s)\<rparr>)"

text \<open>
  The catalog after an update: an added model makes its units available; a removed model leaves the
  other units alone, and may leave a unit of its own to another live model.
\<close>

fun catalog_change :: "('m, 'e, 'f, 'x) http_lib \<Rightarrow> ('m \<Rightarrow> bool) \<Rightarrow> 'm model_update \<Rightarrow> ('m \<Rightarrow> bool) \<Rightarrow> bool" where
  "catalog_change H has (Model_Added c) has' =
     (\<forall>u. has' u \<longleftrightarrow> has u \<or> u \<in> set (hl_units H (md_model_type c)))"
| "catalog_change H has (Model_Removed c) has' =
     (\<forall>u. (has' u \<longrightarrow> has u) \<and> (u \<notin> set (hl_units H (md_model_type c)) \<longrightarrow> has' u = has u))"

inductive frontend_step ::
  "('m, 'e, 'f, 'x) http_lib \<Rightarrow> ('m, 'f, 'x) frontend_state \<Rightarrow> ('m, 'f, 'x) frontend_state \<Rightarrow> bool" for H where
  catalog_changes: "catalog_change H (fr_has s) update has' \<Longrightarrow>
    frontend_step H s (s\<lparr>fr_has := has', fr_unsent := fr_unsent s @ [update]\<rparr>)"
| update_sent: "fr_unsent s = update # rest \<Longrightarrow> length (fr_channel s) < channel_capacity \<Longrightarrow>
    frontend_step H s (s\<lparr>fr_unsent := rest, fr_channel := fr_channel s @ [update]\<rparr>)"
| update_taken: "fr_channel s \<noteq> [] \<Longrightarrow> frontend_step H s (enabler_step H s)"

inductive frontend_reachable ::
  "('m, 'e, 'f, 'x) http_lib \<Rightarrow> ('m, 'f, 'x) frontend_state \<Rightarrow> ('m, 'f, 'x) frontend_state \<Rightarrow> bool" for H s where
  start: "frontend_reachable H s s"
| more: "frontend_reachable H s t \<Longrightarrow> frontend_step H t t' \<Longrightarrow> frontend_reachable H s t'"

section \<open>Starting the service\<close>

datatype start_error =
    Tls_Certificate_Missing string
  | Tls_Key_Missing string
  | Tls_Client_Ca_Missing string
  | Tls_Client_Ca_Needs_Pair
  | Tls_Pair_Incomplete
  | Classifier_Needs_Kv_Routing
  | Plugins_Need_Dynamic_Engine
  | Start_Failed string

record tls_settings =
  tl_cert :: string
  tl_key :: string
  tl_client_ca :: "string option"

definition tls_settings_of ::
  "(string \<Rightarrow> bool) \<Rightarrow> string option \<Rightarrow> string option \<Rightarrow> string option \<Rightarrow> start_error + tls_settings option" where
  "tls_settings_of exists cert key ca =
     (case (cert, key, ca) of
        (Some c, Some k, a) \<Rightarrow>
          if \<not> exists c then Inl (Tls_Certificate_Missing c)
          else if \<not> exists k then Inl (Tls_Key_Missing k)
          else (case opt_filter (\<lambda>p. \<not> exists p) a of
                  Some p \<Rightarrow> Inl (Tls_Client_Ca_Missing p)
                | None \<Rightarrow> Inr (Some \<lparr>tl_cert = c, tl_key = k, tl_client_ca = a\<rparr>))
      | (None, None, None) \<Rightarrow> Inr None
      | (None, None, Some _) \<Rightarrow> Inl Tls_Client_Ca_Needs_Pair
      | _ \<Rightarrow> Inl Tls_Pair_Incomplete)"

definition release_tls_settings_of ::
  "(string \<Rightarrow> bool) \<Rightarrow> string option \<Rightarrow> string option \<Rightarrow> start_error + tls_settings option" where
  "release_tls_settings_of exists cert key =
     (case (cert, key) of
        (Some c, Some k) \<Rightarrow>
          if \<not> exists c then Inl (Tls_Certificate_Missing c)
          else if \<not> exists k then Inl (Tls_Key_Missing k)
          else Inr (Some \<lparr>tl_cert = c, tl_key = k, tl_client_ca = None\<rparr>)
      | (None, None) \<Rightarrow> Inr None
      | _ \<Rightarrow> Inl Tls_Pair_Incomplete)"

record local_model =
  lm_display_name :: string
  lm_checksum :: string
  lm_path :: string
  lm_tls_cert :: "string option"
  lm_tls_key :: "string option"
  lm_tls_client_ca :: "string option"
  lm_http_port :: nat
  lm_http_host :: "string option"
  lm_kv_routing :: bool

datatype engine_config = Dynamic local_model | In_Process_Text local_model | In_Process_Tokens local_model

fun config_model :: "engine_config \<Rightarrow> local_model" where
  "config_model (Dynamic m) = m"
| "config_model (In_Process_Text m) = m"
| "config_model (In_Process_Tokens m) = m"

fun is_dynamic :: "engine_config \<Rightarrow> bool" where
  "is_dynamic (Dynamic _) = True"
| "is_dynamic _ = False"

text \<open>The builder of the service: the settings the files choose.\<close>

record 'r service_settings =
  sv_tls :: "tls_settings option"
  sv_port :: nat
  sv_host :: "string option"
  sv_extensions :: "'r list"
  sv_discovery :: bool

datatype 'r frontend_call =
    Register_Input
  | Initialize_Input
  | Drain_Input
  | Build_Service "'r service_settings"
  | Start_Lora_Controller
  | New_Watcher "string option"
  | List_And_Watch
  | Spawn_Enabler
  | Spawn_Watcher
  | Load_Tokenizer
  | Build_Chat_Pipeline
  | Build_Completion_Pipeline
  | Add_Completions string string
  | Add_Chat_Completions string string
  | Enable_Endpoints
  | Run_Service
  | Shutdown_Runtime

record 'r frontend_env =
  fe_exists :: "string \<Rightarrow> bool"
  fe_lora_serving :: bool
  fe_answer :: "'r frontend_call \<Rightarrow> 'r frontend_call history \<Rightarrow> string option"

definition invoke :: "'r frontend_env \<Rightarrow> 'r frontend_call \<Rightarrow> ('r frontend_call history, start_error, unit) eff" where
  "invoke F k l =
     (case fe_answer F k l of
        None \<Rightarrow> (Inr (), (k, True) # l)
      | Some e \<Rightarrow> (Inl (Start_Failed e), (k, False) # l))"

definition do_call :: "'r frontend_call \<Rightarrow> ('r frontend_call history, start_error, unit) eff" where
  "do_call k l = (Inr (), (k, True) # l)"

fun invoke_all :: "'r frontend_env \<Rightarrow> 'r frontend_call list \<Rightarrow> ('r frontend_call history, start_error, unit) eff" where
  "invoke_all F [] = Pair (Inr ())"
| "invoke_all F (k # ks) = and_then (invoke F k) (\<lambda>_. invoke_all F ks)"

definition service_settings_of ::
  "local_model \<Rightarrow> 'r list \<Rightarrow> tls_settings option \<Rightarrow> bool \<Rightarrow> 'r service_settings" where
  "service_settings_of m exts tls discovery =
     \<lparr>sv_tls = tls, sv_port = lm_http_port m, sv_host = lm_http_host m, sv_extensions = exts, sv_discovery = discovery\<rparr>"

definition run_watcher :: "'r frontend_env \<Rightarrow> local_model \<Rightarrow> ('r frontend_call history, start_error, unit) eff" where
  "run_watcher F m =
     and_then (if fe_lora_serving F then do_call Start_Lora_Controller else Pair (Inr ()))
       (\<lambda>_. and_then (do_call (New_Watcher (nonempty (lm_path m))))
         (\<lambda>_. and_then (invoke F List_And_Watch)
           (\<lambda>_. and_then (do_call Spawn_Enabler) (\<lambda>_. do_call Spawn_Watcher))))"

definition start_engine ::
  "'r frontend_env \<Rightarrow> engine_config \<Rightarrow> 'r list \<Rightarrow> tls_settings option \<Rightarrow> ('r frontend_call history, start_error, unit) eff" where
  "start_engine F cfg exts tls =
     (case cfg of
        Dynamic m \<Rightarrow> and_then (invoke F (Build_Service (service_settings_of m exts tls True))) (\<lambda>_. run_watcher F m)
      | In_Process_Text m \<Rightarrow>
          invoke_all F
            [Build_Service (service_settings_of m exts tls False),
             Add_Completions (lm_display_name m) (lm_checksum m), Add_Chat_Completions (lm_display_name m) (lm_checksum m),
             Enable_Endpoints]
      | In_Process_Tokens m \<Rightarrow>
          invoke_all F
            [Build_Service (service_settings_of m exts tls False), Load_Tokenizer,
             Build_Chat_Pipeline, Add_Chat_Completions (lm_display_name m) (lm_checksum m),
             Build_Completion_Pipeline, Add_Completions (lm_display_name m) (lm_checksum m),
             Enable_Endpoints])"

text \<open>The runtime is shut down whenever the server exits, before its result is looked at.\<close>

definition serve :: "'r frontend_env \<Rightarrow> ('r frontend_call history, start_error, unit) eff" where
  "serve F l = (let (r, l') = invoke F Run_Service l in (r, (Shutdown_Runtime, True) # l'))"

definition run_with_router_plugins ::
  "'r frontend_env \<Rightarrow> engine_config \<Rightarrow> 'r list \<Rightarrow> ('r frontend_call history, start_error, unit) eff" where
  "run_with_router_plugins F cfg exts =
     (let m = config_model cfg in
      case tls_settings_of (fe_exists F) (lm_tls_cert m) (lm_tls_key m) (lm_tls_client_ca m) of
        Inl e \<Rightarrow> fails_with e
      | Inr tls \<Rightarrow> and_then (start_engine F cfg exts tls) (\<lambda>_. serve F))"

definition release_run_with_worker_selector_factory ::
  "'r frontend_env \<Rightarrow> engine_config \<Rightarrow> 'r list \<Rightarrow> ('r frontend_call history, start_error, unit) eff" where
  "release_run_with_worker_selector_factory F cfg exts =
     (let m = config_model cfg in
      case release_tls_settings_of (fe_exists F) (lm_tls_cert m) (lm_tls_key m) of
        Inl e \<Rightarrow> fails_with e
      | Inr tls \<Rightarrow> and_then (start_engine F cfg exts tls) (\<lambda>_. serve F))"

text \<open>The plugins a frontend was given: a request classifier, any custom plugin, and the result of their validation.\<close>

record router_plugins =
  rp_classifier :: bool
  rp_custom :: bool
  rp_valid :: "local_model \<Rightarrow> string option"

definition with_active_input ::
  "('r frontend_call history, start_error, unit) eff \<Rightarrow> ('r frontend_call history, start_error, unit) eff" where
  "with_active_input body l =
     (let (r, l') = body ((Initialize_Input, True) # (Register_Input, True) # l) in (r, (Drain_Input, True) # l'))"

definition http_frontend_run ::
  "'r frontend_env \<Rightarrow> router_plugins \<Rightarrow> 'r list \<Rightarrow> engine_config \<Rightarrow> ('r frontend_call history, start_error, unit) eff" where
  "http_frontend_run F P exts cfg =
     (if rp_classifier P \<and> \<not> lm_kv_routing (config_model cfg) then fails_with Classifier_Needs_Kv_Routing
      else if rp_custom P \<and> \<not> is_dynamic cfg then fails_with Plugins_Need_Dynamic_Engine
      else (case rp_valid P (config_model cfg) of
              Some e \<Rightarrow> fails_with (Start_Failed e)
            | None \<Rightarrow> with_active_input (run_with_router_plugins F cfg exts)))"

definition release_http_frontend_run ::
  "'r frontend_env \<Rightarrow> bool \<Rightarrow> 'r list \<Rightarrow> engine_config \<Rightarrow> ('r frontend_call history, start_error, unit) eff" where
  "release_http_frontend_run F custom_policy exts cfg =
     (if custom_policy \<and> \<not> is_dynamic cfg then fails_with Plugins_Need_Dynamic_Engine
      else with_active_input (release_run_with_worker_selector_factory F cfg exts))"

section \<open>A view kept up to date by notifications\<close>

text \<open>
  One boolean of a view follows one boolean of a source.  An update is applied with what the
  source answers at that moment, which may be later than the change it reports.  The law: if
  applying all updates in flight would make the view right, it still would after the next change
  and its update.
\<close>

locale notified_view =
  fixes effect :: "'c \<Rightarrow> 'u \<Rightarrow> bool \<Rightarrow> bool"
    and target :: "'c \<Rightarrow> bool"
    and change :: "'c \<Rightarrow> 'u \<Rightarrow> 'c \<Rightarrow> bool"
  assumes change_law: "change c u c' \<Longrightarrow> fold (effect c) us b = target c \<Longrightarrow> fold (effect c') (us @ [u]) b = target c'"
begin

lemma changed_in_flight:
  assumes "change c u c'" "fold (effect c) (sent @ unsent) b = target c"
  shows "fold (effect c') (sent @ unsent @ [u]) b = target c'"
  using change_law [OF assms] by simp

lemma applied_in_flight:
  "fold (effect c) ((u # sent) @ unsent) b = target c \<Longrightarrow> fold (effect c) (sent @ unsent) (effect c u b) = target c"
  by simp

end

definition flag_effect :: "('m, 'e, 'f, 'x) http_lib \<Rightarrow> 'm \<Rightarrow> ('m \<Rightarrow> bool) \<Rightarrow> 'm model_update \<Rightarrow> bool \<Rightarrow> bool" where
  "flag_effect H u has update b =
     (case update of
        Model_Added c \<Rightarrow> u \<in> set (hl_units H (md_model_type c)) \<or> b
      | Model_Removed c \<Rightarrow> \<not> (u \<in> set (hl_units H (md_model_type c)) \<and> \<not> has u) \<and> b)"

lemma flag_effect_cong: "has u = has' u \<Longrightarrow> flag_effect H u has = flag_effect H u has'"
  by (rule ext)+ (simp add: flag_effect_def split: model_update.split)

interpretation flag: notified_view "flag_effect H u" "\<lambda>has. has u" "catalog_change H" for H u
proof
  fix has has' :: "'a \<Rightarrow> bool" and update us b
  assume change: "catalog_change H has update has'" and settled: "fold (flag_effect H u has) us b = has u"
  show "fold (flag_effect H u has') (us @ [update]) b = has' u"
  proof (cases update)
    case (Model_Added c)
    show ?thesis
    proof (cases "u \<in> set (hl_units H (md_model_type c))")
      case True
      then show ?thesis using Model_Added change by (simp add: flag_effect_def)
    next
      case False
      then have same: "has' u = has u" using Model_Added change by simp
      have "fold (flag_effect H u has') (us @ [update]) b = flag_effect H u has update (has u)"
        unfolding flag_effect_cong [of has' u has, OF same] by (simp add: settled)
      also have "\<dots> = has' u"
        using False same by (auto simp: flag_effect_def Model_Added)
      finally show ?thesis .
    qed
  next
    case (Model_Removed c)
    show ?thesis
    proof (cases "u \<in> set (hl_units H (md_model_type c)) \<and> \<not> has' u")
      case True
      then show ?thesis using Model_Removed by (simp add: flag_effect_def)
    next
      case False
      then have same: "has' u = has u" using Model_Removed change by auto
      have "fold (flag_effect H u has') (us @ [update]) b = flag_effect H u has update (has u)"
        unfolding flag_effect_cong [of has' u has, OF same] by (simp add: settled)
      also have "\<dots> = has' u"
        using False same by (auto simp: flag_effect_def Model_Removed)
      finally show ?thesis .
    qed
  qed
qed

text \<open>
  What the service and the types of the other crates promise: a flag that is set is set and nothing
  else changes, and the endpoints of a model type are those of its units.
\<close>

definition flag_laws :: "('m, 'e, 'f, 'x) http_lib \<Rightarrow> bool" where
  "flag_laws H \<longleftrightarrow>
     (\<forall>e b f. \<exists>f'. hl_enable H e b f = Inr f' \<and> hl_enabled H f' = (hl_enabled H f)(e := b))
     \<and> (\<forall>m. set (hl_endpoints H m) = (\<Union>u \<in> set (hl_units H m). set (hl_endpoints H u)))
     \<and> (\<forall>us. set (hl_endpoints H (foldl (hl_or H) (hl_empty H) us)) = (\<Union>u \<in> set us. set (hl_endpoints H u)))"

text \<open>The only unit of any model type that offers the endpoint.\<close>

definition sole_owner :: "('m, 'e, 'f, 'x) http_lib \<Rightarrow> 'm \<Rightarrow> 'e \<Rightarrow> bool" where
  "sole_owner H u e \<longleftrightarrow> e \<in> set (hl_endpoints H u)
     \<and> (\<forall>m. \<forall>v \<in> set (hl_units H m). e \<in> set (hl_endpoints H v) \<longrightarrow> v = u)"

lemma flag_lawsD:
  assumes "flag_laws H"
  shows "\<exists>f'. hl_enable H e b f = Inr f' \<and> hl_enabled H f' = (hl_enabled H f)(e := b)"
    and "e \<in> set (hl_endpoints H m) \<longleftrightarrow> (\<exists>u \<in> set (hl_units H m). e \<in> set (hl_endpoints H u))"
    and "e \<in> set (hl_endpoints H (foldl (hl_or H) (hl_empty H) us)) \<longleftrightarrow> (\<exists>u \<in> set us. e \<in> set (hl_endpoints H u))"
proof -
  note laws = assms [unfolded flag_laws_def]
  show "\<exists>f'. hl_enable H e b f = Inr f' \<and> hl_enabled H f' = (hl_enabled H f)(e := b)"
    using conjunct1 [OF laws] by (elim allE) assumption
  show "e \<in> set (hl_endpoints H m) \<longleftrightarrow> (\<exists>u \<in> set (hl_units H m). e \<in> set (hl_endpoints H u))"
    by (subst conjunct1 [OF conjunct2 [OF laws], rule_format]) simp
  show "e \<in> set (hl_endpoints H (foldl (hl_or H) (hl_empty H) us)) \<longleftrightarrow> (\<exists>u \<in> set us. e \<in> set (hl_endpoints H u))"
    by (subst conjunct2 [OF conjunct2 [OF laws], rule_format]) simp
qed

lemma set_endpoints_flag:
  assumes "flag_laws H"
  shows "hl_enabled H (snd (set_endpoints H on es f)) e = (if e \<in> set es then on else hl_enabled H f e)"
proof (induction es arbitrary: f)
  case (Cons d es)
  obtain f' where "hl_enable H d on f = Inr f'" "hl_enabled H f' = (hl_enabled H f)(d := on)"
    using flag_lawsD(1) [OF assms] by fast
  with Cons show ?case by auto
qed simp

lemma update_flag:
  assumes "flag_laws H" "sole_owner H u e"
  shows "hl_enabled H (snd (update_http_endpoints H has update f)) e = flag_effect H u has update (hl_enabled H f e)"
proof (cases update)
  case (Model_Added c)
  have "e \<in> set (hl_endpoints H (md_model_type c)) \<longleftrightarrow> u \<in> set (hl_units H (md_model_type c))"
    using assms(2) by (subst flag_lawsD(2) [OF assms(1)]) (auto simp: sole_owner_def)
  then show ?thesis
    using Model_Added by (simp add: update_http_endpoints_def flag_effect_def set_endpoints_flag [OF assms(1)])
next
  case (Model_Removed c)
  let ?us = "filter (\<lambda>u. \<not> has u) (hl_units H (md_model_type c))"
  have "e \<in> set (hl_endpoints H (foldl (hl_or H) (hl_empty H) ?us)) \<longleftrightarrow> u \<in> set ?us"
    using assms(2) by (subst flag_lawsD(3) [OF assms(1)]) (auto simp: sole_owner_def)
  then show ?thesis
    using Model_Removed
    by (auto simp: update_http_endpoints_def flag_effect_def Let_def set_endpoints_flag [OF assms(1)])
qed

definition settles :: "('m, 'e, 'f, 'x) http_lib \<Rightarrow> 'm \<Rightarrow> 'e \<Rightarrow> ('m, 'f, 'x) frontend_state \<Rightarrow> bool" where
  "settles H u e s \<longleftrightarrow>
     fold (flag_effect H u (fr_has s)) (fr_channel s @ fr_unsent s) (hl_enabled H (fr_flags s) e) = fr_has s u
     \<and> length (fr_channel s) \<le> channel_capacity"

lemma step_settles:
  assumes "flag_laws H" "sole_owner H u e" "frontend_step H s s'" "settles H u e s"
  shows "settles H u e s'"
  using assms(3,4)
proof cases
  case (catalog_changes update has')
  then show ?thesis
    using flag.changed_in_flight [of H "fr_has s" update has' u] assms(4) by (simp add: settles_def)
next
  case (update_taken)
  then obtain update rest where "fr_channel s = update # rest" by (cases "fr_channel s") auto
  with update_taken assms(4) show ?thesis
    by (simp add: settles_def enabler_step_def update_flag [OF assms(1,2)])
qed (simp add: settles_def)

lemma reachable_settles:
  assumes "flag_laws H" "sole_owner H u e"
  shows "frontend_reachable H s s' \<Longrightarrow> settles H u e s \<Longrightarrow> settles H u e s'"
  by (induction rule: frontend_reachable.induct) (auto intro: step_settles [OF assms])

lemma reachable_trans: "frontend_reachable H t t' \<Longrightarrow> frontend_reachable H s t \<Longrightarrow> frontend_reachable H s t'"
  by (induction rule: frontend_reachable.induct) (auto intro: frontend_reachable.more)

text \<open>The updates in flight can all be delivered, whatever the catalog is by then.\<close>

lemma frontend_drains:
  "\<exists>t. frontend_reachable H s t \<and> fr_channel t = [] \<and> fr_unsent t = [] \<and> fr_has t = fr_has s"
proof (induction "2 * length (fr_unsent s) + length (fr_channel s)" arbitrary: s rule: less_induct)
  case less
  have step: ?case if "frontend_step H s s'" "fr_has s' = fr_has s"
    "2 * length (fr_unsent s') + length (fr_channel s') < 2 * length (fr_unsent s) + length (fr_channel s)" for s'
    using less [OF that(3)] that(1,2) by (metis frontend_reachable.more frontend_reachable.start reachable_trans)
  show ?case
  proof (cases "fr_channel s")
    case Nil
    show ?thesis
    proof (cases "fr_unsent s")
      case Nil
      with \<open>fr_channel s = []\<close> show ?thesis using frontend_reachable.start by blast
    next
      case (Cons update rest)
      with Nil show ?thesis using step [OF update_sent [of s update rest]] by (simp add: channel_capacity_def)
    qed
  next
    case (Cons update rest)
    then show ?thesis using step [OF update_taken [of s]] by (simp add: enabler_step_def)
  qed
qed

text \<open>
  C19. The flag of an endpoint follows the catalog of live models, however the watcher and the
  enabler interleave.  From a quiescent start, whenever every update has been delivered the endpoint
  is enabled exactly if some live model has the unit that offers it; and from every state the
  updates in flight can be delivered, which leaves the flag right for the catalog of that state.
\<close>

theorem flags_follow_catalog:
  assumes "flag_laws H" "sole_owner H u e"
    and "fr_channel s0 = []" "fr_unsent s0 = []" "hl_enabled H (fr_flags s0) e \<longleftrightarrow> fr_has s0 u"
    and "frontend_reachable H s0 s"
  shows "length (fr_channel s) \<le> channel_capacity
    \<and> (fr_channel s = [] \<and> fr_unsent s = [] \<longrightarrow> (hl_enabled H (fr_flags s) e \<longleftrightarrow> fr_has s u))
    \<and> (\<exists>t. frontend_reachable H s t \<and> fr_channel t = [] \<and> fr_unsent t = []
         \<and> fr_has t = fr_has s \<and> (hl_enabled H (fr_flags t) e \<longleftrightarrow> fr_has s u))"
proof -
  have "settles H u e s0" using assms(3-5) by (simp add: settles_def)
  then have s: "settles H u e s" using reachable_settles [OF assms(1,2,6)] by blast
  obtain t where t: "frontend_reachable H s t" "fr_channel t = []" "fr_unsent t = []" "fr_has t = fr_has s"
    using frontend_drains by blast
  then have "settles H u e t" using reachable_settles [OF assms(1,2)] s by blast
  with t s show ?thesis by (auto simp: settles_def intro!: exI [of _ t])
qed

section \<open>Lemmas on the start\<close>

fun start_call :: "'r frontend_call \<Rightarrow> bool" where
  "start_call Register_Input = False"
| "start_call Initialize_Input = False"
| "start_call Drain_Input = False"
| "start_call Run_Service = False"
| "start_call Shutdown_Runtime = False"
| "start_call _ = True"

abbreviation starting :: "('r frontend_call history, start_error, 'a) eff \<Rightarrow> bool" where
  "starting \<equiv> extends_by start_call id"

lemma starting_invoke: "start_call k \<Longrightarrow> starting (invoke F k)"
  by (rule extends_byI) (auto simp: invoke_def split: option.splits)

lemma starting_do_call: "start_call k \<Longrightarrow> starting (do_call k)"
  by (rule extends_byI) (auto simp: do_call_def)

lemma starting_invoke_all: "list_all start_call ks \<Longrightarrow> starting (invoke_all F ks)"
  by (induction ks) (auto intro!: extends_by_and_then starting_invoke extends_by_return)

lemma starting_engine: "starting (start_engine F cfg exts tls)"
proof (cases cfg)
  case (Dynamic m)
  then show ?thesis
    by (auto simp: start_engine_def run_watcher_def
        intro!: extends_by_and_then starting_invoke starting_do_call extends_by_return)
qed (auto simp: start_engine_def intro!: extends_by_and_then starting_invoke extends_by_return)

lemma invoke_cases:
  assumes "invoke F k l = (r, l')"
  obtains (good) "r = Inr ()" "l' = (k, True) # l" | (bad) e where "r = Inl (Start_Failed e)" "l' = (k, False) # l"
  using assms by (auto simp: invoke_def split: option.splits)

lemma serve_log:
  assumes "serve F l = (r, l')"
  shows "l' = (Shutdown_Runtime, True) # (Run_Service, r = Inr ()) # l"
  using assms by (auto simp: serve_def elim: invoke_cases split: prod.splits)

text \<open>What the body of a run adds to the history: start calls, then possibly the server and the shutdown.\<close>

definition run_shape :: "start_error + unit \<Rightarrow> 'r frontend_call history \<Rightarrow> bool" where
  "run_shape r added \<longleftrightarrow>
     (\<exists>pre. list_all (\<lambda>e. start_call (fst e)) pre
        \<and> (added = pre \<and> r \<noteq> Inr () \<or> added = (Shutdown_Runtime, True) # (Run_Service, r = Inr ()) # pre))"

lemma started_shape:
  assumes "and_then (start_engine F cfg exts tls) (\<lambda>_. serve F) l = (r, l')"
  obtains added where "l' = added @ l" "run_shape r added"
  using assms
proof (cases rule: and_then_cases)
  case (fails e)
  from extends_byE [OF starting_engine fails(1)] obtain pre
    where "l' = pre @ l" "list_all (\<lambda>e. start_call (fst e)) pre" by (auto simp: id_def)
  with fails that [of pre] show thesis by (auto simp: run_shape_def)
next
  case (continues a l1)
  from extends_byE [OF starting_engine continues(1)] obtain pre
    where "l1 = pre @ l" "list_all (\<lambda>e. start_call (fst e)) pre" by (auto simp: id_def)
  with serve_log [OF continues(2)] that [of "(Shutdown_Runtime, True) # (Run_Service, r = Inr ()) # pre"]
  show thesis by (auto simp: run_shape_def)
qed

lemma run_with_router_plugins_shape:
  assumes "run_with_router_plugins F cfg exts l = (r, l')"
  obtains added where "l' = added @ l" "run_shape r added"
proof (cases "tls_settings_of (fe_exists F) (lm_tls_cert (config_model cfg)) (lm_tls_key (config_model cfg))
    (lm_tls_client_ca (config_model cfg))")
  case (Inl e)
  then show thesis using assms that [of "[]"] by (auto simp: run_with_router_plugins_def fails_with_def run_shape_def)
next
  case (Inr tls)
  then show thesis using assms that by (auto simp: run_with_router_plugins_def elim: started_shape)
qed

text \<open>
  A run of the frontend brackets its work.  Either it is refused before it does anything, or it
  registers the trace input first and drains it last, once each, on every path; in between, the
  server is run at most once, the runtime is shut down right after the server exits, also when the
  server failed, and the run succeeds exactly if the server did.
\<close>

lemma frontend_run_is_bracketed:
  assumes "http_frontend_run F P exts cfg l = (r, l')"
  shows "l' = l \<and> r \<noteq> Inr ()
    \<or> (\<exists>added. l' = (Drain_Input, True) # added @ (Initialize_Input, True) # (Register_Input, True) # l \<and> run_shape r added)"
proof -
  have "(\<exists>e. http_frontend_run F P exts cfg = fails_with e)
    \<or> http_frontend_run F P exts cfg = with_active_input (run_with_router_plugins F cfg exts)"
    unfolding http_frontend_run_def by (cases "rp_valid P (config_model cfg)") auto
  then consider (refused) e where "http_frontend_run F P exts cfg = fails_with e"
    | (runs) "http_frontend_run F P exts cfg = with_active_input (run_with_router_plugins F cfg exts)"
    by blast
  then show ?thesis
  proof cases
    case refused
    with assms show ?thesis by (auto simp: fails_with_def)
  next
    case runs
    let ?l = "(Initialize_Input, True) # (Register_Input, True) # l"
    obtain l1 where b: "run_with_router_plugins F cfg exts ?l = (r, l1)" "l' = (Drain_Input, True) # l1"
      using assms runs by (auto simp: with_active_input_def split: prod.splits)
    from run_with_router_plugins_shape [OF b(1)] obtain added where "l1 = added @ ?l" "run_shape r added" .
    with b(2) show ?thesis by auto
  qed
qed

text \<open>
  Without a client certificate authority and without plugins of the main version, the two
  versions of the frontend make the same calls and give the same result.
\<close>

lemma tls_agree: "tls_settings_of exists cert key None = release_tls_settings_of exists cert key"
  by (cases cert; cases key) (simp_all add: tls_settings_of_def release_tls_settings_of_def)

lemma frontend_versions_agree:
  assumes "lm_tls_client_ca (config_model cfg) = None"
  shows "http_frontend_run F \<lparr>rp_classifier = False, rp_custom = custom, rp_valid = (\<lambda>_. None)\<rparr> exts cfg
    = release_http_frontend_run F custom exts cfg"
  using assms
  by (simp add: http_frontend_run_def release_http_frontend_run_def run_with_router_plugins_def
      release_run_with_worker_selector_factory_def tls_agree)

text \<open>
  A service is served over TLS exactly when a certificate and a key are configured, and then all
  configured files exist; a client certificate authority alone, a certificate without a key or a key
  without a certificate stop the start.
\<close>

lemma tls_all_or_nothing:
  "(tls_settings_of exists cert key ca = Inr None \<longleftrightarrow> cert = None \<and> key = None \<and> ca = None)
   \<and> (tls_settings_of exists cert key ca = Inr (Some t) \<longleftrightarrow>
        cert = Some (tl_cert t) \<and> key = Some (tl_key t) \<and> ca = tl_client_ca t
        \<and> exists (tl_cert t) \<and> exists (tl_key t) \<and> is_none_or exists (tl_client_ca t))"
  by (cases cert; cases key; cases ca; cases t) (auto simp: tls_settings_of_def)

section \<open>Samples\<close>

text \<open>Model types are lists of units, named like the one endpoint each offers; the flags are the list of enabled ones.\<close>

definition sample_http :: "(string list, string, string list, nat) http_lib" where
  "sample_http =
     \<lparr>hl_units = map (\<lambda>u. [u]), hl_empty = [], hl_or = (@), hl_endpoints = id, hl_all = [''chat'', ''batch''],
      hl_batch = ''batch'', hl_enable = (\<lambda>e on f. Inr (if on then e # f else removeAll e f)),
      hl_enabled = (\<lambda>f e. e \<in> set f), hl_metrics = (\<lambda>_ n. Inr (Suc n))\<rparr>"

definition quiet_frontend :: "(string list, string list, nat) frontend_state" where
  "quiet_frontend = \<lparr>fr_has = (\<lambda>_. False), fr_unsent = [], fr_channel = [], fr_flags = [], fr_metrics = 0\<rparr>"

definition chat_model :: "string list model_card" where
  "chat_model = \<lparr>md_display_name = ''base'', md_model_type = [''chat'']\<rparr>"

lemma sample_foldl: "foldl (@) a us = a @ concat us"
  by (induction us arbitrary: a) simp_all

lemma sample_flag_laws: "flag_laws sample_http"
  by (auto simp: flag_laws_def sample_http_def sample_foldl fun_eq_iff)

lemma sample_owner: "sole_owner sample_http [''chat''] ''chat''"
  by (auto simp: sole_owner_def sample_http_def)

definition added_frontend :: "(string list, string list, nat) frontend_state" where
  "added_frontend = quiet_frontend\<lparr>fr_has := (\<lambda>u. u = [''chat'']), fr_unsent := [Model_Added chat_model]\<rparr>"

lemma sample_reachable: "frontend_reachable sample_http quiet_frontend added_frontend"
proof (rule frontend_reachable.more [OF frontend_reachable.start])
  show "frontend_step sample_http quiet_frontend added_frontend"
    using catalog_changes [of sample_http quiet_frontend "Model_Added chat_model" "\<lambda>u. u = [''chat'']"]
    by (simp add: added_frontend_def quiet_frontend_def sample_http_def chat_model_def)
qed

theorem flags_follow_catalog_witness:
  "\<exists>t. frontend_reachable sample_http added_frontend t \<and> fr_channel t = [] \<and> fr_unsent t = []
     \<and> hl_enabled sample_http (fr_flags t) ''chat''"
proof -
  have "fr_channel quiet_frontend = []" "fr_unsent quiet_frontend = []"
    "hl_enabled sample_http (fr_flags quiet_frontend) ''chat'' \<longleftrightarrow> fr_has quiet_frontend [''chat'']"
    by (simp_all add: quiet_frontend_def sample_http_def)
  from flags_follow_catalog [OF sample_flag_laws sample_owner this sample_reachable]
  show ?thesis by (auto simp: added_frontend_def)
qed

definition sample_local_model :: local_model where
  "sample_local_model =
     \<lparr>lm_display_name = ''base'', lm_checksum = ''c0'', lm_path = [], lm_tls_cert = None, lm_tls_key = None,
      lm_tls_client_ca = None, lm_http_port = 8000, lm_http_host = None, lm_kv_routing = True\<rparr>"

text \<open>The port is taken: running the service fails.\<close>

definition occupied_port :: "unit frontend_env" where
  "occupied_port = \<lparr>fe_exists = (\<lambda>_. True), fe_lora_serving = False,
     fe_answer = (\<lambda>k _. if k = Run_Service then Some ''address in use'' else None)\<rparr>"

definition no_plugins :: router_plugins where
  "no_plugins = \<lparr>rp_classifier = False, rp_custom = False, rp_valid = (\<lambda>_. None)\<rparr>"

lemma frontend_run_is_bracketed_sample:
  "fst (http_frontend_run occupied_port no_plugins [] (In_Process_Text sample_local_model) []) = Inl (Start_Failed ''address in use'')
   \<and> made Shutdown_Runtime (snd (http_frontend_run occupied_port no_plugins [] (In_Process_Text sample_local_model) []))
   \<and> hd (snd (http_frontend_run occupied_port no_plugins [] (In_Process_Text sample_local_model) [])) = (Drain_Input, True)"
proof -
  let ?run = "http_frontend_run occupied_port no_plugins [] (In_Process_Text sample_local_model) []"
  have "fst ?run = Inl (Start_Failed ''address in use'')" "made Shutdown_Runtime (snd ?run)" "snd ?run \<noteq> []"
    by (simp_all add: http_frontend_run_def with_active_input_def run_with_router_plugins_def tls_settings_of_def start_engine_def
        and_then_def invoke_def serve_def occupied_port_def no_plugins_def sample_local_model_def Let_def)
  moreover from this frontend_run_is_bracketed [OF prod.collapse [of ?run, symmetric]]
  have "hd (snd ?run) = (Drain_Input, True)" by auto
  ultimately show ?thesis by simp
qed

lemma frontend_versions_agree_sample:
  "http_frontend_run occupied_port \<lparr>rp_classifier = False, rp_custom = False, rp_valid = (\<lambda>_. None)\<rparr> [] (In_Process_Text sample_local_model)
   = release_http_frontend_run occupied_port False [] (In_Process_Text sample_local_model)"
  by (rule frontend_versions_agree) (simp add: sample_local_model_def)

end
