(* ===== verification/Spec2Isabelle.thy ===== *)
theory Spec2Isabelle
  imports Warm_Progress Dims_Gather Release_Construction Render_Cases Endpoint_Registration Http_Frontend
begin

text \<open>
  \<^bold>\<open>The Rust code of ReedCode: speculative prefill for tool-calling turns, the request
  preprocessor it is built into, and the frontend and endpoints it is served by.\<close>

  \<^medskip>
  \<^bold>\<open>The program.\<close>  The Rust sources are under \<open>src/experiments/dynamo-upstream/\<close>, in the
  experiments \<open>001-speculative-prefill\<close> (paths below are relative to it),
  \<open>002-renderer-parity\<close> and \<open>006-fixed-rpc-registration\<close>.  A frontend turns chat
  requests into token requests for workers (\<open>fix/dynamo/preprocessor.rs\<close>) and the workers'
  output into the response stream.  When a turn has ended, a warmup
  (\<open>fix/dynamo/speculative_prefill.rs\<close>) renders the prefix of the \<^emph>\<open>next\<close> turn and sends it to
  a worker with a limit of one token, so that its cache already holds that prefix.  The versions
  the fix replaces (\<open>current-code/sources/main\<close> and \<open>release\<close>) do this for text only; the fix
  does it for turns that end in tool calls, with an accumulator of the streamed calls
  (\<open>fix/dynamo/accumulator.rs\<close>), a contract on renderer and tokenizer
  (\<open>fix/dynamo/contract.rs\<close>), and a renderer that closes the prefix in front of tool results
  nobody knows yet (\<open>fix/renderer/speculative.rs\<close>, \<open>fix/renderer/qwen3-tool-prefix.jinja\<close>,
  \<open>fix/renderer.patch\<close>).  Workers register their endpoints with a request plane server and with
  discovery, and the HTTP frontend turns the routes of a model on and off as models come and go; the
  main and the released version of both are in \<open>006-fixed-rpc-registration/evidence\<close>.

  \<^medskip>
  \<^bold>\<open>Foundations.\<close>
  \<^item> \<open>Prelude\<close>: the types of the sources (machine integers as words; \<open>usize\<close> as a natural
    number with its bound written out in the checked and saturating operations), options, lists.
  \<^item> \<open>Ordered_Map\<close>: \<open>BTreeMap\<close> and order-free \<open>HashMap\<close>s as ordered association lists; the
    locale \<open>keyed_store\<close> states the laws and is interpreted on them.
  \<^item> \<open>Json\<close>: the values of \<open>serde_json\<close> with reading, indexing and assignment (which may panic).
  \<^item> \<open>Stages\<close>: a stream stage as a step function with a flush and its run over a list of items; the
    locales \<open>buffering_stage\<close> (what is held back comes out) and \<open>absorbing_monitor\<close> (once failed,
    always failed) and their uses by the stages below.
  \<^item> \<open>Transitions\<close>: step relations, reachability, and the locale of an invariant.
  \<^item> \<open>Effects\<close>: code that calls other parts and may fail, as a function that returns its result
    and the history of its calls; sequencing, and what a history can have grown by.
  \<^item> \<open>Text_Search\<close>, \<open>Utf8\<close>: the string searches of the standard library and text cut at
    arbitrary positions.
  \<^item> \<open>Chat_Types\<close>: choices, deltas, chunks and annotated frames of the response stream.

  \<^medskip>
  \<^bold>\<open>The warmup of the fix.\<close>
  \<^item> \<open>Tool_Turn\<close> models \<open>CompletedToolTurn\<close>: \<open>observe\<close> with every early return, and \<open>finish\<close>.
    A panic is the value \<open>None\<close>.  Accepted turns are verbatim and complete, failed turns are never
    accepted, no stream panics.
  \<^item> \<open>Qwen_Template\<close> is the pinned chat template as a function; \<open>Continuation\<close> models
    \<open>contract.rs\<close>, \<open>qwen_tool_prefix\<close> and the method the patch adds.  The closed prefix is a
    prefix of every continuation of the conversation and covers all of its history.
  \<^item> \<open>Warmup\<close> is the life cycle (\<open>maybe_wrap_stream\<close> after its wrapping, \<open>prefill_task\<close>,
    \<open>PrefillTasks\<close>) as a step relation over all tasks and blocking closures of the process: a step
    is one action between two await points or two reads of shared state, so every interleaving,
    cancellation and time-out is a run of the relation.  The locale \<open>warm_kit\<close> states what the life
    cycle needs of a closure; the invariant, one request per task, the bound on closures and the
    silence of a dropped owner are proved in or from it.
  \<^item> \<open>Tool_Warmup\<close> gives the wrapper and the closure of the fix and interprets \<open>warm_kit\<close>; with
    \<open>Continuation\<close> it yields that the warmed token ids are a prefix of the ids of the next turn.
  \<^item> \<open>Stock_Warmup\<close> does the same for the two stock versions and relates them.
  \<^item> \<open>Warm_Progress\<close> extends the contract by a rank of closures (\<open>returning_kit\<close>, \<open>live_kit\<close>) and
    interprets it on both versions: warmups come to rest in a bounded number of steps.

  \<^medskip>
  \<^bold>\<open>Requests\<close> (\<open>preprocessor.rs\<close>).
  \<^item> \<open>Token_Budget\<close>: exact prompt length, both overflow policies, the default of an omitted cap.
  \<^item> \<open>Thinking_Control\<close>: defaults, normalization and the two reasoning gates.
  \<^item> \<open>Response_Policy\<close>: stop tokens, special tokens, parser tables and the route of a response.
  \<^item> \<open>Mm_Routing\<close>: expansion of media placeholders into the tokens by which a worker reports its
    cache blocks; the blocks agree with the worker's events.
  \<^item> \<open>Request_Builder\<close>: the builder with stop conditions, routing hints and arguments, the template
    and the tokens.  \<open>Media_Gather\<close>: slots and hashes of media, all or nothing.  \<open>Preprocess\<close>: the
    composition in \<open>preprocess_request_with_options\<close>, where the cache identity of a client reaches
    router and worker alike.
  \<^item> \<open>Embedding\<close>: embedding requests, truncation, the tokenizer cache, the response and the
    operator, which answers every item of the worker in order.
  \<^item> \<open>Image_Dims\<close>: the look at the header of an image for its dimensions, with the URL check, at
    most two range requests and the shared cache.  \<open>Dims_Gather\<close>: the images of a request looked at
    concurrently; the order does not matter, and the function \<open>Media_Gather\<close> takes is justified.
  \<^item> \<open>Construction\<close>: the constructors of the preprocessor from a model card.  Image routing is
    complete or off, and a warmup needs a card with the pinned artifacts.

  \<^medskip>
  \<^bold>\<open>Responses\<close> (\<open>preprocessor.rs\<close>).
  \<^item> \<open>Per_Choice\<close>: stages that keep one state per choice, and what a choice sees of a stream that
    interleaves choices.
  \<^item> \<open>Reasoning_Stream\<close> and \<open>Unified_Deferral\<close>: reasoning deferred until an answer is seen, for
    the two kinds of parsers; both refine a definition on the whole text of a choice.
  \<^item> \<open>Strip_Reasoning\<close>: a leading marker removed independently of the cutting into deltas.
  \<^item> \<open>Usage_Stages\<close>: usage frames, roles, reasoning tokens and the tool-call policy.
  \<^item> \<open>Jail_Adapter\<close>: the adapter around the tool-call jail: token counts are conserved (the locale
    \<open>counting_adapter\<close>), an error is terminal, truncated calls are hidden.
  \<^item> \<open>Release_Jail\<close>: the adapter of the released version, which sends a truncated call instead; its
    bounded buffers recover exactly the open call of the whole response.  For other parsers the two
    adapters are the same.
  \<^item> \<open>Pipeline\<close>: the composition for every route; no tool call reaches a client that did not ask.
  \<^item> \<open>Delta_Stream\<close>: engine output into response deltas with metrics, usage and payload chunks;
    every token is counted once and payload capture is invisible to the client.
  \<^item> \<open>Chat_Generate\<close>: the operators \<open>generate\<close> for chat and completions, from the client's request
    to the stream it gets and the turn the warmup gets.  A turn is handed to the warmup only if
    the request has the plain cache identity the contract supports.

  \<^medskip>
  \<^bold>\<open>Versions\<close> (\<open>current-code/sources\<close>).
  \<^item> \<open>Versions\<close> has the chat operator of main and shows that the fix is invisible to clients and
    warms only turns that main warms, too, but with their text alone.
  \<^item> \<open>Release_Routing\<close>, \<open>Release_Parsers\<close>, \<open>Release_Media\<close> and \<open>Release_Requests\<close> have the functions
    of the released version that differ from the fix on the way of a request: layouts and routing
    information, parser tables with stop tokens and routes, the scan and the gathering of media, the
    builder and the preprocessing.  Each comes with an embedding into the types of the fix and the
    proof that the two versions agree where the released one supports what is asked for; together
    they give that the fix prepares the same request for the worker.
  \<^item> \<open>Release_Generate\<close> has the operators of the released version and shows that its clients see no
    difference after the upgrade.  \<open>Release_Construction\<close> has its constructors: from a card without
    the contract only the fix knows, both versions build the same preprocessor.

  \<^medskip>
  \<^bold>\<open>Programs around the server.\<close>  \<open>Render_Cases\<close> models the programs that replay rendering cases:
  \<open>002-renderer-parity/src/main.rs\<close>, \<open>current-code/runner.rs\<close>, \<open>scope/runner.rs\<close> and \<open>fix/check.rs\<close>,
  with every early return and panic.  What the replay prints is what the stock warmup sends, and what
  the check program prints is what the warmup of the fix sends.

  \<^medskip>
  \<^bold>\<open>Serving\<close> (\<open>006-fixed-rpc-registration/evidence\<close>).
  \<^item> \<open>Endpoint_Registration\<close> models the start of an endpoint, its clean-up task and its transports
    (\<open>frontend-startup-main-endpoint.rs\<close>, \<open>frontend-startup-release-endpoint.rs\<close>) on histories of calls: an advertised
    endpoint is callable at every moment, the shutdown tracker is balanced, and a fixed port needs a
    bound server in the released version only.
  \<^item> \<open>Http_Frontend\<close> models the start of the frontend (\<open>frontend-startup-main-http.rs\<close>,
    \<open>frontend-startup-release-http.rs\<close>) in the same way, and the watcher and the endpoint enabler as a step
    relation.  The locale \<open>notified_view\<close> states when a view that is updated by notifications
    settles; it is interpreted on the endpoint flags.

  \<^medskip>
  \<^bold>\<open>Parameters.\<close>  The tokenizers, the template engine, the message types and their readers, the
  reasoning and tool parsers, the jail, the router's normalization of events, the media loader, the
  HTTP client, the image decoder, the runtime, discovery, the file system and the HTTP service are
  other code.  They are functions in records (\<open>protocol\<close>, \<open>renderer\<close>, \<open>tokenizer\<close>, \<open>parser_kit\<close>,
  \<open>jail_kit\<close>, \<open>routing_kit\<close>, \<open>build_lib\<close>, \<open>media_env\<close>, \<open>delta_kit\<close>, \<open>chat_env\<close>, \<open>dim_kit\<close>,
  \<open>dim_cache\<close>, \<open>release_media_env\<close>, \<open>construct_lib\<close>, \<open>release_construct_lib\<close>, \<open>runtime_lib\<close>,
  \<open>http_lib\<close>, \<open>frontend_env\<close>, \<open>render_lib\<close>), and what a theorem needs of them is a hypothesis of it.
  The witnesses instantiate them with concrete functions.

  \<^medskip>
  \<^bold>\<open>Bounds.\<close>  All functions are total; loops are structural recursions, or have a measure (the
  searches, the scan over placeholders, the range requests).  The loop over the completed
  calls of the jail is bounded by the length of its text, which is enough.  The
  closures of the warmup take at most five steps.

  \<^medskip>
  \<^bold>\<open>Not modelled.\<close>  The media module is not in the repository.  Logging, timing, request traces and
  process-wide counters have no part in the properties.  Of the earlier copies of \<open>preprocessor.rs\<close>
  what differs from the fix is modelled: the copy of main is the text of the fix without its checks of
  artifacts and identity, and the
  functions the release shares with it line by line are modelled once.  The structured details of an overflow error, which only the fix has, repeat numbers
  of its message.  Tests, scripts, evaluations and recorded data are not part of the running program;
  second copies of modelled files are byte-identical to them.
\<close>

end
